(* ===== verification/Prelude.thy ===== *)
theory Prelude
  imports Main "HOL-Library.Word"
begin

text \<open>
  The shared vocabulary of the development: the machine integers of the C and C++ sources as
  fixed-width words, little-endian byte views of them, and the result type of every operation
  that may leave the program (\<open>exit\<close>) or reach undefined behaviour of the language. The rules of
  the sequencing operator and the two fact collections used by the component proofs are here.
\<close>

unbundle bit_operations_syntax

subsection \<open>Machine integers\<close>

type_synonym u8 = "8 word"
type_synonym u16 = "16 word"
type_synonym u32 = "32 word"
type_synonym u64 = "64 word"

named_theorems byte_simps \<open>bytes of words, byte by byte\<close>
named_theorems outcome_intros \<open>invariants carried through sequenced operations\<close>

lemma u8_lt: "unat (b :: u8) < 256"
proof -
  have "unat b < 2 ^ LENGTH(8)" by (rule unsigned_less)
  then show ?thesis by simp
qed

text \<open>Byte \<open>i\<close> of a 64-bit word in memory order (x86-64 is little-endian).\<close>

definition byte_of :: "u64 \<Rightarrow> nat \<Rightarrow> u8" where
  "byte_of w i = ucast (drop_bit (8 * i) w)"

lemma bit_byte_of [byte_simps]: "bit (byte_of w i) n \<longleftrightarrow> n < 8 \<and> bit w (8 * i + n)"
  by (auto simp: byte_of_def bit_ucast_iff bit_drop_bit_eq)

lemma word_eq_bytes:
  assumes "\<And>i. i < 8 \<Longrightarrow> byte_of v i = byte_of w i"
  shows "v = (w :: u64)"
proof (rule bit_word_eqI)
  fix n assume "n < LENGTH(64)"
  then have n: "n div 8 < 8" "n mod 8 < 8" by simp_all
  from assms [OF n(1)] have "bit (byte_of v (n div 8)) (n mod 8) = bit (byte_of w (n div 8)) (n mod 8)"
    by simp
  with n show "bit v n = bit w n" by (simp add: bit_byte_of)
qed

lemma mask_high_bytes: "(0xffffffffffffff00 :: u64) = NOT (mask 8)"
  by (simp add: mask_eq_exp_minus_1)

lemma mask_low_byte: "(0xff :: u64) = mask 8"
  by (simp add: mask_eq_exp_minus_1)

text \<open>Replacing the low byte by \<open>c\<close>, as \<open>(code & 0xffffffffffffff00) | c\<close> does.\<close>

definition set_low_byte :: "u64 \<Rightarrow> u64 \<Rightarrow> u64" where
  "set_low_byte code c = (code AND 0xffffffffffffff00) OR c"

lemma byte_of_set_low_ucast [byte_simps]:
  assumes "i < 8"
  shows "byte_of (set_low_byte w (ucast b)) i = (if i = 0 then b else byte_of w i)"
proof (rule bit_word_eqI)
  fix n assume n: "n < LENGTH(8)"
  have "8 * i + n < LENGTH(64)" using assms n by simp
  then have "bit (set_low_byte w (ucast b)) (8 * i + n) \<longleftrightarrow>
      (8 \<le> 8 * i + n \<and> bit w (8 * i + n)) \<or> bit (ucast b :: u64) (8 * i + n)"
    unfolding set_low_byte_def mask_high_bytes
    by (simp only: bit_or_iff bit_and_iff bit_not_iff bit_mask_iff possible_bit_word) auto
  moreover have "bit (ucast b :: u64) k \<longleftrightarrow> k < 8 \<and> bit b k" for k
    using bit_imp_le_length [of b k] by (auto simp: bit_ucast_iff)
  ultimately show "bit (byte_of (set_low_byte w (ucast b)) i) n = bit (if i = 0 then b else byte_of w i) n"
    using n assms by (cases "i = 0") (auto simp: bit_byte_of)
qed

lemma byte_of_set_low_byte [byte_simps]:
  assumes "i < 8"
  shows "byte_of (set_low_byte w 0xcc) i = (if i = 0 then 0xcc else byte_of w i)"
proof -
  have "(0xcc :: u64) = ucast (0xcc :: u8)" by simp
  then show ?thesis using byte_of_set_low_ucast [OF assms, of w "0xcc"] by (simp only:)
qed

lemma low_byte_and [byte_simps]: "(w AND 0xff = 0xcc) \<longleftrightarrow> byte_of w 0 = (0xcc :: u8)"
proof -
  have m: "w AND 0xff = (ucast (byte_of w 0) :: u64)"
  proof (rule bit_word_eqI)
    fix n assume "n < LENGTH(64)"
    then show "bit (w AND 0xff) n = bit (ucast (byte_of w 0) :: u64) n"
      unfolding mask_low_byte by (auto simp: bit_and_iff bit_mask_iff bit_ucast_iff bit_byte_of)
  qed
  have "unat (byte_of w 0) < 2 ^ 64" using u8_lt [of "byte_of w 0"] by simp
  then have "unat (ucast (byte_of w 0) :: u64) = unat (byte_of w 0)"
    by (simp add: unsigned_ucast_eq take_bit_nat_eq_self)
  then have "(ucast (byte_of w 0) :: u64) = 0xcc \<longleftrightarrow> unat (byte_of w 0) = 204"
    by (simp add: word_unat_eq_iff del: unsigned_ucast_eq)
  also have "\<dots> \<longleftrightarrow> byte_of w 0 = (0xcc :: u8)"
    by (simp add: word_unat_eq_iff)
  finally show ?thesis using m by simp
qed

text \<open>The value of a little-endian byte sequence of any length.\<close>

fun le_val :: "u8 list \<Rightarrow> nat" where
  "le_val [] = 0"
| "le_val (b # bs) = unat b + 256 * le_val bs"

lemma le_val_bound: "le_val bs < 256 ^ length bs"
proof (induction bs)
  case Nil
  show ?case by simp
next
  case (Cons b bs)
  have "unat b < 256" by (rule u8_lt)
  moreover have "Suc (le_val bs) \<le> 256 ^ length bs" using Cons.IH by simp
  then have "256 * Suc (le_val bs) \<le> 256 * 256 ^ length bs" by (rule mult_le_mono2)
  ultimately show ?case by simp
qed

fun le_bytes :: "nat \<Rightarrow> nat \<Rightarrow> u8 list" where
  "le_bytes 0 v = []"
| "le_bytes (Suc k) v = of_nat (v mod 256) # le_bytes k (v div 256)"

lemma length_le_bytes [simp]: "length (le_bytes k v) = k"
  by (induction k arbitrary: v) simp_all

lemma le_val_le_bytes: "v < 256 ^ k \<Longrightarrow> le_val (le_bytes k v) = v"
proof (induction k arbitrary: v)
  case 0
  then show ?case by simp
next
  case (Suc k)
  then have "v div 256 < 256 ^ k" by (simp add: less_mult_imp_div_less mult.commute)
  then have "le_val (le_bytes k (v div 256)) = v div 256" by (rule Suc.IH)
  then show ?case by (simp add: unat_of_nat)
qed

text \<open>A 32-bit integer below \<open>2 ^ 31\<close> is read as itself and widened to itself.\<close>

lemma sint_lt31: "unat i < 2 ^ 31 \<Longrightarrow> sint (i :: u32) = int (unat i)"
proof -
  assume i: "unat i < 2 ^ 31"
  have u: "uint i = int (unat i)" by (rule uint_nat)
  have "signed_take_bit 31 (int n) = int n" if "n < 2 ^ 31" for n
    using that by (intro signed_take_bit_int_eq_self) simp_all
  from this [OF i] show ?thesis by (simp only: sint_uint u) simp
qed

lemma scast_lt31: "unat i < 2 ^ 31 \<Longrightarrow> scast (i :: u32) = (of_nat (unat i) :: u64)"
  using sint_lt31 [of i] by (simp only: scast_eq of_int_of_nat_eq)

lemma unat_small: "n < 2 ^ 64 \<Longrightarrow> unat (of_nat n :: u64) = n"
  by (simp add: unat_of_nat)

lemma unat_plus_small: "unat a + n < 2 ^ 64 \<Longrightarrow> unat (a + of_nat n :: u64) = unat a + n"
proof -
  assume "unat a + n < 2 ^ 64"
  moreover have "a + of_nat n = of_nat (unat a + n)" by simp
  ultimately show ?thesis using unat_small by (simp only:)
qed

lemma sint_small: "n < 2 ^ 63 \<Longrightarrow> sint (of_nat n :: u64) = int n"
  by (simp add: sint_uint uint_nat unat_of_nat signed_take_bit_int_eq_self)

subsection \<open>Outcomes\<close>

text \<open>
  What an operation of a command-line program can do to its state: go on with the new state,
  leave through \<open>exit(n)\<close> in a last state, reach undefined behaviour of the language (an index
  out of range, a read of memory that was never written), after which nothing is promised, or wait
  for ever in a system call that does not return.
\<close>

datatype 's outcome = Ok 's | Exit int 's | Undef | Blocked

fun andthen :: "'s outcome \<Rightarrow> ('s \<Rightarrow> 't outcome) \<Rightarrow> ('s \<Rightarrow> 't) \<Rightarrow> 't outcome" where
  "andthen (Ok s) f g = f s"
| "andthen (Exit n s) f g = Exit n (g s)"
| "andthen Undef f g = Undef"
| "andthen Blocked f g = Blocked"

abbreviation seq :: "'s outcome \<Rightarrow> ('s \<Rightarrow> 's outcome) \<Rightarrow> 's outcome" where
  "seq m f \<equiv> andthen m f (\<lambda>s. s)"

lemma andthen_cong [fundef_cong]:
  assumes "m = m'" and "\<And>s. m' = Ok s \<Longrightarrow> f s = f' s" and "g = g'"
  shows "andthen m f g = andthen m' f' g'"
  using assms by (cases m') simp_all

lemma seq_assoc: "seq (seq m f) g = seq m (\<lambda>s. seq (f s) g)"
  by (cases m) simp_all

lemma seq_OkE:
  assumes "seq m f = Ok t"
  obtains s where "m = Ok s" and "f s = Ok t"
  using assms by (cases m) simp_all

lemma seq_Ok_right [simp]: "seq m Ok = m"
  by (cases m) simp_all

text \<open>A predicate on states that holds of whatever state an operation ends in.\<close>

fun ends_in :: "'s outcome \<Rightarrow> ('s \<Rightarrow> bool) \<Rightarrow> bool" where
  "ends_in (Ok s) P = P s"
| "ends_in (Exit n s) P = P s"
| "ends_in Undef P = True"
| "ends_in Blocked P = True"

lemma ends_in_seq [outcome_intros]:
  "ends_in m P \<Longrightarrow> (\<And>s. P s \<Longrightarrow> ends_in (f s) P) \<Longrightarrow> ends_in (seq m f) P"
  by (cases m) simp_all

lemma ends_in_mono: "ends_in m P \<Longrightarrow> (\<And>s. P s \<Longrightarrow> Q s) \<Longrightarrow> ends_in m Q"
  by (cases m) simp_all

lemma ends_in_Ok: "ends_in m P \<Longrightarrow> m = Ok s \<Longrightarrow> P s"
  by simp

subsection \<open>Lists\<close>

lemma takeWhile_append_stop:
  "(\<And>x. x \<in> set xs \<Longrightarrow> P x) \<Longrightarrow> ys = [] \<or> \<not> P (hd ys) \<Longrightarrow> takeWhile P (xs @ ys) = xs"
  by (cases ys) (simp_all add: takeWhile_append2)

lemma dropWhile_append_stop:
  "(\<And>x. x \<in> set xs \<Longrightarrow> P x) \<Longrightarrow> ys = [] \<or> \<not> P (hd ys) \<Longrightarrow> dropWhile P (xs @ ys) = ys"
  by (cases ys) (simp_all add: dropWhile_append2)

lemma length_dropWhile_lt:
  "xs \<noteq> [] \<Longrightarrow> P (hd xs) \<Longrightarrow> length (dropWhile P xs) < length xs"
  by (cases xs) (simp_all add: length_dropWhile_le less_Suc_eq_le)

end
