(* ===== verification/Ctext.thy ===== *)
theory Ctext
  imports Prelude "HOL-Library.Sublist"
begin

text \<open>
  The parts of the C and C++ text libraries the sources call: character classes, numerals in a
  base and back (\<open>operator<<\<close>, \<open>to_string\<close>, \<open>strtoul\<close>, \<open>strtoull\<close>, \<open>atoi\<close>), words of a line
  (\<open>istringstream >> string\<close>), \<open>strtok\<close>, \<open>std::string::find\<close> and lines of a text file. Lemmas: the
  numeral round trip, words round trip, and what \<open>find\<close> decides.
\<close>

subsection \<open>Character classes of the C locale\<close>

abbreviation ccode :: "char \<Rightarrow> nat" where
  "ccode c \<equiv> of_char c"

definition is_space :: "char \<Rightarrow> bool" where
  "is_space c \<longleftrightarrow> ccode c = 32 \<or> (9 \<le> ccode c \<and> ccode c \<le> 13)"

definition is_digit :: "char \<Rightarrow> bool" where
  "is_digit c \<longleftrightarrow> 48 \<le> ccode c \<and> ccode c \<le> 57"

definition is_alpha :: "char \<Rightarrow> bool" where
  "is_alpha c \<longleftrightarrow> (65 \<le> ccode c \<and> ccode c \<le> 90) \<or> (97 \<le> ccode c \<and> ccode c \<le> 122)"

definition is_print :: "char \<Rightarrow> bool" where
  "is_print c \<longleftrightarrow> 32 \<le> ccode c \<and> ccode c \<le> 126"

text \<open>Bytes and characters.\<close>

definition char_of_byte :: "u8 \<Rightarrow> char" where
  "char_of_byte b = char_of (unat b)"

definition byte_of_char :: "char \<Rightarrow> u8" where
  "byte_of_char c = of_nat (ccode c)"

lemma char_of_byte_of_char [simp]: "char_of_byte (byte_of_char c) = c"
  by (simp add: char_of_byte_def byte_of_char_def unat_of_nat)

lemma byte_of_char_of_byte [simp]: "byte_of_char (char_of_byte b) = b"
proof -
  have "unat b mod 256 = unat b" using u8_lt [of b] by simp
  then show ?thesis by (simp add: char_of_byte_def byte_of_char_def)
qed

lemma byte_of_char_inj: "byte_of_char c = byte_of_char d \<longleftrightarrow> c = d"
  by (metis char_of_byte_of_char)

abbreviation newline :: char where
  "newline \<equiv> char_of (10 :: nat)"

abbreviation tab_char :: char where
  "tab_char \<equiv> char_of (9 :: nat)"

subsection \<open>Numerals\<close>

definition digit_char :: "nat \<Rightarrow> char" where
  "digit_char d = char_of (if d < 10 then 48 + d else 87 + d)"

definition digit_val :: "char \<Rightarrow> nat option" where
  "digit_val c =
     (let k = ccode c in
      if 48 \<le> k \<and> k \<le> 57 then Some (k - 48)
      else if 97 \<le> k \<and> k \<le> 122 then Some (k - 87)
      else if 65 \<le> k \<and> k \<le> 90 then Some (k - 55)
      else None)"

lemma code_char_of: "n < 256 \<Longrightarrow> ccode (char_of n) = n"
  by (simp add: of_char_of)

lemma digit_val_digit_char: "d < 36 \<Longrightarrow> digit_val (digit_char d) = Some d"
  by (auto simp: digit_val_def digit_char_def code_char_of Let_def)

lemma digit_char_inj: "d < 36 \<Longrightarrow> e < 36 \<Longrightarrow> digit_char d = digit_char e \<Longrightarrow> d = e"
  using digit_val_digit_char by (metis option.inject)

fun show_nat :: "nat \<Rightarrow> nat \<Rightarrow> string" where
  "show_nat b n = (if n < b \<or> b < 2 then [digit_char n] else show_nat b (n div b) @ [digit_char (n mod b)])"

declare show_nat.simps [simp del]

fun read_digits :: "nat \<Rightarrow> nat \<Rightarrow> string \<Rightarrow> nat" where
  "read_digits b acc [] = acc"
| "read_digits b acc (c # cs) =
     (case digit_val c of
        Some d \<Rightarrow> if d < b then read_digits b (acc * b + d) cs else acc
      | None \<Rightarrow> acc)"

definition base_digit :: "nat \<Rightarrow> char \<Rightarrow> bool" where
  "base_digit b c = (case digit_val c of Some d \<Rightarrow> d < b | None \<Rightarrow> False)"

lemma read_digits_stop: "rest = [] \<or> \<not> base_digit b (hd rest) \<Longrightarrow> read_digits b acc rest = acc"
  by (cases rest) (auto simp: base_digit_def split: option.splits)

lemma show_nat_nonempty [simp]: "show_nat b n \<noteq> []"
  by (subst show_nat.simps) simp

lemma show_nat_digits:
  assumes "2 \<le> b" "b \<le> 36" "c \<in> set (show_nat b n)"
  shows "base_digit b c"
  using assms
proof (induction b n rule: show_nat.induct)
  case (1 b n)
  show ?case
  proof (cases "n < b")
    case True
    with "1.prems" show ?thesis
      by (simp add: show_nat.simps [of b n] base_digit_def digit_val_digit_char)
  next
    case False
    with "1.prems" have "c \<in> set (show_nat b (n div b)) \<or> c = digit_char (n mod b)"
      by (auto simp: show_nat.simps [of b n])
    then show ?thesis
    proof
      assume "c \<in> set (show_nat b (n div b))"
      with False "1.prems" show ?thesis by (intro "1.IH") simp_all
    next
      assume c: "c = digit_char (n mod b)"
      have "n mod b < b" "n mod b < 36" using "1.prems" by (auto intro: less_le_trans [OF mod_less_divisor])
      then show ?thesis by (simp add: c base_digit_def digit_val_digit_char)
    qed
  qed
qed

lemma read_digits_append:
  "list_all (base_digit b) ys \<Longrightarrow> read_digits b a (ys @ xs) = read_digits b (read_digits b a ys) xs"
  by (induction ys arbitrary: a) (auto simp: base_digit_def split: option.splits)

lemma show_nat_all_digits: "2 \<le> b \<Longrightarrow> b \<le> 36 \<Longrightarrow> list_all (base_digit b) (show_nat b n)"
  by (auto simp: list_all_iff intro: show_nat_digits)

lemma read_show_nat:
  assumes "2 \<le> b" "b \<le> 36"
  shows "read_digits b acc (show_nat b n) = acc * b ^ length (show_nat b n) + n"
  using assms
proof (induction b n arbitrary: acc rule: show_nat.induct)
  case (1 b n)
  show ?case
  proof (cases "n < b")
    case True
    with "1.prems" show ?thesis
      by (simp add: show_nat.simps [of b n] digit_val_digit_char)
  next
    case False
    have lt: "n mod b < b" "n mod b < 36" using "1.prems"
      by (auto intro: less_le_trans [OF mod_less_divisor])
    have "read_digits b acc (show_nat b (n div b) @ [digit_char (n mod b)]) =
        (acc * b ^ length (show_nat b (n div b)) + n div b) * b + n mod b"
      using False "1.prems" "1.IH" lt
      by (simp add: read_digits_append show_nat_all_digits digit_val_digit_char)
    then show ?thesis using False "1.prems"
      by (simp add: show_nat.simps [of b n] algebra_simps)
  qed
qed

text \<open>Reading back what was printed, whatever non-digit follows it.\<close>

lemma read_show:
  "2 \<le> b \<Longrightarrow> b \<le> 36 \<Longrightarrow> rest = [] \<or> \<not> base_digit b (hd rest) \<Longrightarrow>
   read_digits b acc (show_nat b n @ rest) = acc * b ^ length (show_nat b n) + n"
  by (simp add: read_digits_append show_nat_all_digits read_show_nat read_digits_stop)

text \<open>
  \<open>strtoul(s, NULL, 16)\<close>: leading white space, an optional sign, an optional \<open>0x\<close> that is taken
  only when a hexadecimal digit follows, then the longest run of digits. The value saturates at
  \<open>ULONG_MAX\<close>; a minus sign negates modulo \<open>2 ^ 64\<close>. No digits give 0. \<open>strtoull\<close> is the same on
  this platform.
\<close>

definition strip_sign :: "string \<Rightarrow> bool \<times> string" where
  "strip_sign s = (case s of
       [] \<Rightarrow> (False, [])
     | c # cs \<Rightarrow> if c = CHR ''-'' then (True, cs) else if c = CHR ''+'' then (False, cs) else (False, s))"

definition strip_0x :: "string \<Rightarrow> string" where
  "strip_0x s = (case s of
       a # b # c # cs \<Rightarrow>
         if a = CHR ''0'' \<and> (b = CHR ''x'' \<or> b = CHR ''X'') \<and> base_digit 16 c then c # cs else s
     | _ \<Rightarrow> s)"

definition strtoul16 :: "string \<Rightarrow> u64" where
  "strtoul16 s =
     (let (neg, t) = strip_sign (dropWhile is_space s);
          v = read_digits 16 0 (strip_0x t)
      in if 2 ^ 64 \<le> v then - 1 else if neg then - of_nat v else of_nat v)"

text \<open>\<open>atoi\<close> is \<open>strtol\<close> in base 10, saturating at 64 bits, truncated to a 32-bit \<open>int\<close>.\<close>

definition atoi :: "string \<Rightarrow> int" where
  "atoi s =
     (let (neg, t) = strip_sign (dropWhile is_space s);
          v = int (read_digits 10 0 t);
          l = (if neg then max (- (2 ^ 63)) (- v) else min (2 ^ 63 - 1) v)
      in sint (word_of_int l :: u32))"

lemma base_digit_not_sign:
  "b \<le> 36 \<Longrightarrow> base_digit b c \<Longrightarrow> c \<noteq> CHR ''-'' \<and> c \<noteq> CHR ''+'' \<and> \<not> is_space c"
  by (auto simp: base_digit_def digit_val_def is_space_def Let_def split: option.splits if_splits)

lemma show_nat_no_sign:
  assumes "2 \<le> b" "b \<le> 36"
  shows "dropWhile is_space (show_nat b n) = show_nat b n" and
    "strip_sign (show_nat b n) = (False, show_nat b n)"
proof -
  obtain c cs where c: "show_nat b n = c # cs" by (cases "show_nat b n") auto
  then have "base_digit b c" using assms show_nat_digits [of b c n] by simp
  then have "c \<noteq> CHR ''-''" "c \<noteq> CHR ''+''" "\<not> is_space c"
    using assms base_digit_not_sign by blast+
  then show "dropWhile is_space (show_nat b n) = show_nat b n"
    "strip_sign (show_nat b n) = (False, show_nat b n)"
    by (simp_all add: c strip_sign_def)
qed

lemma strip_0x_digits:
  assumes "\<And>c. c \<in> set s \<Longrightarrow> base_digit 16 c"
  shows "strip_0x s = s"
proof -
  have "\<not> base_digit 16 CHR ''x''" "\<not> base_digit 16 CHR ''X''"
    by (simp_all add: base_digit_def digit_val_def)
  with assms show ?thesis by (fastforce simp: strip_0x_def split: list.splits)
qed

lemma strtoul16_show: "n < 2 ^ 64 \<Longrightarrow> strtoul16 (show_nat 16 n) = of_nat n"
  using read_show [of 16 "[]" 0 n]
  by (simp add: strtoul16_def show_nat_no_sign strip_0x_digits show_nat_digits)

lemma strtoul16_show_0x: "n < 2 ^ 64 \<Longrightarrow> strtoul16 (''0x'' @ show_nat 16 n) = of_nat n"
proof -
  assume n: "n < 2 ^ 64"
  obtain c cs where c: "show_nat 16 n = c # cs" by (cases "show_nat 16 n") auto
  then have "base_digit 16 c" using show_nat_digits [of 16 c n] by simp
  then have "strip_0x (''0x'' @ show_nat 16 n) = show_nat 16 n" by (simp add: c strip_0x_def)
  moreover have "dropWhile is_space (''0x'' @ show_nat 16 n) = ''0x'' @ show_nat 16 n"
    by (simp add: is_space_def)
  moreover have "strip_sign (''0x'' @ show_nat 16 n) = (False, ''0x'' @ show_nat 16 n)"
    by (simp add: strip_sign_def)
  ultimately show ?thesis using n read_show [of 16 "[]" 0 n] by (simp add: strtoul16_def)
qed

lemma atoi_show:
  assumes "n < 2 ^ 31"
  shows "atoi (show_nat 10 n) = int n"
proof -
  have "read_digits 10 0 (show_nat 10 n) = n" using read_show [of 10 "[]" 0 n] by simp
  moreover have "signed_take_bit 31 (int n) = int n"
    using assms by (intro signed_take_bit_int_eq_self) simp_all
  ultimately show ?thesis using assms
    by (simp add: atoi_def show_nat_no_sign sint_sbintrunc' min_def)
qed

subsection \<open>Words of a line\<close>

text \<open>\<open>while (ss >> temp) cmd_table.push_back(temp)\<close> on an \<open>istringstream\<close> of the line.\<close>

function words_of :: "string \<Rightarrow> string list" where
  "words_of s =
     (let t = dropWhile is_space s in
      if t = [] then []
      else takeWhile (\<lambda>c. \<not> is_space c) t # words_of (dropWhile (\<lambda>c. \<not> is_space c) t))"
  by pat_completeness auto
termination
proof (relation "measure length", goal_cases)
  case 1
  show ?case by simp
next
  case (2 s t)
  from 2 have "t \<noteq> []" "\<not> is_space (hd t)"
    using hd_dropWhile [of is_space s] by auto
  then have "length (dropWhile (\<lambda>c. \<not> is_space c) t) < length t"
    by (rule length_dropWhile_lt)
  also have "\<dots> \<le> length s" using 2 by (simp add: length_dropWhile_le)
  finally show ?case by simp
qed

declare words_of.simps [simp del]

definition word_ok :: "string \<Rightarrow> bool" where
  "word_ok w \<longleftrightarrow> w \<noteq> [] \<and> list_all (\<lambda>c. \<not> is_space c) w"

lemma words_of_blank: "list_all is_space s \<Longrightarrow> words_of s = []"
  by (subst words_of.simps) (simp add: list_all_iff Let_def)

lemma words_of_word:
  assumes w: "word_ok w" and r: "rest = [] \<or> is_space (hd rest)"
  shows "words_of (w @ rest) = w # words_of rest"
proof -
  from w obtain c cs where c: "w = c # cs" "\<not> is_space c" by (cases w) (auto simp: word_ok_def)
  then have d: "dropWhile is_space (w @ rest) = w @ rest" by simp
  have n: "\<And>x. x \<in> set w \<Longrightarrow> \<not> is_space x" using w by (simp add: word_ok_def list_all_iff)
  have "takeWhile (\<lambda>c. \<not> is_space c) (w @ rest) = w"
    using r by (intro takeWhile_append_stop) (auto dest: n)
  moreover have "dropWhile (\<lambda>c. \<not> is_space c) (w @ rest) = rest"
    using r by (intro dropWhile_append_stop) (auto dest: n)
  ultimately show ?thesis using d c by (subst words_of.simps) (simp add: Let_def)
qed

lemma words_of_skip: "is_space c \<Longrightarrow> words_of (c # s) = words_of s"
  by (subst (1 2) words_of.simps) simp

lemma words_of_rec:
  "dropWhile is_space s = t \<Longrightarrow> t \<noteq> [] \<Longrightarrow>
   words_of s = takeWhile (\<lambda>c. \<not> is_space c) t # words_of (dropWhile (\<lambda>c. \<not> is_space c) t)"
  by (subst words_of.simps) (simp only: Let_def if_False)

fun join :: "string list \<Rightarrow> string" where
  "join [] = []"
| "join [w] = w"
| "join (w # ws) = w @ CHR '' '' # join ws"

lemma words_of_join: "list_all word_ok ws \<Longrightarrow> words_of (join ws) = ws"
proof (induction ws rule: join.induct)
  case 1
  show ?case by (simp add: words_of_blank)
next
  case (2 w)
  then show ?case using words_of_word [of w "[]"] by (simp add: words_of_blank)
next
  case (3 w v vs)
  have "is_space CHR '' ''" by (simp add: is_space_def)
  with 3 show ?case by (simp add: words_of_word words_of_skip)
qed

lemma words_of_ok: "w \<in> set (words_of s) \<Longrightarrow> word_ok w"
proof (induction s rule: words_of.induct)
  case (1 s)
  define t where "t = dropWhile is_space s"
  show ?case
  proof (cases "t = []")
    case True
    then have "words_of s = []" by (subst words_of.simps) (simp add: t_def Let_def)
    with "1.prems" show ?thesis by simp
  next
    case False
    have hd: "\<not> is_space (hd t)" using False hd_dropWhile [of is_space s] by (simp add: t_def)
    from "1.prems" words_of_rec [OF t_def [symmetric] False]
    have "w = takeWhile (\<lambda>c. \<not> is_space c) t \<or>
        w \<in> set (words_of (dropWhile (\<lambda>c. \<not> is_space c) t))" by simp
    then show ?thesis
    proof
      assume "w = takeWhile (\<lambda>c. \<not> is_space c) t"
      with False hd show ?thesis
        by (cases t) (auto simp: word_ok_def list_all_iff dest: set_takeWhileD)
    qed (use "1.IH" False in \<open>simp add: t_def\<close>)
  qed
qed

subsection \<open>\<open>strtok\<close>\<close>

text \<open>
  One call on the text after the last token: the token, if there is one, and the text after the
  delimiter that ended it (that delimiter is overwritten by a NUL, so it is gone).
\<close>

definition strtok :: "string \<Rightarrow> string \<Rightarrow> string option \<times> string" where
  "strtok delims s =
     (let t = dropWhile (\<lambda>c. c \<in> set delims) s in
      if t = [] then (None, [])
      else (Some (takeWhile (\<lambda>c. c \<notin> set delims) t),
            drop 1 (dropWhile (\<lambda>c. c \<notin> set delims) t)))"

lemma strtok_token:
  assumes "w \<noteq> []" "\<And>c. c \<in> set w \<Longrightarrow> c \<notin> set delims" "d \<in> set delims"
  shows "strtok delims (w @ d # rest) = (Some w, rest)"
proof -
  from assms(1) have "dropWhile (\<lambda>c. c \<in> set delims) (w @ d # rest) = w @ d # rest"
    using assms(2) by (cases w) auto
  moreover have "takeWhile (\<lambda>c. c \<notin> set delims) (w @ d # rest) = w"
    using assms(2,3) by (intro takeWhile_append_stop) auto
  moreover have "dropWhile (\<lambda>c. c \<notin> set delims) (w @ d # rest) = d # rest"
    using assms(2,3) by (intro dropWhile_append_stop) auto
  ultimately show ?thesis by (simp add: strtok_def)
qed

lemma strtok_last:
  assumes "w \<noteq> []" "\<And>c. c \<in> set w \<Longrightarrow> c \<notin> set delims"
  shows "strtok delims w = (Some w, [])"
proof -
  from assms(1) have d: "dropWhile (\<lambda>c. c \<in> set delims) w = w"
    using assms(2) by (cases w) auto
  have t: "takeWhile (\<lambda>c. c \<notin> set delims) w = w" and r: "dropWhile (\<lambda>c. c \<notin> set delims) w = []"
    using assms(2) by auto
  show ?thesis by (simp only: strtok_def Let_def d t r) (simp add: assms(1))
qed

lemma strtok_skip: "d \<in> set delims \<Longrightarrow> strtok delims (d # s) = strtok delims s"
  by (simp add: strtok_def)

subsection \<open>\<open>std::string::find\<close> and lines\<close>

fun find_sub :: "string \<Rightarrow> string \<Rightarrow> nat option" where
  "find_sub p s =
     (if prefix p s then Some 0
      else (case s of [] \<Rightarrow> None | _ # t \<Rightarrow> map_option Suc (find_sub p t)))"

declare find_sub.simps [simp del]

lemma find_sub_Some:
  "find_sub p s = Some n \<Longrightarrow> prefix p (drop n s)"
proof (induction p s arbitrary: n rule: find_sub.induct)
  case (1 p s)
  then show ?case
    by (subst (asm) (2) find_sub.simps) (auto split: if_splits list.splits)
qed

lemma find_sub_iff: "find_sub p s \<noteq> None \<longleftrightarrow> sublist p s"
proof (induction s)
  case Nil
  show ?case by (simp add: find_sub.simps [of p "[]"])
next
  case (Cons c s)
  then show ?case
    by (cases "prefix p (c # s)") (auto simp: find_sub.simps [of p "c # s"] sublist_Cons_right)
qed

text \<open>The lines of a file as \<open>getline\<close> hands them out, each with its newline when it has one.\<close>

function file_lines :: "string \<Rightarrow> string list" where
  "file_lines s =
     (if s = [] then []
      else let l = takeWhile (\<lambda>c. c \<noteq> newline) s; r = dropWhile (\<lambda>c. c \<noteq> newline) s
           in (case r of [] \<Rightarrow> [l] | c # t \<Rightarrow> (l @ [c]) # file_lines t))"
  by pat_completeness auto
termination
proof (relation "measure length", goal_cases)
  case 1
  show ?case by simp
next
  case (2 s l r c t)
  have "length (c # t) \<le> length s" using 2(3,4) by (metis length_dropWhile_le)
  then show ?case by simp
qed

declare file_lines.simps [simp del]

lemma concat_file_lines: "concat (file_lines s) = s"
proof (induction s rule: file_lines.induct)
  case (1 s)
  show ?case
  proof (cases "s = []")
    case True
    then show ?thesis by (simp add: file_lines.simps)
  next
    case False
    have s: "s = takeWhile (\<lambda>c. c \<noteq> newline) s @ dropWhile (\<lambda>c. c \<noteq> newline) s" by simp
    show ?thesis
    proof (cases "dropWhile (\<lambda>c. c \<noteq> newline) s")
      case Nil
      then have "takeWhile (\<lambda>c. c \<noteq> newline) s = s" using s by simp
      with Nil False show ?thesis
        by (simp only: file_lines.simps [of s] Let_def list.case if_False concat.simps append_Nil2)
    next
      case (Cons c t)
      then have "concat (file_lines t) = t" using "1.IH" False by simp
      then show ?thesis using False Cons s by (simp add: file_lines.simps [of s])
    qed
  qed
qed

end
