(* ===== verification/Ostream.thy ===== *)
theory Ostream
  imports Ctext
begin

text \<open>
  C++ output streams as the debugger and the lister use them: the text written so far and the
  formatting flags that stay in force from one insertion to the next (number base, fill
  character, adjustment). The field width applies to one insertion only, so it is an argument.
  Lemmas: every insertion appends, keeps the flags, and pads to exactly the width.
\<close>

record ostream =
  os_hex :: bool
  os_fill :: char
  os_right :: bool
  os_text :: string

definition fresh_stream :: ostream where
  "fresh_stream = \<lparr>os_hex = False, os_fill = CHR '' '', os_right = True, os_text = []\<rparr>"

definition pad :: "ostream \<Rightarrow> nat \<Rightarrow> string \<Rightarrow> string" where
  "pad os w s =
     (let p = replicate (w - length s) (os_fill os) in if os_right os then p @ s else s @ p)"

text \<open>\<open>os << setw(w) << s\<close>, \<open>os << s\<close>, and numbers in the base in force.\<close>

definition put_w :: "nat \<Rightarrow> string \<Rightarrow> ostream \<Rightarrow> ostream" where
  "put_w w s os = os\<lparr>os_text := os_text os @ pad os w s\<rparr>"

definition put :: "string \<Rightarrow> ostream \<Rightarrow> ostream" where
  "put s = put_w 0 s"

definition base_of :: "ostream \<Rightarrow> nat" where
  "base_of os = (if os_hex os then 16 else 10)"

definition put_num_w :: "nat \<Rightarrow> nat \<Rightarrow> ostream \<Rightarrow> ostream" where
  "put_num_w w n os = put_w w (show_nat (base_of os) n) os"

definition put_num :: "nat \<Rightarrow> ostream \<Rightarrow> ostream" where
  "put_num n = put_num_w 0 n"

text \<open>A signed \<open>int\<close>: decimal with a sign, hexadecimal as its 32-bit pattern.\<close>

definition show_int :: "ostream \<Rightarrow> int \<Rightarrow> string" where
  "show_int os v =
     (if os_hex os then show_nat 16 (nat (v mod 2 ^ 32))
      else if v < 0 then CHR ''-'' # show_nat 10 (nat (- v))
      else show_nat 10 (nat v))"

definition put_int :: "int \<Rightarrow> ostream \<Rightarrow> ostream" where
  "put_int v os = put_w 0 (show_int os v) os"

text \<open>The manipulators.\<close>

definition set_hex :: "ostream \<Rightarrow> ostream" where "set_hex os = os\<lparr>os_hex := True\<rparr>"
definition set_dec :: "ostream \<Rightarrow> ostream" where "set_dec os = os\<lparr>os_hex := False\<rparr>"
definition set_left :: "ostream \<Rightarrow> ostream" where "set_left os = os\<lparr>os_right := False\<rparr>"
definition set_right :: "ostream \<Rightarrow> ostream" where "set_right os = os\<lparr>os_right := True\<rparr>"
definition set_fill :: "char \<Rightarrow> ostream \<Rightarrow> ostream" where "set_fill c os = os\<lparr>os_fill := c\<rparr>"

text \<open>A chain of insertions, first to last as the source writes them.\<close>

abbreviation chain :: "(ostream \<Rightarrow> ostream) list \<Rightarrow> ostream \<Rightarrow> ostream" where
  "chain fs os \<equiv> fold (\<lambda>f s. f s) fs os"

lemmas ostream_defs = put_w_def put_def put_num_w_def put_num_def put_int_def base_of_def
  set_hex_def set_dec_def set_left_def set_right_def set_fill_def

lemma length_pad: "length (pad os w s) = max w (length s)"
  by (auto simp: pad_def Let_def max_def)

lemma pad_0 [simp]: "pad os 0 s = s"
  by (simp add: pad_def)

text \<open>What an insertion leaves in force.\<close>

lemma put_flags [simp]:
  "os_hex (put_w w s os) = os_hex os" "os_fill (put_w w s os) = os_fill os" "os_right (put_w w s os) = os_right os"
  "os_hex (put s os) = os_hex os" "os_fill (put s os) = os_fill os" "os_right (put s os) = os_right os"
  "os_hex (put_num_w w n os) = os_hex os" "os_fill (put_num_w w n os) = os_fill os"
  "os_right (put_num_w w n os) = os_right os"
  "os_hex (put_num n os) = os_hex os" "os_fill (put_num n os) = os_fill os" "os_right (put_num n os) = os_right os"
  "os_hex (put_int v os) = os_hex os" "os_fill (put_int v os) = os_fill os" "os_right (put_int v os) = os_right os"
  by (simp_all add: ostream_defs)

lemma set_flags [simp]:
  "os_fill (set_hex os) = os_fill os" "os_fill (set_dec os) = os_fill os" "os_fill (set_left os) = os_fill os"
  "os_fill (set_right os) = os_fill os" "os_fill (set_fill c os) = c"
  "os_hex (set_hex os)" "\<not> os_hex (set_dec os)" "os_hex (set_left os) = os_hex os"
  "os_hex (set_right os) = os_hex os" "os_hex (set_fill c os) = os_hex os"
  "os_right (set_hex os) = os_right os" "os_right (set_dec os) = os_right os" "\<not> os_right (set_left os)"
  "os_right (set_right os)" "os_right (set_fill c os) = os_right os"
  by (simp_all add: ostream_defs)

text \<open>What an insertion writes.\<close>

lemma put_text [simp]:
  "os_text (put_w w s os) = os_text os @ pad os w s"
  "os_text (put s os) = os_text os @ s"
  "os_text (put_num_w w n os) = os_text os @ pad os w (show_nat (base_of os) n)"
  "os_text (put_num n os) = os_text os @ show_nat (base_of os) n"
  "os_text (put_int v os) = os_text os @ show_int os v"
  by (simp_all add: ostream_defs)

lemma set_text [simp]:
  "os_text (set_hex os) = os_text os" "os_text (set_dec os) = os_text os" "os_text (set_left os) = os_text os"
  "os_text (set_right os) = os_text os" "os_text (set_fill c os) = os_text os"
  by (simp_all add: ostream_defs)

lemma base_of_flags: "os_hex os \<Longrightarrow> base_of os = 16" "\<not> os_hex os \<Longrightarrow> base_of os = 10"
  by (simp_all add: base_of_def)

lemma show_int_nat: "show_int os (int n) = show_nat (base_of os) (if os_hex os then n mod 2 ^ 32 else n)"
  by (simp add: show_int_def base_of_def nat_mod_distrib nat_power_eq)

text \<open>The ways two stream descriptions are told apart.\<close>

lemma ostream_eqI:
  "os_hex a = os_hex b \<Longrightarrow> os_fill a = os_fill b \<Longrightarrow> os_right a = os_right b \<Longrightarrow> os_text a = os_text b \<Longrightarrow>
   a = (b :: ostream)"
  by simp

end
