(* ===== verification/Kernel.thy ===== *)
theory Kernel
  imports Ctext
begin

text \<open>
  The world outside the debugger: the traced process as \<open>ptrace\<close> shows it (registers and byte
  memory), the record of system and library calls the debugger makes, and the locale that states
  what \<open>ptrace(2)\<close> documents of them. The kernel, the CPU and the Capstone disassembler are
  parameters; \<open>machine_kernel\<close>, over a byte memory and any CPU function, is a model of the laws.
\<close>

subsection \<open>Registers and memory of a stopped process\<close>

text \<open>\<open>struct user_regs_struct\<close> (\<open>sys/user.h\<close>): the fields the debugger names and the rest.\<close>

record user_regs =
  rax :: u64
  rbx :: u64
  rcx :: u64
  rdx :: u64
  r8 :: u64
  r9 :: u64
  r10 :: u64
  r11 :: u64
  r12 :: u64
  r13 :: u64
  r14 :: u64
  r15 :: u64
  rdi :: u64
  rsi :: u64
  rbp :: u64
  rsp :: u64
  rip :: u64
  eflags :: u64
  other_regs :: "u64 list"

type_synonym memory = "u64 \<Rightarrow> u8 option"

record tracee =
  mem :: memory
  regs :: user_regs

definition readable :: "memory \<Rightarrow> u64 \<Rightarrow> bool" where
  "readable m a \<longleftrightarrow> list_all (\<lambda>i. m (a + of_nat i) \<noteq> None) [0..<8]"

text \<open>The word at an address, byte by byte, and the memory after a word is written.\<close>

definition holds_word :: "memory \<Rightarrow> u64 \<Rightarrow> u64 \<Rightarrow> bool" where
  "holds_word m a v \<longleftrightarrow> list_all (\<lambda>i. m (a + of_nat i) = Some (byte_of v i)) [0..<8]"

definition poke_mem :: "memory \<Rightarrow> u64 \<Rightarrow> u64 \<Rightarrow> memory" where
  "poke_mem m a v = (\<lambda>x. if unat (x - a) < 8 then Some (byte_of v (unat (x - a))) else m x)"

definition peek_mem :: "memory \<Rightarrow> u64 \<Rightarrow> u64 option" where
  "peek_mem m a =
     (if readable m a then Some (of_nat (le_val (map (\<lambda>i. the (m (a + of_nat i))) [0..<8]))) else None)"

lemma holds_word_iff: "holds_word m a v \<longleftrightarrow> (\<forall>i<8. m (a + of_nat i) = Some (byte_of v i))"
  by (auto simp: holds_word_def list_all_iff)

lemma readable_iff: "readable m a \<longleftrightarrow> (\<forall>i<8. m (a + of_nat i) \<noteq> None)"
  by (auto simp: readable_def list_all_iff)

lemma holds_word_first: "holds_word m a v \<Longrightarrow> m a = Some (byte_of v 0)"
  by (drule holds_word_iff [THEN iffD1], drule spec [of _ 0]) simp

lemma holds_word_readable: "holds_word m a v \<Longrightarrow> readable m a"
  by (simp add: holds_word_iff readable_iff)

lemma holds_word_unique: "holds_word m a v \<Longrightarrow> holds_word m a w \<Longrightarrow> v = w"
  by (rule word_eq_bytes) (simp add: holds_word_iff)

lemma unat_offset: "i < 8 \<Longrightarrow> unat (a + of_nat i - a :: u64) = i"
  by (simp add: unat_of_nat)

lemma poke_mem_at [byte_simps]: "i < 8 \<Longrightarrow> poke_mem m a v (a + of_nat i) = Some (byte_of v i)"
  by (simp add: poke_mem_def unat_of_nat)

lemma poke_mem_other: "8 \<le> unat (x - a) \<Longrightarrow> poke_mem m a v x = m x"
  by (simp add: poke_mem_def)

lemma in_word_iff: "unat (x - a) < 8 \<longleftrightarrow> (\<exists>i<8. x = a + of_nat i)" for x a :: u64
proof
  assume "unat (x - a) < 8"
  moreover have "x = a + of_nat (unat (x - a))" by simp
  ultimately show "\<exists>i<8. x = a + of_nat i" by blast
qed (auto simp: unat_of_nat)

lemma holds_word_poke: "holds_word (poke_mem m a v) a v"
  by (simp add: holds_word_iff poke_mem_at)

lemma poke_mem_same: "holds_word m a v \<Longrightarrow> poke_mem m a v = m"
  by (auto simp: fun_eq_iff poke_mem_def holds_word_iff in_word_iff unat_of_nat)

lemma poke_mem_twice: "poke_mem (poke_mem m a v) a w = poke_mem m a w"
  by (auto simp: fun_eq_iff poke_mem_def)

lemma poke_mem_restore: "holds_word m a v \<Longrightarrow> poke_mem (poke_mem m a w) a v = m"
  by (simp add: poke_mem_twice poke_mem_same)

lemma readable_poke: "readable (poke_mem m b v) a \<longleftrightarrow> (\<forall>i<8. unat (a + of_nat i - b) < 8 \<or> m (a + of_nat i) \<noteq> None)"
  by (auto simp: readable_iff poke_mem_def)

text \<open>Writing a word whose low byte is replaced changes one byte of memory.\<close>

lemma poke_low_byte: "holds_word m a v \<Longrightarrow> poke_mem m a (set_low_byte v (ucast b)) = m(a \<mapsto> b)"
proof
  fix x assume h: "holds_word m a v"
  show "poke_mem m a (set_low_byte v (ucast b)) x = (m(a \<mapsto> b)) x"
  proof (cases "unat (x - a) < 8")
    case True
    then obtain i where i: "i < 8" "x = a + of_nat i" by (auto simp: in_word_iff)
    with h have "m x = Some (byte_of v i)" by (simp add: holds_word_iff)
    moreover have "x = a \<longleftrightarrow> i = 0" using i unat_offset [of i a] by auto
    ultimately show ?thesis using i by (simp add: poke_mem_at byte_of_set_low_ucast)
  next
    case False
    then have "x \<noteq> a" by auto
    with False show ?thesis by (simp add: poke_mem_other)
  qed
qed

lemma poke_int3: "holds_word m a v \<Longrightarrow> poke_mem m a (set_low_byte v 0xcc) = m(a \<mapsto> 0xcc)"
proof -
  have "(0xcc :: u64) = ucast (0xcc :: u8)" by simp
  then show "holds_word m a v \<Longrightarrow> ?thesis" using poke_low_byte [of m a v "0xcc"] by (simp only:)
qed

lemma le_val_nth: "i < length bs \<Longrightarrow> le_val bs div 256 ^ i mod 256 = unat (bs ! i)"
proof (induction bs arbitrary: i)
  case Nil
  then show ?case by simp
next
  case (Cons b bs)
  have b: "unat b < 256" by (rule u8_lt)
  show ?case
  proof (cases i)
    case 0
    with b show ?thesis by simp
  next
    case (Suc j)
    have "(unat b + 256 * le_val bs) div 256 = le_val bs" using b by simp
    with Suc Cons show ?thesis by (simp add: div_mult2_eq)
  qed
qed

lemma byte_of_unat: "i < 8 \<Longrightarrow> unat (byte_of w i) = unat w div 256 ^ i mod 256"
proof -
  have "(256 :: nat) ^ i = 2 ^ (8 * i)" by (simp add: power_mult)
  moreover have "unat (byte_of w i) = take_bit 8 (drop_bit (8 * i) (unat w))"
    by (simp add: byte_of_def unsigned_ucast_eq unat_drop_bit_eq)
  ultimately show ?thesis by (simp add: drop_bit_eq_div take_bit_eq_mod)
qed

lemma byte_of_le_val:
  assumes "length bs = 8" "i < 8"
  shows "byte_of (of_nat (le_val bs)) i = bs ! i"
proof -
  have "le_val bs < 2 ^ 64" using le_val_bound [of bs] assms(1) by simp
  then have "unat (of_nat (le_val bs) :: u64) = le_val bs" by (simp add: unat_of_nat)
  with assms have "unat (byte_of (of_nat (le_val bs)) i) = unat (bs ! i)"
    by (simp add: byte_of_unat le_val_nth)
  then show ?thesis by (simp add: word_unat_eq_iff)
qed

lemma peek_mem_holds:
  assumes "holds_word m a v"
  shows "peek_mem m a = Some v"
proof -
  let ?bs = "map (\<lambda>i. the (m (a + of_nat i))) [0..<8]"
  have "of_nat (le_val ?bs) = v"
    using assms by (intro word_eq_bytes) (simp add: byte_of_le_val holds_word_iff)
  then show ?thesis using holds_word_readable [OF assms] by (simp add: peek_mem_def)
qed

lemma readable_holds: "readable m a \<Longrightarrow> \<exists>v. holds_word m a v"
proof -
  assume r: "readable m a"
  let ?v = "of_nat (le_val (map (\<lambda>i. the (m (a + of_nat i))) [0..<8])) :: u64"
  have "byte_of ?v i = the (m (a + of_nat i))" if "i < 8" for i
    using that by (simp add: byte_of_le_val)
  with r show ?thesis by (intro exI [of _ ?v]) (auto simp: holds_word_iff readable_iff)
qed

subsection \<open>The calls the debugger makes\<close>

text \<open>
  One field per call. A failing call gives \<open>Inl errno\<close>. \<open>k_peek\<close> is \<open>PTRACE_PEEKTEXT\<close>, whose
  failure is the value \<open>-1\<close> and is not checked by the source. \<open>k_fork_exec\<close> is \<open>fork\<close> followed, in the
  child, by \<open>PTRACE_TRACEME\<close> and \<open>execvp\<close>; \<open>k_cs_disasm\<close> is Capstone's \<open>cs_disasm\<close>: the bytes that
  exist from the code pointer on, the length the caller claims, the address, and the number of
  instructions asked for, where \<open>None\<close> is a decoding that reads beyond the bytes that exist; \<open>k_open\<close> is
  a file opened for reading, with its contents. \<open>k_waitpid\<close> is \<open>None\<close> when the process never changes its
  state again, so that the call does not return. \<open>k_line_ready\<close> says what two uninitialised locals of
  \<open>vmmap\<close> hold.
\<close>

record insn =
  i_address :: u64
  i_bytes :: "u8 list"
  i_mnemonic :: string
  i_op_str :: string

record 'w kernel =
  k_peek :: "'w \<Rightarrow> int \<Rightarrow> u64 \<Rightarrow> u64"
  k_poke :: "'w \<Rightarrow> int \<Rightarrow> u64 \<Rightarrow> u64 \<Rightarrow> int + 'w"
  k_getregs :: "'w \<Rightarrow> int \<Rightarrow> int + user_regs"
  k_setregs :: "'w \<Rightarrow> int \<Rightarrow> user_regs \<Rightarrow> int + 'w"
  k_cont :: "'w \<Rightarrow> int \<Rightarrow> int + 'w"
  k_step :: "'w \<Rightarrow> int \<Rightarrow> int + 'w"
  k_setoptions :: "'w \<Rightarrow> int \<Rightarrow> int + 'w"
  k_waitpid :: "'w \<Rightarrow> int \<Rightarrow> (int + (u32 \<times> 'w)) option"
  k_fork_exec :: "'w \<Rightarrow> string \<Rightarrow> int + (int \<times> 'w)"
  k_kill :: "'w \<Rightarrow> int \<Rightarrow> 'w"
  k_open :: "'w \<Rightarrow> string \<Rightarrow> int + u8 list"
  k_line_ready :: "'w \<Rightarrow> bool"
  k_strerror :: "int \<Rightarrow> string"
  k_cs_open :: "'w \<Rightarrow> int option"
  k_cs_disasm :: "u8 list \<Rightarrow> int \<Rightarrow> u64 \<Rightarrow> nat \<Rightarrow> insn list option"

text \<open>
  What \<open>ptrace(2)\<close> documents, over a view of the stopped tracee with a process id: a peek returns
  the word at the address; a poke of a readable word succeeds and writes that word and nothing
  else; registers are read as they are, and a write of them that leaves the flags alone succeeds
  and is read back (the kernel may mask flag bits, so nothing is promised of a write to them);
  resuming a stopped tracee succeeds.
\<close>

locale ptrace_kernel =
  fixes K :: "'w kernel"
    and view :: "'w \<Rightarrow> int \<Rightarrow> tracee option"
  assumes peek: "view w p = Some t \<Longrightarrow> holds_word (mem t) a v \<Longrightarrow> k_peek K w p a = v"
    and poke: "view w p = Some t \<Longrightarrow> readable (mem t) a \<Longrightarrow>
      \<exists>w'. k_poke K w p a v = Inr w' \<and> view w' p = Some (t\<lparr>mem := poke_mem (mem t) a v\<rparr>)"
    and getregs: "view w p = Some t \<Longrightarrow> k_getregs K w p = Inr (regs t)"
    and setregs: "view w p = Some t \<Longrightarrow> eflags r = eflags (regs t) \<Longrightarrow>
      \<exists>w'. k_setregs K w p r = Inr w' \<and> view w' p = Some (t\<lparr>regs := r\<rparr>)"
    and cont: "view w p = Some t \<Longrightarrow> \<exists>w'. k_cont K w p = Inr w'"
    and step: "view w p = Some t \<Longrightarrow> \<exists>w'. k_step K w p = Inr w'"
begin

text \<open>Patching a breakpoint byte changes one byte; writing the word back undoes it.\<close>

lemma patch:
  assumes "view w p = Some t" "holds_word (mem t) a v"
  shows "\<exists>w'. k_poke K w p a (set_low_byte v 0xcc) = Inr w' \<and>
    view w' p = Some (t\<lparr>mem := (mem t)(a \<mapsto> 0xcc)\<rparr>)"
  using poke [OF assms(1) holds_word_readable [OF assms(2)], of "set_low_byte v 0xcc"] assms(2)
  by (simp add: poke_int3)

lemma readable_patched: "readable m a \<Longrightarrow> readable (m(b \<mapsto> c)) a"
  by (simp add: readable_iff)

lemma unpatch:
  assumes "view w p = Some t" "mem t = m(a \<mapsto> 0xcc)" "holds_word m a v"
  shows "\<exists>w'. k_poke K w p a v = Inr w' \<and> view w' p = Some (t\<lparr>mem := m\<rparr>)"
proof -
  have "readable (mem t) a"
    using assms(2) readable_patched [OF holds_word_readable [OF assms(3)]] by simp
  moreover have "poke_mem (mem t) a v = m"
    using assms(2,3) poke_int3 [OF assms(3)] poke_mem_restore [OF assms(3)] by metis
  ultimately show ?thesis using poke [OF assms(1), of a v] by simp
qed

end

text \<open>
  What printing an instruction relies on beside that: writing to a tracee does not change files,
  Capstone opens for x86-64, and an instruction it decodes is at most 15 bytes long (the limit of
  the architecture).
\<close>

locale debug_kernel = ptrace_kernel +
  assumes poke_files: "k_poke K w p a v = Inr w' \<Longrightarrow> k_open K w' = k_open K w"
    and setregs_files: "k_setregs K w p r = Inr w' \<Longrightarrow> k_open K w' = k_open K w"
    and cs_open: "k_cs_open K w = None"
    and cs_len: "k_cs_disasm K bs n a c = Some ins \<Longrightarrow> i \<in> set ins \<Longrightarrow> length (i_bytes i) \<le> 15"

subsection \<open>A machine that keeps the laws\<close>

text \<open>
  A machine holds the traced processes, the wait status of the last resume and a file system. The
  CPU is a function of the resumed process: what it becomes (\<open>None\<close> when it ends) and its status, where
  no status is a process that runs on and never stops.
\<close>

record machine =
  m_procs :: "int \<Rightarrow> tracee option"
  m_status :: "u32 option"
  m_files :: "string \<Rightarrow> u8 list option"
  m_images :: "string \<Rightarrow> tracee option"
  m_next_pid :: nat

type_synonym cpu = "bool \<Rightarrow> tracee \<Rightarrow> tracee option \<times> u32 option"

definition m_resume :: "cpu \<Rightarrow> bool \<Rightarrow> machine \<Rightarrow> int \<Rightarrow> int + machine" where
  "m_resume cpu single w p =
     (case m_procs w p of
        None \<Rightarrow> Inl 3
      | Some t \<Rightarrow> (case cpu single t of (t', st) \<Rightarrow>
          Inr (w\<lparr>m_procs := (m_procs w)(p := t'), m_status := st\<rparr>)))"

definition m_wait :: "machine \<Rightarrow> (int + (u32 \<times> machine)) option" where
  "m_wait w = map_option (\<lambda>st. Inr (st, w)) (m_status w)"

definition m_upd :: "machine \<Rightarrow> int \<Rightarrow> tracee \<Rightarrow> machine" where
  "m_upd w p t = w\<lparr>m_procs := (m_procs w)(p := Some t)\<rparr>"

definition m_peek :: "machine \<Rightarrow> int \<Rightarrow> u64 \<Rightarrow> u64" where
  "m_peek w p a =
     (case m_procs w p of
        None \<Rightarrow> - 1
      | Some t \<Rightarrow> (case peek_mem (mem t) a of None \<Rightarrow> - 1 | Some v \<Rightarrow> v))"

definition m_poke :: "machine \<Rightarrow> int \<Rightarrow> u64 \<Rightarrow> u64 \<Rightarrow> int + machine" where
  "m_poke w p a v =
     (case m_procs w p of
        None \<Rightarrow> Inl 3
      | Some t \<Rightarrow> if readable (mem t) a then Inr (m_upd w p (t\<lparr>mem := poke_mem (mem t) a v\<rparr>)) else Inl 5)"

definition machine_kernel ::
  "cpu \<Rightarrow> (u8 list \<Rightarrow> int \<Rightarrow> u64 \<Rightarrow> nat \<Rightarrow> insn list option) \<Rightarrow> machine kernel" where
  "machine_kernel cpu cs = \<lparr>
     k_peek = m_peek,
     k_poke = m_poke,
     k_getregs = (\<lambda>w p. case m_procs w p of None \<Rightarrow> Inl 3 | Some t \<Rightarrow> Inr (regs t)),
     k_setregs = (\<lambda>w p r. case m_procs w p of None \<Rightarrow> Inl 3 | Some t \<Rightarrow> Inr (m_upd w p (t\<lparr>regs := r\<rparr>))),
     k_cont = m_resume cpu False,
     k_step = m_resume cpu True,
     k_setoptions = (\<lambda>w p. case m_procs w p of None \<Rightarrow> Inl 3 | Some t \<Rightarrow> Inr w),
     k_waitpid = (\<lambda>w p. m_wait w),
     k_fork_exec = (\<lambda>w path. case m_images w path of
         None \<Rightarrow> Inl 11
       | Some t \<Rightarrow> Inr (int (Suc (m_next_pid w)),
           (m_upd w (int (Suc (m_next_pid w))) t)\<lparr>m_status := Some 0x57f, m_next_pid := Suc (m_next_pid w)\<rparr>)),
     k_kill = (\<lambda>w p. w\<lparr>m_procs := (m_procs w)(p := None)\<rparr>),
     k_open = (\<lambda>w path. case m_files w path of None \<Rightarrow> Inl 2 | Some f \<Rightarrow> Inr f),
     k_line_ready = (\<lambda>w. True),
     k_strerror = (\<lambda>e. show_nat 10 (nat e)),
     k_cs_open = (\<lambda>w. None),
     k_cs_disasm = (\<lambda>bs n a c. map_option (map (\<lambda>i. i\<lparr>i_bytes := take 15 (i_bytes i)\<rparr>)) (cs bs n a c))\<rparr>"

interpretation machine: ptrace_kernel "machine_kernel cpu cs" m_procs
proof (unfold_locales, goal_cases)
  case (1 w p t a v)
  then show ?case by (simp add: machine_kernel_def m_peek_def peek_mem_holds)
next
  case (2 w p t a v)
  then show ?case by (simp add: machine_kernel_def m_poke_def m_upd_def)
next
  case (3 w p t)
  then show ?case by (simp add: machine_kernel_def)
next
  case (4 w p t r)
  then show ?case by (simp add: machine_kernel_def m_upd_def)
next
  case (5 w p t)
  then show ?case by (simp add: machine_kernel_def m_resume_def split: prod.split)
next
  case (6 w p t)
  then show ?case by (simp add: machine_kernel_def m_resume_def split: prod.split)
qed

interpretation machine: debug_kernel "machine_kernel cpu cs" m_procs
proof (unfold_locales, goal_cases)
  case (1 w p a v w')
  then show ?case
    by (auto simp: machine_kernel_def m_poke_def m_upd_def split: option.splits if_splits)
next
  case (2 w p r w')
  then show ?case by (auto simp: machine_kernel_def m_upd_def split: option.splits)
next
  case (3 w)
  then show ?case by (simp add: machine_kernel_def)
next
  case (4 i bs n a c)
  then show ?case by (auto simp: machine_kernel_def)
qed

end
