(* ===== verification/Sdb_State.thy ===== *)
theory Sdb_State
  imports Ostream Kernel
begin

text \<open>
  The globals of \<open>project4/hw4.cpp\<close> and the types of \<open>project4/hw4.h\<close>: the debugger's state, the
  breakpoint and ELF records, the two output streams, \<open>error\<close>, \<open>intext\<close> and the status macros of
  \<open>sys/wait.h\<close> the debugger decodes a stop with.
\<close>

subsection \<open>Types and globals\<close>

datatype dstate = NONLOAD | LOADED | RUNNING

record bp_t =
  bp_id :: int
  bp_addr :: u64
  bp_orig :: u64

text \<open>
  The ELF headers are kept as the bytes read into them (\<open>elf\<close> is a zero-initialised global); the
  accessors below decode the fields of \<open>Elf64_Ehdr\<close> and \<open>Elf64_Shdr\<close> the debugger uses. \<open>str_tab\<close> is
  \<open>None\<close> for \<open>NULL\<close>, else the bytes of the block that were read from the file.
\<close>

record elf_t =
  ehdr :: "u8 list"
  str_shdr :: "u8 list"
  str_tab :: "u8 list option"
  text_shdr :: "u8 list"

definition hdr_size :: nat where
  "hdr_size = 64"

definition field :: "nat \<Rightarrow> nat \<Rightarrow> u8 list \<Rightarrow> nat" where
  "field off n bs = le_val (take n (drop off bs))"

abbreviation e_entry :: "u8 list \<Rightarrow> u64" where "e_entry h \<equiv> of_nat (field 24 8 h)"
abbreviation e_shoff :: "u8 list \<Rightarrow> u64" where "e_shoff h \<equiv> of_nat (field 40 8 h)"
abbreviation e_shnum :: "u8 list \<Rightarrow> nat" where "e_shnum h \<equiv> field 60 2 h"
abbreviation e_shstrndx :: "u8 list \<Rightarrow> nat" where "e_shstrndx h \<equiv> field 62 2 h"
abbreviation sh_name :: "u8 list \<Rightarrow> nat" where "sh_name h \<equiv> field 0 4 h"
abbreviation sh_addr :: "u8 list \<Rightarrow> u64" where "sh_addr h \<equiv> of_nat (field 16 8 h)"
abbreviation sh_offset :: "u8 list \<Rightarrow> u64" where "sh_offset h \<equiv> of_nat (field 24 8 h)"
abbreviation sh_size :: "u8 list \<Rightarrow> u64" where "sh_size h \<equiv> of_nat (field 32 8 h)"

record 'w sdb =
  d_state :: dstate
  d_path :: string
  d_pid :: int
  d_code :: "u8 list option"
  d_code_size :: int
  d_bps :: "bp_t list"
  d_elf :: elf_t
  d_out :: ostream
  d_err :: ostream
  d_w :: 'w

definition elf0 :: elf_t where
  "elf0 = \<lparr>ehdr = replicate hdr_size 0, str_shdr = replicate hdr_size 0, str_tab = None,
           text_shdr = replicate hdr_size 0\<rparr>"

definition sdb0 :: "'w \<Rightarrow> 'w sdb" where
  "sdb0 w = \<lparr>d_state = NONLOAD, d_path = [], d_pid = 0, d_code = None, d_code_size = 0, d_bps = [],
             d_elf = elf0, d_out = fresh_stream, d_err = fresh_stream, d_w = w\<rparr>"

subsection \<open>Output and \<open>error\<close>\<close>

definition say :: "(ostream \<Rightarrow> ostream) list \<Rightarrow> 'w sdb \<Rightarrow> 'w sdb" where
  "say fs s = s\<lparr>d_out := chain fs (d_out s)\<rparr>"

definition warn :: "(ostream \<Rightarrow> ostream) list \<Rightarrow> 'w sdb \<Rightarrow> 'w sdb" where
  "warn fs s = s\<lparr>d_err := chain fs (d_err s)\<rparr>"

definition line :: "string \<Rightarrow> ostream \<Rightarrow> ostream" where
  "line t = put (t @ [newline])"

definition error :: "'w kernel \<Rightarrow> string \<Rightarrow> int \<Rightarrow> 'w sdb \<Rightarrow> 'w sdb outcome" where
  "error K func error_num s =
     Exit (- 1) (say [put ''** FUNC ['', put func, put ''] ERROR:'', put (k_strerror K error_num)] s)"

lemma say_fields [simp]:
  "d_state (say fs s) = d_state s" "d_path (say fs s) = d_path s" "d_pid (say fs s) = d_pid s"
  "d_code (say fs s) = d_code s" "d_code_size (say fs s) = d_code_size s" "d_bps (say fs s) = d_bps s"
  "d_elf (say fs s) = d_elf s" "d_err (say fs s) = d_err s" "d_w (say fs s) = d_w s"
  by (simp_all add: say_def)

lemma warn_fields [simp]:
  "d_state (warn fs s) = d_state s" "d_path (warn fs s) = d_path s" "d_pid (warn fs s) = d_pid s"
  "d_code (warn fs s) = d_code s" "d_code_size (warn fs s) = d_code_size s" "d_bps (warn fs s) = d_bps s"
  "d_elf (warn fs s) = d_elf s" "d_out (warn fs s) = d_out s" "d_w (warn fs s) = d_w s"
  by (simp_all add: warn_def)

lemma say_out [simp]: "d_out (say fs s) = chain fs (d_out s)"
  by (simp add: say_def)

lemma warn_err [simp]: "d_err (warn fs s) = chain fs (d_err s)"
  by (simp add: warn_def)

lemma error_not_ok [simp]: "error K f e s \<noteq> Ok t" "Ok t \<noteq> error K f e s"
  by (simp_all add: error_def)

lemma line_flags [simp]:
  "os_hex (line t os) = os_hex os" "os_fill (line t os) = os_fill os" "os_right (line t os) = os_right os"
  "os_text (line t os) = os_text os @ t @ [newline]"
  by (simp_all add: line_def)

subsection \<open>The text section\<close>

definition intext :: "elf_t \<Rightarrow> u64 \<Rightarrow> bool" where
  "intext e addr \<longleftrightarrow> sh_addr (text_shdr e) \<le> addr \<and>
     addr \<le> sh_addr (text_shdr e) + sh_size (text_shdr e)"

subsection \<open>Wait statuses\<close>

text \<open>The macros of \<open>sys/wait.h\<close> on a 32-bit status.\<close>

definition WTERMSIG :: "u32 \<Rightarrow> u32" where "WTERMSIG status = status AND 0x7f"
definition WIFEXITED :: "u32 \<Rightarrow> bool" where "WIFEXITED status \<longleftrightarrow> WTERMSIG status = 0"

definition WIFSIGNALED :: "u32 \<Rightarrow> bool" where
  "WIFSIGNALED status \<longleftrightarrow> 0 < sint (signed_drop_bit 1 (ucast (WTERMSIG status + 1) :: u8))"

definition WIFSTOPPED :: "u32 \<Rightarrow> bool" where "WIFSTOPPED status \<longleftrightarrow> status AND 0xff = 0x7f"
definition WSTOPSIG :: "u32 \<Rightarrow> u32" where "WSTOPSIG status = drop_bit 8 (status AND 0xff00)"

definition SIGTRAP :: u32 where "SIGTRAP = 5"

text \<open>The statuses the kernel builds: exit code, terminating signal, stop signal.\<close>

definition exit_status :: "u8 \<Rightarrow> u32" where "exit_status c = push_bit 8 (ucast c)"
definition stop_status :: "u8 \<Rightarrow> u32" where "stop_status g = push_bit 8 (ucast g) OR 0x7f"

lemma WIFEXITED_not_WIFSIGNALED: "WIFEXITED status \<Longrightarrow> \<not> WIFSIGNALED status"
  by (simp add: WIFEXITED_def WIFSIGNALED_def)

lemma mask7: "(0x7f :: u32) = mask 7" by (simp add: mask_eq_exp_minus_1)
lemma mask8: "(0xff :: u32) = mask 8" by (simp add: mask_eq_exp_minus_1)

lemma WIFSTOPPED_not_WIFEXITED: "WIFSTOPPED status \<Longrightarrow> \<not> WIFEXITED status"
proof
  assume a: "WIFSTOPPED status" and e: "WIFEXITED status"
  have "status AND 0x7f = (status AND 0xff) AND 0x7f" by (simp add: and.assoc)
  with a e show False by (simp add: WIFSTOPPED_def WIFEXITED_def WTERMSIG_def)
qed

lemma exit_status_exited: "WIFEXITED (exit_status c)"
  unfolding WIFEXITED_def WTERMSIG_def exit_status_def mask7
  by (rule bit_word_eqI) (auto simp: bit_and_iff bit_mask_iff bit_push_bit_iff)

lemma stop_status_stopped: "WIFSTOPPED (stop_status g)"
proof -
  have "(push_bit 8 (ucast g) OR 0x7f) AND 0xff = (0x7f :: u32)"
    unfolding mask7 mask8
    by (rule bit_word_eqI) (auto simp: bit_and_iff bit_or_iff bit_mask_iff bit_push_bit_iff)
  then show ?thesis by (simp add: WIFSTOPPED_def stop_status_def)
qed

lemma stop_status_sig: "WSTOPSIG (stop_status g) = ucast g"
proof -
  have m: "(0xff00 :: u32) = push_bit 8 (mask 8)" by (simp add: mask_eq_exp_minus_1 push_bit_eq_mult)
  show ?thesis
    unfolding WSTOPSIG_def stop_status_def mask7 m
    by (rule bit_word_eqI)
      (auto simp: bit_and_iff bit_or_iff bit_mask_iff bit_push_bit_iff bit_drop_bit_eq bit_ucast_iff
        dest: bit_imp_le_length)
qed

end
