(* ===== verification/Sdb_Show.thy ===== *)
theory Sdb_Show
  imports Sdb_State
begin

text \<open>
  The commands of \<open>project4/hw4.cpp\<close> that look at the tracee and print: the byte printers,
  \<open>getcode\<close> and \<open>disasm\<close>, \<open>dump\<close>, \<open>get\<close>, \<open>set\<close>, \<open>getregs\<close>, \<open>list\<close>, \<open>vmmap\<close> and \<open>help\<close>. Lemmas: what
  each leaves unchanged, the reference form of a memory dump, and the register file as a lookup
  table with 18 names.
\<close>

subsection \<open>Printing bytes\<close>

text \<open>\<open>((unsigned char *) &code)[i]\<close> is byte \<open>i\<close> of the word.\<close>

definition print8bytes :: "u64 \<Rightarrow> ostream \<Rightarrow> ostream" where
  "print8bytes code os =
     set_fill CHR '' ''
       (fold (\<lambda>i. chain [set_hex, set_fill CHR ''0'', put_num_w 2 (unat (byte_of code i)), put '' ''])
          [0..<8] os)"

definition ascii_of :: "u8 \<Rightarrow> char" where
  "ascii_of b = (if is_print (char_of_byte b) then char_of_byte b else CHR ''.'')"

definition print8ascii :: "u64 \<Rightarrow> ostream \<Rightarrow> ostream" where
  "print8ascii code os = fold (\<lambda>i. put [ascii_of (byte_of code i)]) [0..<8] os"

subsection \<open>\<open>getcode\<close> and \<open>disasm\<close>\<close>

text \<open>
  \<open>int size = f.tellg()\<close> is the file's length cut to 32 bits, or -1 when the file does not open. A
  negative size makes the allocation fail and leaves \<open>code\<close> null.
\<close>

definition getcode :: "'w kernel \<Rightarrow> 'w sdb \<Rightarrow> int \<times> 'w sdb" where
  "getcode K s =
     (case k_open K (d_w s) (d_path s) of
        Inl e \<Rightarrow> (- 1, s\<lparr>d_code := None\<rparr>)
      | Inr f \<Rightarrow>
          let sz = sint (of_nat (length f) :: u32)
          in (sz, s\<lparr>d_code := (if 0 \<le> sz then Some (take (nat sz) f) else None)\<rparr>))"

definition hex_byte :: "u8 \<Rightarrow> string" where
  "hex_byte b = (if unat b < 16 then ''0'' else []) @ show_nat 16 (unat b)"

text \<open>One line per instruction; \<open>bits\<close> is filled by \<open>snprintf(\<dots>, "%2.2x ", byte)\<close>.\<close>

definition print_insn :: "insn \<Rightarrow> ostream \<Rightarrow> ostream" where
  "print_insn i =
     chain [set_hex, set_right, put_num_w 12 (unat (i_address i)), put '':  '',
            set_left, put_w 32 (concat (map (\<lambda>b. hex_byte b @ '' '') (i_bytes i))),
            set_left, put_w 7 (i_mnemonic i),
            set_left, put_w 7 (i_op_str i), put [newline]]"

text \<open>
  The disassembler gets the code pointer moved by the offset but the length of the whole buffer, so
  it may be asked to read bytes that are not there. That, moving the pointer past the buffer, a null
  buffer, and an instruction longer than the 16 bytes of the local array are undefined behaviour.
\<close>

definition code_offset :: "elf_t \<Rightarrow> u64 \<Rightarrow> int" where
  "code_offset e a = sint (sh_offset (text_shdr e) + (a - sh_addr (text_shdr e)))"

definition disasm :: "'w kernel \<Rightarrow> u64 \<Rightarrow> nat \<Rightarrow> 'w sdb \<Rightarrow> 'w sdb outcome" where
  "disasm K dis_addr n s =
     (if d_state s \<noteq> RUNNING then Ok (say [line ''**   State should be RUNNING!''] s)
      else if dis_addr = 0 then Ok (say [line ''**   No addr is given!''] s)
      else if \<not> intext (d_elf s) dis_addr then Ok (say [line ''**   Addr out of text region!''] s)
      else
        let s = (if d_code s = None then (case getcode K s of (sz, t) \<Rightarrow> t\<lparr>d_code_size := sz\<rparr>) else s);
            offset = code_offset (d_elf s) dis_addr
        in case d_code s of
             None \<Rightarrow> Undef
           | Some buf \<Rightarrow>
               if offset < 0 \<or> int (length buf) < offset then Undef
               else case k_cs_open K (d_w s) of
                   Some e \<Rightarrow> error K ''cs_open'' e s
                 | None \<Rightarrow>
                     (case k_cs_disasm K (drop (nat offset) buf) (d_code_size s) dis_addr n of
                        None \<Rightarrow> Undef
                      | Some insns \<Rightarrow>
                          if list_ex (\<lambda>i. 16 < length (i_bytes i)) insns then Undef
                          else if insns = [] then Ok (say [line ''**   Can not disassemble code!''] s)
                          else Ok (warn (map print_insn insns) s)))"

subsection \<open>\<open>dump\<close>\<close>

definition dump_line :: "'w kernel \<Rightarrow> 'w \<Rightarrow> int \<Rightarrow> u64 \<Rightarrow> ostream \<Rightarrow> ostream" where
  "dump_line K w p a =
     (let code1 = k_peek K w p a; code2 = k_peek K w p (a + 8) in
      chain [set_hex, set_fill CHR '' '', set_right, put_num_w 12 (unat a), put '': '',
             print8bytes code1, print8bytes code2, put ''|'', print8ascii code1, print8ascii code2,
             put (''|'' @ [newline])])"

fun dump_lines :: "nat \<Rightarrow> 'w kernel \<Rightarrow> 'w \<Rightarrow> int \<Rightarrow> u64 \<Rightarrow> ostream \<Rightarrow> ostream" where
  "dump_lines 0 K w p a os = os"
| "dump_lines (Suc n) K w p a os = dump_lines n K w p (a + 16) (dump_line K w p a os)"

definition DUMP_MAX :: nat where "DUMP_MAX = 5"
definition DISASM_MAX :: nat where "DISASM_MAX = 10"

definition dump :: "'w kernel \<Rightarrow> u64 \<Rightarrow> 'w sdb \<Rightarrow> 'w sdb outcome" where
  "dump K dump_addr s =
     (if d_state s \<noteq> RUNNING then Ok (say [line ''**   State should be RUNNING!''] s)
      else if dump_addr = 0 then Ok (say [line ''**   No addr is given!''] s)
      else if \<not> intext (d_elf s) dump_addr then Ok (say [line ''**   Addr out of text region!''] s)
      else Ok (warn [dump_lines DUMP_MAX K (d_w s) (d_pid s) dump_addr] s))"

subsection \<open>Registers\<close>

text \<open>The \<open>if\<close> chains of \<open>get\<close> and \<open>set\<close>: the 18 names and the field each stands for.\<close>

definition reg_val :: "string \<Rightarrow> user_regs \<Rightarrow> u64 option" where
  "reg_val reg r =
     (if reg = ''rax'' then Some (rax r) else if reg = ''rbx'' then Some (rbx r)
      else if reg = ''rcx'' then Some (rcx r) else if reg = ''rdx'' then Some (rdx r)
      else if reg = ''r8'' then Some (r8 r) else if reg = ''r9'' then Some (r9 r)
      else if reg = ''r10'' then Some (r10 r) else if reg = ''r11'' then Some (r11 r)
      else if reg = ''r12'' then Some (r12 r) else if reg = ''r13'' then Some (r13 r)
      else if reg = ''r14'' then Some (r14 r) else if reg = ''r15'' then Some (r15 r)
      else if reg = ''rdi'' then Some (rdi r) else if reg = ''rsi'' then Some (rsi r)
      else if reg = ''rbp'' then Some (rbp r) else if reg = ''rsp'' then Some (rsp r)
      else if reg = ''rip'' then Some (rip r) else if reg = ''flags'' then Some (eflags r)
      else None)"

definition reg_upd :: "string \<Rightarrow> u64 \<Rightarrow> user_regs \<Rightarrow> user_regs option" where
  "reg_upd reg v r =
     (if reg = ''rax'' then Some (r\<lparr>rax := v\<rparr>) else if reg = ''rbx'' then Some (r\<lparr>rbx := v\<rparr>)
      else if reg = ''rcx'' then Some (r\<lparr>rcx := v\<rparr>) else if reg = ''rdx'' then Some (r\<lparr>rdx := v\<rparr>)
      else if reg = ''r8'' then Some (r\<lparr>r8 := v\<rparr>) else if reg = ''r9'' then Some (r\<lparr>r9 := v\<rparr>)
      else if reg = ''r10'' then Some (r\<lparr>r10 := v\<rparr>) else if reg = ''r11'' then Some (r\<lparr>r11 := v\<rparr>)
      else if reg = ''r12'' then Some (r\<lparr>r12 := v\<rparr>) else if reg = ''r13'' then Some (r\<lparr>r13 := v\<rparr>)
      else if reg = ''r14'' then Some (r\<lparr>r14 := v\<rparr>) else if reg = ''r15'' then Some (r\<lparr>r15 := v\<rparr>)
      else if reg = ''rdi'' then Some (r\<lparr>rdi := v\<rparr>) else if reg = ''rsi'' then Some (r\<lparr>rsi := v\<rparr>)
      else if reg = ''rbp'' then Some (r\<lparr>rbp := v\<rparr>) else if reg = ''rsp'' then Some (r\<lparr>rsp := v\<rparr>)
      else if reg = ''rip'' then Some (r\<lparr>rip := v\<rparr>) else if reg = ''flags'' then Some (r\<lparr>eflags := v\<rparr>)
      else None)"

definition not_running :: string where
  "not_running = ''**   The state should be RUNNING!''"

definition get :: "'w kernel \<Rightarrow> string \<Rightarrow> 'w sdb \<Rightarrow> 'w sdb outcome" where
  "get K reg s =
     (if d_state s \<noteq> RUNNING then Ok (say [line not_running] s)
      else case k_getregs K (d_w s) (d_pid s) of
          Inl e \<Rightarrow> error K ''ptrace(PTRACE_GETREGS)'' e s
        | Inr r \<Rightarrow>
            (case reg_val reg r of
               None \<Rightarrow> Ok (say [line ''**   [reg] is not found!''] s)
             | Some v \<Rightarrow>
                 Ok (warn [put reg, put '' = '', set_dec, put_num (unat v), put '' (0x'', set_hex,
                           put_num (unat v), put ('')'' @ [newline])] s)))"

definition set_reg :: "'w kernel \<Rightarrow> string \<Rightarrow> u64 \<Rightarrow> 'w sdb \<Rightarrow> 'w sdb outcome" where
  "set_reg K reg v s =
     (if d_state s \<noteq> RUNNING then Ok (say [line not_running] s)
      else case k_getregs K (d_w s) (d_pid s) of
          Inl e \<Rightarrow> error K ''ptrace(PTRACE_GETREGS)'' e s
        | Inr r \<Rightarrow>
            (case (case reg_upd reg v r of
                     Some r' \<Rightarrow> (r', s)
                   | None \<Rightarrow> (r, say [line ''**   [reg] is not found!''] s)) of
               (r', s') \<Rightarrow>
                 (case k_setregs K (d_w s') (d_pid s') r' of
                    Inl e \<Rightarrow> error K ''ptrace(PTRACE_SETREGS)'' e s'
                  | Inr w \<Rightarrow> Ok (s'\<lparr>d_w := w\<rparr>))))"

definition reg_cell :: "string \<Rightarrow> u64 \<Rightarrow> string \<Rightarrow> (ostream \<Rightarrow> ostream) list" where
  "reg_cell name v sep = [set_left, put_w 7 name, set_left, put_num_w 10 (unat v), put sep]"

definition getregs :: "'w kernel \<Rightarrow> 'w sdb \<Rightarrow> 'w sdb outcome" where
  "getregs K s =
     (if d_state s \<noteq> RUNNING then Ok (say [line not_running] s)
      else case k_getregs K (d_w s) (d_pid s) of
          Inl e \<Rightarrow> error K ''ptrace(PTRACE_GETREGS)'' e s
        | Inr r \<Rightarrow>
            Ok (warn ([set_hex]
              @ reg_cell ''RAX: '' (rax r) [tab_char] @ reg_cell ''RBX: '' (rbx r) [tab_char]
              @ reg_cell ''RCX: '' (rcx r) [tab_char] @ reg_cell ''RDX: '' (rdx r) [newline]
              @ reg_cell ''R8: '' (r8 r) [tab_char] @ reg_cell ''R9: '' (r9 r) [tab_char]
              @ reg_cell ''R10: '' (r10 r) [tab_char] @ reg_cell ''R11: '' (r11 r) [newline]
              @ reg_cell ''R12: '' (r12 r) [tab_char] @ reg_cell ''R13: '' (r13 r) [tab_char]
              @ reg_cell ''R14: '' (r14 r) [tab_char] @ reg_cell ''R15: '' (r15 r) [newline]
              @ reg_cell ''RDI: '' (rdi r) [tab_char] @ reg_cell ''RSI: '' (rsi r) [tab_char]
              @ reg_cell ''RBP: '' (rbp r) [tab_char] @ reg_cell ''RSP: '' (rsp r) [newline]
              @ reg_cell ''RIP: '' (rip r) [tab_char]
              @ [set_left, put_w 7 ''FLAGS: '', set_left, set_fill CHR ''0'', set_right,
                 put_num_w 16 (unat (eflags r)), put [newline], set_fill CHR '' '']) s))"

subsection \<open>\<open>list\<close>, \<open>vmmap\<close>, \<open>help\<close>\<close>

definition list_cmd :: "'w sdb \<Rightarrow> 'w sdb" where
  "list_cmd s =
     warn (concat (map (\<lambda>b. [put [tab_char], put_int (bp_id b), put ('':'' @ [tab_char]), set_hex,
                              put_num (unat (bp_addr b)), put [newline]]) (d_bps s))) s"

text \<open>The seven \<open>strtok\<close> calls of one line of \<open>/proc/<pid>/maps\<close>.\<close>

definition on_token :: "string option \<Rightarrow> (string \<Rightarrow> (ostream \<Rightarrow> ostream) list) \<Rightarrow> ostream \<Rightarrow> ostream" where
  "on_token t f os = (case t of None \<Rightarrow> os | Some x \<Rightarrow> chain (f x) os)"

definition vmmap_line :: "string \<Rightarrow> ostream \<Rightarrow> ostream" where
  "vmmap_line l os =
     (let (t1, r1) = strtok ''-'' l;
          os = on_token t1 (\<lambda>t. [set_fill CHR ''0'', set_right, put_w 16 t, put ''-'']) os;
          (t2, r2) = strtok '' '' r1;
          os = on_token t2 (\<lambda>t. [set_fill CHR ''0'', set_right, put_w 16 t, put '' '']) os;
          (t3, r3) = strtok '' p'' r2;
          os = on_token t3 (\<lambda>t. [set_fill CHR '' '', put t, put '' '']) os;
          (t4, r4) = strtok '' '' r3;
          (t5, r5) = strtok '' '' r4;
          (t6, r6) = strtok '' '' r5;
          os = on_token t6 (\<lambda>t. [set_left, put_w 9 t]) os;
          (t7, r7) = strtok '' '' r6
      in on_token t7 (\<lambda>t. [put t]) os)"

definition to_string :: "int \<Rightarrow> string" where
  "to_string v = (if v < 0 then CHR ''-'' # show_nat 10 (nat (- v)) else show_nat 10 (nat v))"

text \<open>
  \<open>line\<close> and \<open>len\<close> are not initialised before \<open>getline\<close> gets them: the call is undefined behaviour unless the
  values left in their places happen to be a null pointer or a block of that size (\<open>k_line_ready\<close>).
\<close>

definition vmmap :: "'w kernel \<Rightarrow> 'w sdb \<Rightarrow> 'w sdb outcome" where
  "vmmap K s =
     (if d_state s \<noteq> RUNNING then Ok (say [line ''**   State should be RUNNING!''] s)
      else case k_open K (d_w s) (''/proc/'' @ to_string (d_pid s) @ ''/maps'') of
          Inl e \<Rightarrow> error K ''fopen'' e s
        | Inr f \<Rightarrow>
            if \<not> k_line_ready K (d_w s) then Undef
            else Ok (warn (map vmmap_line (file_lines (map char_of_byte f))) s))"

definition help_cmd :: "'w sdb \<Rightarrow> 'w sdb" where
  "help_cmd = warn (map line [
     ''- break {instruction-address}: add a break point'',
     ''- cont: continue execution'',
     ''- delete {break-point-id}: remove a break point'',
     ''- disasm addr: disassemble instructions in a file or a memory region'',
     ''- dump addr [length]: dump memory content'',
     ''- exit: terminate the debugger'',
     ''- get reg: get a single value from a register'',
     ''- getregs: show registers'',
     ''- help: show this message'',
     ''- list: list break points'',
     ''- load {path/to/a/program}: load a program'',
     ''- run: run the program'',
     ''- vmmap: show memory layout'',
     ''- set reg val: get a single value to a register'',
     ''- si: step into instruction'',
     ''- start: start the program and stop at the first instruction''])"

end
