(* ===== verification/Sdb_Break.thy ===== *)
theory Sdb_Break
  imports Sdb_Show
begin

text \<open>
  Breakpoints of \<open>project4/hw4.cpp\<close>: \<open>bp\<close>, \<open>chkbp\<close> and \<open>del\<close>. The index loop of \<open>chkbp\<close> calls \<open>bp\<close>,
  which could grow the list it walks over; its termination proof shows that it does not. Lemmas:
  the patching of the tracee's text as an overlay of trap bytes on the program's own memory.
\<close>

subsection \<open>What \<open>disasm\<close> leaves alone\<close>

definition core :: "'w sdb \<Rightarrow> dstate \<times> string \<times> int \<times> bp_t list \<times> elf_t \<times> 'w" where
  "core s = (d_state s, d_path s, d_pid s, d_bps s, d_elf s, d_w s)"

lemma core_say [simp]: "core (say fs s) = core s"
  by (simp add: core_def)

lemma core_warn [simp]: "core (warn fs s) = core s"
  by (simp add: core_def)

lemma core_fields:
  assumes "core t = core s"
  shows "d_state t = d_state s" "d_path t = d_path s" "d_pid t = d_pid s" "d_bps t = d_bps s"
    "d_elf t = d_elf s" "d_w t = d_w s"
  using assms by (simp_all add: core_def)

lemma core_getcode: "core (snd (getcode K s)) = core s"
  by (simp add: getcode_def core_def Let_def split: sum.split)

lemma disasm_core: "disasm K a n s = Ok t \<Longrightarrow> core t = core s"
  using core_getcode [of K s]
  by (auto simp: disasm_def Let_def core_def error_def split: if_splits option.splits prod.splits)

text \<open>
  The buffer \<open>disasm\<close> reads and the size it passes on; an address that \<open>disasm\<close> can be asked for without
  undefined behaviour: it is outside the text section, or in the buffer at a place where one instruction
  is decoded without reading past the buffer's end.
\<close>

definition code_of :: "'w kernel \<Rightarrow> 'w sdb \<Rightarrow> u8 list option" where
  "code_of K s = (case d_code s of Some buf \<Rightarrow> Some buf | None \<Rightarrow> d_code (snd (getcode K s)))"

definition size_of :: "'w kernel \<Rightarrow> 'w sdb \<Rightarrow> int" where
  "size_of K s = (case d_code s of Some buf \<Rightarrow> d_code_size s | None \<Rightarrow> fst (getcode K s))"

definition code_ready :: "'w kernel \<Rightarrow> 'w sdb \<Rightarrow> u64 \<Rightarrow> bool" where
  "code_ready K s a \<longleftrightarrow> \<not> intext (d_elf s) a \<or>
     (case code_of K s of
        None \<Rightarrow> False
      | Some buf \<Rightarrow> 0 \<le> code_offset (d_elf s) a \<and> code_offset (d_elf s) a \<le> int (length buf) \<and>
          k_cs_disasm K (drop (nat (code_offset (d_elf s) a)) buf) (size_of K s) a 1 \<noteq> None)"

subsection \<open>\<open>bp\<close>\<close>

definition bp :: "'w kernel \<Rightarrow> u64 \<Rightarrow> 'w sdb \<Rightarrow> 'w sdb outcome" where
  "bp K addr s =
     (if d_state s \<noteq> RUNNING then Ok (say [line not_running] s)
      else if addr = 0 then Ok (say [line ''**   No addr is given!''] s)
      else
        let code = k_peek K (d_w s) (d_pid s) addr in
        if code AND 0xff = 0xcc then Ok s
        else case k_poke K (d_w s) (d_pid s) addr (set_low_byte code 0xcc) of
            Inl e \<Rightarrow> error K ''ptrace(POKETEXT)'' e s
          | Inr w \<Rightarrow>
              let s = s\<lparr>d_w := w\<rparr> in
              if list_ex (\<lambda>b. bp_addr b = addr) (d_bps s) then Ok s
              else
                let b = \<lparr>bp_id = int (length (d_bps s)), bp_addr = addr, bp_orig = code\<rparr>;
                    s = s\<lparr>d_bps := d_bps s @ [b]\<rparr>
                in disasm K addr 1 (say [put ''**   set bp @ ''] s))"

text \<open>An address that is in the list is not added again.\<close>

lemma bp_known:
  "a \<in> bp_addr ` set (d_bps s) \<Longrightarrow> bp K a s = Ok t \<Longrightarrow> d_bps t = d_bps s"
  by (auto simp: bp_def Let_def list_ex_iff error_def split: if_splits sum.splits)

subsection \<open>\<open>chkbp\<close>\<close>

function chkbp_loop :: "'w kernel \<Rightarrow> u64 \<Rightarrow> nat \<Rightarrow> 'w sdb \<Rightarrow> 'w sdb outcome" where
  "chkbp_loop K ip i s =
     (if i < length (d_bps s) then
        seq (if ip < bp_addr (d_bps s ! i) then bp K (bp_addr (d_bps s ! i)) s else Ok s)
          (chkbp_loop K ip (Suc i))
      else Ok s)"
  by pat_completeness auto
termination
proof (relation "measure (\<lambda>(K, ip, i, s). length (d_bps s) - i)", goal_cases)
  case 1
  show ?case by simp
next
  case (2 K ip i s t)
  from 2(2) have "d_bps t = d_bps s"
    using 2(1) bp_known [of "bp_addr (d_bps s ! i)" s K t] by (simp split: if_splits)
  with 2(1) show ?case by simp
qed

declare chkbp_loop.simps [simp del]

definition chkbp :: "'w kernel \<Rightarrow> 'w sdb \<Rightarrow> 'w sdb outcome" where
  "chkbp K s =
     (case k_getregs K (d_w s) (d_pid s) of
        Inl e \<Rightarrow> error K ''ptrace(PTRACE_GETREGS)'' e s
      | Inr r \<Rightarrow> chkbp_loop K (rip r) 0 s)"

subsection \<open>\<open>del\<close>\<close>

text \<open>
  The loop looks for an entry with the given id, then uses the id as an index: out of range is
  undefined behaviour.
\<close>

definition remove_at :: "nat \<Rightarrow> 'a list \<Rightarrow> 'a list" where
  "remove_at n xs = take n xs @ drop (Suc n) xs"

definition del :: "'w kernel \<Rightarrow> int \<Rightarrow> 'w sdb \<Rightarrow> 'w sdb outcome" where
  "del K n s =
     (if d_state s \<noteq> RUNNING then Ok (say [line not_running] s)
      else if list_ex (\<lambda>b. bp_id b = n) (d_bps s) then
        if n < 0 \<or> int (length (d_bps s)) \<le> n then Undef
        else
          let b = d_bps s ! nat n in
          seq (disasm K (bp_addr b) 1 (say [put ''**   del bp @ ''] s))
            (\<lambda>s. case k_poke K (d_w s) (d_pid s) (bp_addr b) (bp_orig b) of
                Inl e \<Rightarrow> error K ''ptrace(PTRACE_POKETEXT)'' e s
              | Inr w \<Rightarrow> Ok (s\<lparr>d_w := w, d_bps := remove_at (nat n) (d_bps s)\<rparr>))
      else Ok (say [line ''**   bp id is not found!''] s))"

lemma set_remove_at: "set (remove_at n xs) \<subseteq> set xs"
  by (auto simp: remove_at_def dest: in_set_takeD in_set_dropD)

lemma map_remove_at: "map f (remove_at n xs) = remove_at n (map f xs)"
  by (simp add: remove_at_def take_map drop_map)

lemma distinct_remove_at: "distinct xs \<Longrightarrow> distinct (remove_at n xs)"
  by (auto simp: remove_at_def dest: set_take_disj_set_drop_if_distinct [of xs n "Suc n"])

lemma set_remove_at_distinct:
  "n < length xs \<Longrightarrow> distinct xs \<Longrightarrow> set (remove_at n xs) = set xs - {xs ! n}"
proof -
  assume n: "n < length xs" and d: "distinct xs"
  have xs: "xs = take n xs @ xs ! n # drop (Suc n) xs" using n by (simp add: id_take_nth_drop [symmetric])
  then have "xs ! n \<notin> set (take n xs)" "xs ! n \<notin> set (drop (Suc n) xs)"
    using d by (metis distinct.simps(2) distinct_append not_distinct_conv_prefix)+
  moreover have "set xs = set (take n xs) \<union> {xs ! n} \<union> set (drop (Suc n) xs)"
    by (subst (1) xs) auto
  ultimately show ?thesis by (auto simp: remove_at_def)
qed

subsection \<open>The overlay\<close>

text \<open>
  The tracee's memory is the program's own memory \<open>m0\<close> with trap bytes at some of the breakpoints, and
  every saved word is the program's own. Nothing is said of the distance of two breakpoints.
\<close>

definition overlay :: "memory \<Rightarrow> bp_t list \<Rightarrow> memory \<Rightarrow> bool" where
  "overlay m0 bs m \<longleftrightarrow>
     (\<forall>b\<in>set bs. holds_word m0 (bp_addr b) (bp_orig b) \<and> byte_of (bp_orig b) 0 \<noteq> 0xcc) \<and>
     (\<forall>x. m x = m0 x \<or> x \<in> bp_addr ` set bs \<and> m x = Some 0xcc)"

lemma remove_at_Cons: "remove_at n (x # xs) = (case n of 0 \<Rightarrow> xs | Suc k \<Rightarrow> x # remove_at k xs)"
  by (cases n) (simp_all add: remove_at_def)

lemma in_remove_at: "x \<in> set xs \<Longrightarrow> i < length xs \<Longrightarrow> x = xs ! i \<or> x \<in> set (remove_at i xs)"
proof (induction xs arbitrary: i)
  case (Cons y ys)
  then show ?case by (cases i) (auto simp: remove_at_Cons)
qed simp

lemma overlay_mem:
  "overlay m0 bs m \<Longrightarrow> m x = m0 x \<or> x \<in> bp_addr ` set bs \<and> m x = Some 0xcc"
  by (simp add: overlay_def)

lemma overlay_bp:
  "overlay m0 bs m \<Longrightarrow> b \<in> set bs \<Longrightarrow> holds_word m0 (bp_addr b) (bp_orig b)"
  by (simp add: overlay_def)

text \<open>Where no breakpoint lies in the eight bytes from an address on, the tracee's word is the program's own.\<close>

lemma overlay_word:
  assumes "overlay m0 bs m" "\<And>b. b \<in> set bs \<Longrightarrow> 8 \<le> unat (bp_addr b - a)"
  shows "holds_word m a v \<longleftrightarrow> holds_word m0 a v"
proof -
  have "m (a + of_nat i) = m0 (a + of_nat i)" if i: "i < 8" for i
  proof -
    have "a + of_nat i \<notin> bp_addr ` set bs"
    proof
      assume "a + of_nat i \<in> bp_addr ` set bs"
      then obtain b where b: "b \<in> set bs" "bp_addr b = a + of_nat i" by auto
      with assms(2) [OF b(1)] have "8 \<le> unat (a + of_nat i - a)" by (simp only:)
      with unat_offset [OF i, of a] i show False by (simp del: add_diff_cancel_left')
    qed
    with assms(1) show ?thesis by (auto simp: overlay_def)
  qed
  then show ?thesis by (simp add: holds_word_iff)
qed

text \<open>At a breakpoint the word can be read, whatever the other breakpoints.\<close>

lemma overlay_readable:
  assumes "overlay m0 bs m" "b \<in> set bs"
  shows "readable m (bp_addr b)"
proof -
  have "m (bp_addr b + of_nat i) \<noteq> None" if "i < 8" for i
    using overlay_mem [OF assms(1), of "bp_addr b + of_nat i"] overlay_bp [OF assms] that
    by (auto simp: holds_word_iff)
  then show ?thesis by (simp add: readable_iff)
qed

text \<open>
  Writing the saved word back makes all eight bytes from the breakpoint on the program's own, those of
  other breakpoints included; the result is again an overlay.
\<close>

lemma overlay_restore:
  assumes "overlay m0 bs m" "b \<in> set bs"
  shows "poke_mem m (bp_addr b) (bp_orig b) = (\<lambda>x. if unat (x - bp_addr b) < 8 then m0 x else m x)"
proof
  fix x
  show "poke_mem m (bp_addr b) (bp_orig b) x = (if unat (x - bp_addr b) < 8 then m0 x else m x)"
  proof (cases "unat (x - bp_addr b) < 8")
    case True
    then obtain i where i: "i < 8" "x = bp_addr b + of_nat i" by (auto simp: in_word_iff)
    with True overlay_bp [OF assms] show ?thesis by (simp only: poke_mem_at holds_word_iff if_True)
  next
    case False
    then show ?thesis by (simp add: poke_mem_other)
  qed
qed

lemma overlay_clear: "overlay m0 bs m \<Longrightarrow> overlay m0 bs (\<lambda>x. if P x then m0 x else m x)"
  by (auto simp: overlay_def)

lemma overlay_set: "overlay m0 bs m \<Longrightarrow> a \<in> bp_addr ` set bs \<Longrightarrow> overlay m0 bs (m(a \<mapsto> 0xcc))"
  by (auto simp: overlay_def)

lemma overlay_add:
  "overlay m0 bs m \<Longrightarrow> holds_word m0 (bp_addr b) (bp_orig b) \<Longrightarrow> byte_of (bp_orig b) 0 \<noteq> 0xcc \<Longrightarrow>
   overlay m0 (bs @ [b]) (m(bp_addr b \<mapsto> 0xcc))"
  by (auto simp: overlay_def)

lemma overlay_drop:
  assumes "overlay m0 bs m" "i < length bs"
  shows "overlay m0 (remove_at i bs) (\<lambda>x. if unat (x - bp_addr (bs ! i)) < 8 then m0 x else m x)"
proof -
  have "x \<in> bp_addr ` set (remove_at i bs)" if "x \<in> bp_addr ` set bs" "x \<noteq> bp_addr (bs ! i)" for x
    using that in_remove_at [OF _ assms(2)] by blast
  moreover have "bp_addr (bs ! i) \<noteq> x" if "8 \<le> unat (x - bp_addr (bs ! i))" for x
    using that by auto
  ultimately show ?thesis
    using assms(1) set_remove_at [of i bs] unfolding overlay_def by (auto simp: not_less) (metis imageI)
qed

lemma overlay_none: "overlay m0 [] m \<longleftrightarrow> m = m0"
  by (auto simp: overlay_def)

subsection \<open>Breakpoint commands over the kernel's laws\<close>

text \<open>What \<open>chkbp\<close> makes of a memory: a trap byte at every breakpoint above the program counter.\<close>

definition rearm :: "u64 \<Rightarrow> bp_t list \<Rightarrow> memory \<Rightarrow> memory" where
  "rearm ip bs m = (\<lambda>x. if x \<in> bp_addr ` set bs \<and> ip < x then Some 0xcc else m x)"

lemma rearm_Nil [simp]: "rearm ip [] m = m"
  by (simp add: rearm_def)

lemma rearm_Cons:
  "rearm ip (b # bs) m = rearm ip bs (if ip < bp_addr b then m(bp_addr b \<mapsto> 0xcc) else m)"
  by (auto simp: rearm_def fun_eq_iff)

lemma overlay_rearm: "overlay m0 bs m \<Longrightarrow> overlay m0 bs (rearm ip bs m)"
  by (auto simp: overlay_def rearm_def)

lemma code_ready_cong:
  assumes "d_elf s' = d_elf s" "d_code s' = d_code s" "d_path s' = d_path s"
    "k_open K (d_w s') = k_open K (d_w s)" "d_code_size s' = d_code_size s"
  shows "code_ready K s' a = code_ready K s a"
  using assms
  by (simp add: code_ready_def code_of_def size_of_def getcode_def Let_def split: option.split sum.split)

context debug_kernel
begin

lemma disasm_total:
  assumes "code_ready K s a"
  shows "\<exists>t. disasm K a 1 s = Ok t \<and> core t = core s"
proof -
  have len: "k_cs_disasm K bs z b c = Some is \<Longrightarrow> \<not> list_ex (\<lambda>i. 16 < length (i_bytes i)) is" for bs z b c "is"
    using cs_len by (fastforce simp: list_ex_iff)
  have cg: "d_elf (snd (getcode K s)) = d_elf s" using core_getcode [of K s] by (simp add: core_def)
  have "\<exists>t. disasm K a 1 s = Ok t"
  proof (cases "d_code s")
    case None
    obtain sz t where g: "getcode K s = (sz, t)" by (cases "getcode K s")
    with None assms cg show ?thesis
      by (auto simp: disasm_def code_ready_def code_of_def size_of_def Let_def cs_open len split: option.splits)
  next
    case (Some buf)
    with assms show ?thesis
      by (auto simp: disasm_def code_ready_def code_of_def size_of_def Let_def cs_open len split: option.splits)
  qed
  then show ?thesis using disasm_core by blast
qed

lemma bp_new:
  assumes run: "d_state s = RUNNING" and a: "a \<noteq> 0"
    and v: "view (d_w s) (d_pid s) = Some t" and ov: "overlay m0 (d_bps s) (mem t)"
    and ap: "\<And>b. b \<in> set (d_bps s) \<Longrightarrow> 8 \<le> unat (bp_addr b - a)"
    and w: "holds_word m0 a c" "byte_of c 0 \<noteq> 0xcc" and cr: "code_ready K s a"
  shows "\<exists>s' w'. bp K a s = Ok s' \<and>
    core s' = (RUNNING, d_path s, d_pid s,
      d_bps s @ [\<lparr>bp_id = int (length (d_bps s)), bp_addr = a, bp_orig = c\<rparr>], d_elf s, w') \<and>
    view w' (d_pid s) = Some (t\<lparr>mem := (mem t)(a \<mapsto> 0xcc)\<rparr>)"
proof -
  have mw: "holds_word (mem t) a c" using overlay_word [OF ov ap] w(1) by simp
  then have pk: "k_peek K (d_w s) (d_pid s) a = c" using peek v by blast
  from patch [OF v mw] obtain w' where
    po: "k_poke K (d_w s) (d_pid s) a (set_low_byte c 0xcc) = Inr w'" and
    vw: "view w' (d_pid s) = Some (t\<lparr>mem := (mem t)(a \<mapsto> 0xcc)\<rparr>)" by blast
  have nk: "\<not> list_ex (\<lambda>b. bp_addr b = a) (d_bps s)"
    using ap by (fastforce simp: list_ex_iff)
  let ?s2 = "say [put ''**   set bp @ ''] (s\<lparr>d_w := w', d_bps := d_bps s @
      [\<lparr>bp_id = int (length (d_bps s)), bp_addr = a, bp_orig = c\<rparr>]\<rparr>)"
  have "code_ready K ?s2 a"
    using cr code_ready_cong [of ?s2 s K a] poke_files [OF po] by simp
  then obtain s' where d: "disasm K a 1 ?s2 = Ok s'" "core s' = core ?s2"
    using disasm_total by blast
  have "bp K a s = disasm K a 1 ?s2"
    using run a pk po nk w(2) by (simp add: bp_def Let_def low_byte_and)
  with d vw run show ?thesis by (auto simp: core_def)
qed

lemma bp_rearm:
  assumes run: "d_state s = RUNNING" and a: "a \<noteq> 0"
    and v: "view (d_w s) (d_pid s) = Some t" and ov: "overlay m0 (d_bps s) (mem t)"
    and mem: "a \<in> bp_addr ` set (d_bps s)"
  shows "\<exists>w'. bp K a s = Ok (s\<lparr>d_w := w'\<rparr>) \<and>
    view w' (d_pid s) = Some (t\<lparr>mem := (mem t)(a \<mapsto> 0xcc)\<rparr>)"
proof -
  have "readable (mem t) a" using overlay_readable [OF ov] mem by auto
  then obtain c where mw: "holds_word (mem t) a c" using readable_holds by blast
  then have pk: "k_peek K (d_w s) (d_pid s) a = c" using peek v by blast
  show ?thesis
  proof (cases "byte_of c 0 = 0xcc")
    case True
    then have "(mem t)(a \<mapsto> 0xcc) = mem t" using holds_word_first [OF mw] by (simp add: fun_upd_idem)
    moreover have "bp K a s = Ok s"
      using run a pk True by (simp add: bp_def Let_def low_byte_and)
    ultimately show ?thesis using v by (intro exI [of _ "d_w s"]) simp
  next
    case False
    from patch [OF v mw] obtain w' where
      po: "k_poke K (d_w s) (d_pid s) a (set_low_byte c 0xcc) = Inr w'" and
      vw: "view w' (d_pid s) = Some (t\<lparr>mem := (mem t)(a \<mapsto> 0xcc)\<rparr>)" by blast
    have "list_ex (\<lambda>b. bp_addr b = a) (d_bps s)" using mem by (auto simp: list_ex_iff)
    then have "bp K a s = Ok (s\<lparr>d_w := w'\<rparr>)"
      using run a pk po False by (simp add: bp_def Let_def low_byte_and)
    with vw show ?thesis by blast
  qed
qed

lemma chkbp_loop_rearms:
  assumes "d_state s = RUNNING" "view (d_w s) (d_pid s) = Some t" "overlay m0 (d_bps s) (mem t)"
  shows "\<exists>w'. chkbp_loop K ip i s = Ok (s\<lparr>d_w := w'\<rparr>) \<and>
    view w' (d_pid s) = Some (t\<lparr>mem := rearm ip (drop i (d_bps s)) (mem t)\<rparr>)"
  using assms
proof (induction "length (d_bps s) - i" arbitrary: i s t)
  case 0
  then show ?case by (intro exI [of _ "d_w s"]) (simp add: chkbp_loop.simps)
next
  case (Suc n)
  then have i: "i < length (d_bps s)" by simp
  let ?b = "d_bps s ! i"
  have dr: "drop i (d_bps s) = ?b # drop (Suc i) (d_bps s)" using i by (simp add: Cons_nth_drop_Suc)
  have b: "bp_addr ?b \<in> bp_addr ` set (d_bps s)" using i by simp
  let ?m = "if ip < bp_addr ?b then (mem t)(bp_addr ?b \<mapsto> 0xcc) else mem t"
  have "\<exists>w1. (if ip < bp_addr ?b then bp K (bp_addr ?b) s else Ok s) = Ok (s\<lparr>d_w := w1\<rparr>) \<and>
      view w1 (d_pid s) = Some (t\<lparr>mem := ?m\<rparr>)"
  proof (cases "ip < bp_addr ?b")
    case True
    then have "bp_addr ?b \<noteq> 0" by auto
    from bp_rearm [OF Suc.prems(1) this Suc.prems(2,3) b] True show ?thesis by simp
  next
    case False
    with Suc.prems(2) show ?thesis by (intro exI [of _ "d_w s"]) simp
  qed
  then obtain w1 where w1: "(if ip < bp_addr ?b then bp K (bp_addr ?b) s else Ok s) = Ok (s\<lparr>d_w := w1\<rparr>)"
    and v1: "view w1 (d_pid s) = Some (t\<lparr>mem := ?m\<rparr>)" by blast
  have ov: "overlay m0 (d_bps s) ?m" using Suc.prems(3) b by (simp add: overlay_set)
  have "\<exists>w'. chkbp_loop K ip (Suc i) (s\<lparr>d_w := w1\<rparr>) = Ok ((s\<lparr>d_w := w1\<rparr>)\<lparr>d_w := w'\<rparr>) \<and>
      view w' (d_pid (s\<lparr>d_w := w1\<rparr>)) = Some ((t\<lparr>mem := ?m\<rparr>)\<lparr>mem :=
        rearm ip (drop (Suc i) (d_bps (s\<lparr>d_w := w1\<rparr>))) (mem (t\<lparr>mem := ?m\<rparr>))\<rparr>)"
    using Suc.prems Suc.hyps(2) v1 ov by (intro Suc.hyps(1)) simp_all
  with i w1 show ?case
    by (simp only: chkbp_loop.simps [of K ip i s] dr rearm_Cons if_True andthen.simps) simp
qed

lemma chkbp_rearms:
  assumes "d_state s = RUNNING" "view (d_w s) (d_pid s) = Some t" "overlay m0 (d_bps s) (mem t)"
  shows "\<exists>w'. chkbp K s = Ok (s\<lparr>d_w := w'\<rparr>) \<and>
    view w' (d_pid s) = Some (t\<lparr>mem := rearm (rip (regs t)) (d_bps s) (mem t)\<rparr>)"
  using chkbp_loop_rearms [OF assms, of "rip (regs t)" 0] getregs [OF assms(2)]
  by (simp add: chkbp_def)

lemma del_entry:
  assumes run: "d_state s = RUNNING" and i: "i < length (d_bps s)" "list_ex (\<lambda>b. bp_id b = int i) (d_bps s)"
    and v: "view (d_w s) (d_pid s) = Some t" and rd: "readable (mem t) (bp_addr (d_bps s ! i))"
    and cr: "code_ready K s (bp_addr (d_bps s ! i))"
  shows "\<exists>s' w'. del K (int i) s = Ok s' \<and>
    core s' = (RUNNING, d_path s, d_pid s, remove_at i (d_bps s), d_elf s, w') \<and>
    view w' (d_pid s) = Some (t\<lparr>mem := poke_mem (mem t) (bp_addr (d_bps s ! i)) (bp_orig (d_bps s ! i))\<rparr>)"
proof -
  let ?b = "d_bps s ! i"
  let ?s1 = "say [put ''**   del bp @ ''] s"
  have "code_ready K ?s1 (bp_addr ?b)" using cr code_ready_cong [of ?s1 s K] by simp
  then obtain s1 where d: "disasm K (bp_addr ?b) 1 ?s1 = Ok s1" "core s1 = core ?s1"
    using disasm_total by blast
  then have c: "d_w s1 = d_w s" "d_pid s1 = d_pid s" "d_bps s1 = d_bps s" "d_path s1 = d_path s"
    "d_elf s1 = d_elf s" "d_state s1 = d_state s"
    by (simp_all add: core_def)
  from poke [OF v rd, of "bp_orig ?b"] obtain w' where
    po: "k_poke K (d_w s) (d_pid s) (bp_addr ?b) (bp_orig ?b) = Inr w'" and
    vw: "view w' (d_pid s) = Some (t\<lparr>mem := poke_mem (mem t) (bp_addr ?b) (bp_orig ?b)\<rparr>)" by blast
  have "del K (int i) s = Ok (s1\<lparr>d_w := w', d_bps := remove_at i (d_bps s)\<rparr>)"
    using run i d po c by (simp add: del_def Let_def)
  with vw c run show ?thesis by (auto simp: core_def)
qed

end

end
