(* ===== verification/Elf_Load.thy ===== *)
theory Elf_Load
  imports Sdb_State
begin

text \<open>
  \<open>load\<close> of \<open>project4/hw4.cpp\<close>: the ELF header, the section-name table and the search for the
  \<open>.text\<close> section header, with the file as its bytes and a position. Lemmas: what the search
  returns on a well-formed section table, what each refusal leaves in place, and the state the
  debugger is in after a load.
\<close>

subsection \<open>Files\<close>

text \<open>
  \<open>fread(dst, 1, n, f)\<close>: the bytes available overwrite the front of the destination, which keeps
  the rest of its old contents; \<open>fseek(f, off, SEEK_SET)\<close> with a negative offset fails and moves
  nothing.
\<close>

definition fread :: "u8 list \<Rightarrow> nat \<Rightarrow> u8 list \<Rightarrow> nat \<Rightarrow> u8 list \<times> nat" where
  "fread dst n f pos =
     (let got = take n (drop pos f) in (got @ drop (length got) dst, pos + length got))"

definition fseek :: "int \<Rightarrow> nat \<Rightarrow> nat" where
  "fseek off pos = (if off < 0 then pos else nat off)"

lemma fseek_int: "fseek (int n) pos = n"
  by (simp add: fseek_def)

lemma fread_full:
  "pos + n \<le> length f \<Longrightarrow> length dst \<le> n \<Longrightarrow> fread dst n f pos = (take n (drop pos f), pos + n)"
  by (simp add: fread_def)

lemma length_fread: "length dst = n \<Longrightarrow> length (fst (fread dst n f pos)) = n"
  by (simp add: fread_def Let_def)

subsection \<open>Names in the string table\<close>

text \<open>
  \<open>strcmp(p, s) == 0\<close> on the bytes from \<open>p\<close> to the end of the block: \<open>None\<close> when the comparison runs
  past the block before it is decided.
\<close>

fun strcmp_eq :: "u8 list \<Rightarrow> string \<Rightarrow> bool option" where
  "strcmp_eq [] s = None"
| "strcmp_eq (b # bs) [] = Some (b = 0)"
| "strcmp_eq (b # bs) (c # cs) = (if b = byte_of_char c then strcmp_eq bs cs else Some False)"

definition cstr :: "string \<Rightarrow> u8 list" where
  "cstr s = map byte_of_char s @ [0]"

lemma strcmp_eq_cstr:
  assumes "CHR 0x00 \<notin> set s" "CHR 0x00 \<notin> set t"
  shows "strcmp_eq (cstr t @ rest) s = Some (s = t)"
proof -
  have z: "byte_of_char c = 0 \<longleftrightarrow> c = CHR 0x00" for c
    using byte_of_char_inj [of c "CHR 0x00"] by (simp add: byte_of_char_def)
  show ?thesis using assms
  proof (induction t arbitrary: s)
    case Nil
    then show ?case by (cases s) (auto simp: cstr_def z eq_commute [of 0])
  next
    case (Cons c t)
    then show ?case by (cases s) (auto simp: cstr_def z byte_of_char_inj)
  qed
qed

subsection \<open>The search for \<open>.text\<close>\<close>

text \<open>
  The loop over \<open>e_shnum\<close> headers: \<open>tmp\<close> is the local header, empty while nothing has been read
  into it. \<open>None\<close> is a read of bytes that were never written.
\<close>

fun find_text :: "nat \<Rightarrow> u8 list \<Rightarrow> nat \<Rightarrow> u8 list \<Rightarrow> u8 list \<Rightarrow> u8 list option option" where
  "find_text 0 f pos tmp tab = Some None"
| "find_text (Suc k) f pos tmp tab =
     (let (tmp', pos') = fread tmp hdr_size f pos in
      if length tmp' < 4 then None
      else case strcmp_eq (drop (sh_name tmp') tab) ''.text'' of
          None \<Rightarrow> None
        | Some True \<Rightarrow> if length tmp' < hdr_size then None else Some (Some tmp')
        | Some False \<Rightarrow> find_text k f pos' tmp' tab)"

subsection \<open>\<open>load\<close>\<close>

definition is_elf :: "u8 list \<Rightarrow> bool" where
  "is_elf h \<longleftrightarrow> h ! 0 = 0x7f \<and> h ! 1 = byte_of_char CHR ''E'' \<and> h ! 2 = byte_of_char CHR ''L'' \<and>
     h ! 3 = byte_of_char CHR ''F''"

definition is_class64 :: "u8 list \<Rightarrow> bool" where
  "is_class64 h \<longleftrightarrow> h ! 4 = 2"

text \<open>\<open>int str_shdr_offset\<close>: the sum is 64 bits wide and is cut to a signed 32-bit \<open>int\<close>.\<close>

definition str_shdr_offset :: "u8 list \<Rightarrow> int" where
  "str_shdr_offset h = sint (ucast (e_shoff h + of_nat (e_shstrndx h) * of_nat hdr_size :: u64) :: u32)"

definition read_sections :: "elf_t \<Rightarrow> u8 list \<Rightarrow> nat \<Rightarrow> elf_t option" where
  "read_sections e f pos0 =
     (let h = ehdr e;
          (sh, pos1) = fread (str_shdr e) hdr_size f (fseek (str_shdr_offset h) pos0);
          (tab, pos2) = fread [] (unat (sh_size sh)) f (fseek (sint (sh_offset sh)) pos1);
          e' = e\<lparr>str_shdr := sh, str_tab := Some tab\<rparr>
      in case find_text (e_shnum h) f (fseek (sint (e_shoff h)) pos2) [] tab of
           None \<Rightarrow> None
         | Some None \<Rightarrow> Some e'
         | Some (Some t) \<Rightarrow> Some (e'\<lparr>text_shdr := t\<rparr>))"

definition load :: "'w kernel \<Rightarrow> string \<Rightarrow> 'w sdb \<Rightarrow> 'w sdb outcome" where
  "load K path s =
     (if d_state s = LOADED then Ok (say [line ''**   The state is already LOADED!''] s)
      else
        let s = s\<lparr>d_elf := (d_elf s)\<lparr>str_tab := None\<rparr>\<rparr> in
        case k_open K (d_w s) path of
          Inl e \<Rightarrow> error K ''fopen'' e s
        | Inr f \<Rightarrow>
            let (h, pos) = fread (ehdr (d_elf s)) hdr_size f 0;
                s = s\<lparr>d_elf := (d_elf s)\<lparr>ehdr := h\<rparr>\<rparr>
            in if is_elf h then
                 if is_class64 h then
                   (case read_sections (d_elf s) f pos of
                      None \<Rightarrow> Undef
                    | Some e \<Rightarrow>
                        Ok ((say [put ''** program '', put [CHR 0x27], put path, put [CHR 0x27],
                             put '' loaded. entry point 0x'', set_hex, put_num (unat (e_entry h)),
                             put [newline]] (s\<lparr>d_elf := e\<rparr>))\<lparr>d_state := LOADED\<rparr>))
                 else Ok (say [line ''**   Not 64-bits program!''] s)
               else Ok (say [line ''**   Not ELF file!''] s))"

subsection \<open>What a load of a well-formed image gives\<close>

text \<open>
  The section names as the format defines them, the section headers in table order, and the
  images whose tables lie within the file and whose names are terminated within the string table.
\<close>

definition section_name :: "u8 list \<Rightarrow> u8 list \<Rightarrow> string" where
  "section_name tab h = map char_of_byte (takeWhile (\<lambda>b. b \<noteq> 0) (drop (sh_name h) tab))"

fun headers :: "nat \<Rightarrow> u8 list \<Rightarrow> nat \<Rightarrow> u8 list list" where
  "headers 0 f pos = []"
| "headers (Suc k) f pos = take hdr_size (drop pos f) # headers k f (pos + hdr_size)"

definition names_end :: "u8 list \<Rightarrow> u8 list list \<Rightarrow> bool" where
  "names_end tab hs \<longleftrightarrow> list_all (\<lambda>h. 0 \<in> set (drop (sh_name h) tab)) hs"

definition img_shoff :: "u8 list \<Rightarrow> nat" where
  "img_shoff f = field 40 8 f"

definition img_strhdr :: "u8 list \<Rightarrow> u8 list" where
  "img_strhdr f = take hdr_size (drop (img_shoff f + e_shstrndx f * hdr_size) f)"

definition img_tab :: "u8 list \<Rightarrow> u8 list" where
  "img_tab f = take (field 32 8 (img_strhdr f)) (drop (field 24 8 (img_strhdr f)) f)"

definition img_headers :: "u8 list \<Rightarrow> u8 list list" where
  "img_headers f = headers (e_shnum f) f (img_shoff f)"

definition elf_image :: "u8 list \<Rightarrow> bool" where
  "elf_image f \<longleftrightarrow>
     hdr_size \<le> length f \<and> is_elf f \<and> is_class64 f \<and>
     img_shoff f + e_shstrndx f * hdr_size < 2 ^ 31 \<and>
     img_shoff f + e_shstrndx f * hdr_size + hdr_size \<le> length f \<and>
     img_shoff f + e_shnum f * hdr_size \<le> length f \<and>
     field 24 8 (img_strhdr f) < 2 ^ 63 \<and>
     field 24 8 (img_strhdr f) + field 32 8 (img_strhdr f) \<le> length f \<and>
     names_end (img_tab f) (img_headers f)"

lemma strcmp_eq_name:
  assumes "0 \<in> set bs" "CHR 0x00 \<notin> set s"
  shows "strcmp_eq bs s = Some (map char_of_byte (takeWhile (\<lambda>b. b \<noteq> 0) bs) = s)"
  using assms
proof (induction bs s rule: strcmp_eq.induct)
  case (3 b bs c cs)
  have z: "byte_of_char c \<noteq> 0" using "3.prems"(2) byte_of_char_inj [of c "CHR 0x00"]
    by (auto simp: byte_of_char_def)
  have "b = byte_of_char c \<longleftrightarrow> char_of_byte b = c" by auto
  with 3 z show ?case by (cases "b = 0") auto
qed auto

lemma find_text_spec:
  assumes "length tmp \<le> hdr_size" "pos + k * hdr_size \<le> length f" "names_end tab (headers k f pos)"
  shows "find_text k f pos tmp tab = Some (find (\<lambda>h. section_name tab h = ''.text'') (headers k f pos))"
  using assms
proof (induction k arbitrary: pos tmp)
  case 0
  show ?case by simp
next
  case (Suc k)
  let ?h = "take hdr_size (drop pos f)"
  have fr: "fread tmp hdr_size f pos = (?h, pos + hdr_size)"
    using Suc.prems(1,2) by (intro fread_full) auto
  have len: "length ?h = hdr_size" using Suc.prems(2) by simp
  have name: "strcmp_eq (drop (sh_name ?h) tab) ''.text'' = Some (section_name tab ?h = ''.text'')"
    using Suc.prems(3) by (simp add: strcmp_eq_name section_name_def names_end_def)
  have "find_text k f (pos + hdr_size) ?h tab =
      Some (find (\<lambda>h. section_name tab h = ''.text'') (headers k f (pos + hdr_size)))"
    using Suc.prems len by (intro Suc.IH) (simp_all add: names_end_def algebra_simps)
  moreover have "\<not> length ?h < 4" using len by (simp add: hdr_size_def)
  ultimately show ?case using fr len name by (simp add: Let_def)
qed

lemma le_val_lt: "le_val (take n xs) < 256 ^ n"
proof -
  have "le_val (take n xs) < 256 ^ length (take n xs)" by (rule le_val_bound)
  also have "\<dots> \<le> 256 ^ n" by (rule power_increasing) simp_all
  finally show ?thesis .
qed

lemma field_lt: "field off n bs < 256 ^ n"
  by (simp add: field_def le_val_lt)

lemma field_take: "off + n \<le> m \<Longrightarrow> field off n (take m bs) = field off n bs"
  by (simp add: field_def drop_take)

lemma unat_field8: "unat (of_nat (field off 8 bs) :: u64) = field off 8 bs"
  using field_lt [of off 8 bs] by (simp add: unat_of_nat)

lemma ucast_small: "n < 2 ^ 31 \<Longrightarrow> ucast (of_nat n :: u64) = (of_nat n :: u32)"
  by (simp add: unsigned_of_nat take_bit_nat_eq_self)

lemma sint_small32: "n < 2 ^ 31 \<Longrightarrow> sint (of_nat n :: u32) = int n"
  by (simp add: sint_uint uint_nat unat_of_nat signed_take_bit_int_eq_self)

lemma str_shdr_offset_image:
  assumes "img_shoff f + e_shstrndx f * hdr_size < 2 ^ 31"
  shows "str_shdr_offset (take hdr_size f) = int (img_shoff f + e_shstrndx f * hdr_size)"
proof -
  let ?n = "img_shoff f + e_shstrndx f * hdr_size"
  have "(e_shoff (take hdr_size f) + of_nat (e_shstrndx (take hdr_size f)) * of_nat hdr_size :: u64) = of_nat ?n"
    by (simp add: field_take hdr_size_def img_shoff_def)
  moreover have "ucast (of_nat ?n :: u64) = (of_nat ?n :: u32)"
    using assms by (rule ucast_small)
  moreover have "sint (of_nat ?n :: u32) = int ?n"
    using assms by (rule sint_small32)
  ultimately show ?thesis by (simp add: str_shdr_offset_def)
qed

lemma read_sections_image:
  assumes e: "ehdr e = take hdr_size f" "length (str_shdr e) \<le> hdr_size" and f: "elf_image f"
  shows "read_sections e f pos =
    Some (e\<lparr>str_shdr := img_strhdr f, str_tab := Some (img_tab f),
            text_shdr := (case find (\<lambda>h. section_name (img_tab f) h = ''.text'') (img_headers f) of
                            None \<Rightarrow> text_shdr e | Some h \<Rightarrow> h)\<rparr>)"
proof -
  let ?so = "img_shoff f + e_shstrndx f * hdr_size"
  let ?sh = "img_strhdr f"
  note im = f [unfolded elf_image_def]
  have "str_shdr_offset (take hdr_size f) = int ?so" using im by (intro str_shdr_offset_image) simp
  then have "fseek (str_shdr_offset (ehdr e)) pos = ?so" by (simp only: e(1) fseek_int)
  then have r1: "fread (str_shdr e) hdr_size f (fseek (str_shdr_offset (ehdr e)) pos) = (?sh, ?so + hdr_size)"
    using im e by (simp add: fread_full img_strhdr_def)
  have "fseek (sint (sh_offset ?sh)) (?so + hdr_size) = field 24 8 ?sh"
    using im by (simp add: fseek_def sint_small)
  moreover have "unat (sh_size ?sh) = field 32 8 ?sh" by (rule unat_field8)
  ultimately have r2: "fread [] (unat (sh_size ?sh)) f (fseek (sint (sh_offset ?sh)) (?so + hdr_size)) =
      (img_tab f, field 24 8 ?sh + field 32 8 ?sh)"
    using im by (simp add: fread_full img_tab_def)
  have "img_shoff f < 2 ^ 63" using im by simp
  then have r3: "fseek (sint (e_shoff (ehdr e))) p = img_shoff f" for p
    using e(1) by (simp add: fseek_def sint_small img_shoff_def field_take hdr_size_def)
  have n: "e_shnum (ehdr e) = e_shnum f" using e(1) by (simp add: field_take hdr_size_def)
  have "find_text (e_shnum f) f (img_shoff f) [] (img_tab f) =
      Some (find (\<lambda>h. section_name (img_tab f) h = ''.text'') (img_headers f))"
    unfolding img_headers_def using im by (intro find_text_spec) (simp_all add: img_headers_def)
  with r1 r2 r3 n show ?thesis
    by (simp add: read_sections_def Let_def split: option.split)
qed

lemma load_image:
  assumes "d_state s \<noteq> LOADED" "k_open K (d_w s) path = Inr f" "elf_image f"
    "length (ehdr (d_elf s)) = hdr_size" "length (str_shdr (d_elf s)) = hdr_size"
  shows "\<exists>t. load K path s = Ok t \<and> d_state t = LOADED \<and>
    d_elf t = \<lparr>ehdr = take hdr_size f, str_shdr = img_strhdr f, str_tab = Some (img_tab f),
      text_shdr = (case find (\<lambda>h. section_name (img_tab f) h = ''.text'') (img_headers f) of
                     None \<Rightarrow> text_shdr (d_elf s) | Some h \<Rightarrow> h)\<rparr> \<and>
    d_path t = d_path s \<and> d_pid t = d_pid s \<and> d_bps t = d_bps s \<and> d_code t = d_code s \<and>
    d_w t = d_w s \<and> d_err t = d_err s"
proof -
  note im = assms(3) [unfolded elf_image_def]
  have "fread (ehdr (d_elf s)) hdr_size f 0 = (take hdr_size f, hdr_size)"
    using im assms(4) by (simp add: fread_full)
  moreover have "is_elf (take hdr_size f)" "is_class64 (take hdr_size f)"
    using im by (simp_all add: is_elf_def is_class64_def hdr_size_def)
  ultimately show ?thesis using assms
    by (cases "d_elf s") (simp add: load_def Let_def read_sections_image split: option.split)
qed

end
