(* ===== verification/Sdb_Main.thy ===== *)
theory Sdb_Main
  imports Sdb_Run
begin

text \<open>
  The command language of \<open>project4/hw4.cpp\<close>: \<open>split\<close>, the dispatch of \<open>main\<close>, its argument loop and
  its two input modes (a script, which ends in \<open>quit\<close>, and standard input, which does not).
\<close>

subsection \<open>Commands\<close>

definition split :: "string \<Rightarrow> string list" where
  "split cmd_line = words_of cmd_line"

definition nth_arg :: "nat \<Rightarrow> string list \<Rightarrow> string" where
  "nth_arg n table = (if n < length table then table ! n else [])"

definition dispatch :: "'w kernel \<Rightarrow> string \<Rightarrow> string \<Rightarrow> string \<Rightarrow> 'w sdb \<Rightarrow> 'w sdb outcome" where
  "dispatch K cmd arg1 arg2 s =
     (if cmd = ''break'' \<or> cmd = ''b'' then bp K (strtoul16 arg1) s
      else if cmd = ''cont'' \<or> cmd = ''c'' then cont K s
      else if cmd = ''delete'' then
        if arg1 = [] then Ok (say [line ''**   No bp id is given!''] s) else del K (atoi arg1) s
      else if cmd = ''disasm'' \<or> cmd = ''d'' then disasm K (strtoul16 arg1) DISASM_MAX s
      else if cmd = ''dump'' \<or> cmd = ''x'' then dump K (strtoul16 arg1) s
      else if cmd = ''exit'' \<or> cmd = ''q'' then quit K s
      else if cmd = ''get'' \<or> cmd = ''g'' then get K arg1 s
      else if cmd = ''getregs'' then getregs K s
      else if cmd = ''help'' \<or> cmd = ''h'' then Ok (help_cmd s)
      else if cmd = ''list'' \<or> cmd = ''l'' then Ok (list_cmd s)
      else if cmd = ''load'' then load K arg1 (s\<lparr>d_path := arg1\<rparr>)
      else if cmd = ''run'' \<or> cmd = ''r'' then run K s
      else if cmd = ''vmmap'' \<or> cmd = ''m'' then vmmap K s
      else if cmd = ''set'' \<or> cmd = ''s'' then set_reg K arg1 (strtoul16 arg2) s
      else if cmd = ''si'' then si K s
      else if cmd = ''start'' then start K s
      else Ok (warn [line ''**   Non Defined Command!''] s))"

definition exec_line :: "'w kernel \<Rightarrow> string \<Rightarrow> 'w sdb \<Rightarrow> 'w sdb outcome" where
  "exec_line K cmd_line s =
     (let table = split cmd_line
      in dispatch K (nth_arg 0 table) (nth_arg 1 table) (nth_arg 2 table) s)"

subsection \<open>\<open>main\<close>\<close>

text \<open>
  The argument loop. \<open>-s\<close> takes the next argument as the script (a null pointer made a string
  when there is none); a script that does not open leaves the stream closed, and opening a second
  one on the open stream fails and leaves nothing to read.
\<close>

definition script_lines :: "u8 list \<Rightarrow> string list" where
  "script_lines f = map (takeWhile (\<lambda>c. c \<noteq> newline)) (file_lines (map char_of_byte f))"

fun main_args :: "'w kernel \<Rightarrow> string list \<Rightarrow> string list option \<Rightarrow> 'w sdb \<Rightarrow>
    ('w sdb \<times> string list option) outcome" where
  "main_args K [] script s = Ok (s, script)"
| "main_args K (a # as) script s =
     (if a = ''-s'' then
        (case as of
           [] \<Rightarrow> Undef
         | p # as' \<Rightarrow>
             main_args K as'
               (case script of
                  Some _ \<Rightarrow> Some []
                | None \<Rightarrow> (case k_open K (d_w s) (''./'' @ p) of Inl e \<Rightarrow> None | Inr f \<Rightarrow> Some (script_lines f)))
               s)
      else andthen (load K a (s\<lparr>d_path := a\<rparr>)) (main_args K as script) (\<lambda>s. (s, script)))"

text \<open>The command loop on a script, which ends in \<open>quit\<close>, and one round of it at the prompt.\<close>

fun run_script :: "'w kernel \<Rightarrow> string list \<Rightarrow> 'w sdb \<Rightarrow> 'w sdb outcome" where
  "run_script K [] s = quit K s"
| "run_script K (l # ls) s = seq (exec_line K l s) (run_script K ls)"

definition prompt_step :: "'w kernel \<Rightarrow> string \<Rightarrow> 'w sdb \<Rightarrow> 'w sdb outcome" where
  "prompt_step K l s = exec_line K l (say [put ''sdb> ''] s)"

text \<open>
  \<open>getline(cin, cmd_line)\<close> on what is left of standard input, \<open>ended\<close> telling whether a line that ran into
  the end has been read. The first failure empties the line; on an input whose last line has no newline
  the stream is at its end already, nothing is extracted, and \<open>cmd_line\<close> keeps that last line.
\<close>

definition read_prompt :: "string \<Rightarrow> string list \<Rightarrow> bool \<Rightarrow> string \<times> string list \<times> bool" where
  "read_prompt cmd_line raws ended =
     (case raws of
        raw # raws' \<Rightarrow> (takeWhile (\<lambda>c. c \<noteq> newline) raw, raws', newline \<notin> set raw)
      | [] \<Rightarrow> (if ended then cmd_line else [], [], True))"

text \<open>
  The result of \<open>getline\<close> is not looked at: the loop is left by \<open>exit\<close>, stays in a line that waits for
  ever (\<open>Blocked\<close>), or runs for ever (\<open>None\<close>).
\<close>

partial_function (option) run_prompt ::
  "'w kernel \<Rightarrow> string \<Rightarrow> string list \<Rightarrow> bool \<Rightarrow> 'w sdb \<Rightarrow> 'w sdb outcome option" where
  "run_prompt K cmd_line raws ended s =
     (case read_prompt cmd_line raws ended of (l, raws', ended') \<Rightarrow>
        (case prompt_step K l s of
           Ok t \<Rightarrow> run_prompt K l raws' ended' t
         | Exit n t \<Rightarrow> Some (Exit n t)
         | Undef \<Rightarrow> Some Undef
         | Blocked \<Rightarrow> Some Blocked))"

text \<open>
  \<open>main\<close> with the arguments after the program name, on all of standard input: in script mode it is not
  read.
\<close>

definition main :: "'w kernel \<Rightarrow> string list \<Rightarrow> string \<Rightarrow> 'w sdb \<Rightarrow> 'w sdb outcome option" where
  "main K args input s =
     (case main_args K args None s of
        Ok (t, Some ls) \<Rightarrow> Some (run_script K ls t)
      | Ok (t, None) \<Rightarrow> run_prompt K [] (file_lines input) False t
      | Exit n p \<Rightarrow> Some (Exit n (fst p))
      | Undef \<Rightarrow> Some Undef
      | Blocked \<Rightarrow> Some Blocked)"

end
