(* ===== verification/Sdb_Inv.thy ===== *)
theory Sdb_Inv
  imports Sdb_Main
begin

text \<open>
  What every command of the debugger keeps, whatever the kernel answers: the shape of the
  breakpoint list, the sizes of the header buffers, which states go with a process id, and the
  fill character of the error stream. One lemma per operation says where it can end.
\<close>

subsection \<open>Frames\<close>

definition frame :: "'w sdb \<Rightarrow> 'w sdb \<Rightarrow> bool" where
  "frame s t \<longleftrightarrow> d_state t = d_state s \<and> d_path t = d_path s \<and> d_pid t = d_pid s \<and> d_elf t = d_elf s \<and>
     os_fill (d_err t) = os_fill (d_err s)"

lemma frame_refl [simp]: "frame s s"
  by (simp add: frame_def)

lemma frame_trans: "frame s t \<Longrightarrow> frame t u \<Longrightarrow> frame s u"
  by (simp add: frame_def)

lemma frame_say [simp]: "frame s (say fs t) = frame s t" "frame (say fs s) t = frame s t"
  by (simp_all add: frame_def)

lemma frame_w [simp]: "frame s (t\<lparr>d_w := w\<rparr>) = frame s t" "frame s (t\<lparr>d_bps := bs\<rparr>) = frame s t"
  by (simp_all add: frame_def)

lemma ends_in_error [simp]: "ends_in (error K f e s) P = P (say [put ''** FUNC ['', put f, put ''] ERROR:'',
    put (k_strerror K e)] s)"
  by (simp add: error_def)

lemma print_insn_fill: "os_fill (print_insn i os) = os_fill os"
  by (simp add: print_insn_def)

lemma print_insns_fill: "os_fill (chain (map print_insn is) os) = os_fill os"
  by (induction "is" arbitrary: os) (simp_all add: print_insn_fill)

lemma getcode_frame: "getcode K s = (n, t) \<Longrightarrow> frame s t \<and> d_bps t = d_bps s \<and> d_w t = d_w s"
  by (auto simp: getcode_def frame_def Let_def split: sum.splits)

lemma disasm_ends:
  "ends_in (disasm K a n s) (\<lambda>t. frame s t \<and> d_bps t = d_bps s \<and> d_w t = d_w s)"
proof -
  have fin: "ends_in (case d_code u of None \<Rightarrow> Undef
         | Some buf \<Rightarrow>
             if off < 0 \<or> int (length buf) < off then Undef
             else case k_cs_open K (d_w u) of
                 Some e \<Rightarrow> error K ''cs_open'' e u
               | None \<Rightarrow>
                   (case k_cs_disasm K (drop (nat off) buf) (d_code_size u) a n of
                      None \<Rightarrow> Undef
                    | Some insns \<Rightarrow>
                        if list_ex (\<lambda>i. 16 < length (i_bytes i)) insns then Undef
                        else if insns = [] then Ok (say [line ''**   Can not disassemble code!''] u)
                        else Ok (warn (map print_insn insns) u)))
      (\<lambda>t. frame s t \<and> d_bps t = d_bps s \<and> d_w t = d_w s)"
    if "frame s u \<and> d_bps u = d_bps s \<and> d_w u = d_w s" for u off
    using that
    by (simp add: Let_def frame_def print_insns_fill split: option.split)
  show ?thesis
  proof (cases "d_code s")
    case None
    obtain n t where g: "getcode K s = (n, t)" by (cases "getcode K s")
    then have "frame s (t\<lparr>d_code_size := n\<rparr>) \<and> d_bps (t\<lparr>d_code_size := n\<rparr>) = d_bps s \<and>
        d_w (t\<lparr>d_code_size := n\<rparr>) = d_w s"
      using getcode_frame [OF g] by (simp add: frame_def)
    from fin [OF this] None g show ?thesis by (simp add: disasm_def Let_def)
  next
    case (Some buf)
    have "frame s s \<and> d_bps s = d_bps s \<and> d_w s = d_w s" by simp
    from fin [OF this] Some show ?thesis by (simp add: disasm_def Let_def)
  qed
qed

subsection \<open>Breakpoint commands\<close>

definition same_or_new :: "u64 \<Rightarrow> bp_t list \<Rightarrow> bp_t list \<Rightarrow> bool" where
  "same_or_new a bs bs' \<longleftrightarrow> bs' = bs \<or>
     (a \<noteq> 0 \<and> a \<notin> bp_addr ` set bs \<and>
      (\<exists>c. byte_of c 0 \<noteq> 0xcc \<and> bs' = bs @ [\<lparr>bp_id = int (length bs), bp_addr = a, bp_orig = c\<rparr>]))"

lemma same_or_new_intros [simp]:
  "same_or_new a bs bs"
  "a \<noteq> 0 \<Longrightarrow> a \<notin> bp_addr ` set bs \<Longrightarrow> byte_of c 0 \<noteq> 0xcc \<Longrightarrow>
   same_or_new a bs (bs @ [\<lparr>bp_id = int (length bs), bp_addr = a, bp_orig = c\<rparr>])"
  by (simp_all add: same_or_new_def)

lemma bp_ends: "ends_in (bp K a s) (\<lambda>t. frame s t \<and> same_or_new a (d_bps s) (d_bps t))"
proof -
  have new: "ends_in (disasm K a n (say fs (s\<lparr>d_w := w, d_bps := bs\<rparr>)))
      (\<lambda>t. frame s t \<and> same_or_new a (d_bps s) (d_bps t))"
    if "same_or_new a (d_bps s) bs" for n fs w bs
    by (rule ends_in_mono [OF disasm_ends]) (use that in \<open>auto simp: frame_def\<close>)
  show ?thesis
    by (auto simp: bp_def Let_def list_ex_iff low_byte_and split: sum.split intro!: new same_or_new_intros(2))
qed

lemma chkbp_loop_ends:
  "ends_in (chkbp_loop K ip i s) (\<lambda>t. frame s t \<and> d_bps t = d_bps s)"
proof (induction K ip i s rule: chkbp_loop.induct)
  case (1 K ip i s)
  show ?case
  proof (cases "i < length (d_bps s)")
    case True
    let ?m = "if ip < bp_addr (d_bps s ! i) then bp K (bp_addr (d_bps s ! i)) s else Ok s"
    have mem: "bp_addr (d_bps s ! i) \<in> bp_addr ` set (d_bps s)" using True by simp
    have first: "ends_in ?m (\<lambda>t. frame s t \<and> d_bps t = d_bps s)"
      using bp_ends [of K "bp_addr (d_bps s ! i)" s] mem
      by (auto simp: same_or_new_def intro: ends_in_mono)
    show ?thesis
    proof (cases ?m)
      case (Ok t)
      then have t: "frame s t \<and> d_bps t = d_bps s" using first by simp
      have "ends_in (chkbp_loop K ip (Suc i) t) (\<lambda>u. frame t u \<and> d_bps u = d_bps t)"
        using "1.IH" [OF True] Ok by blast
      then have "ends_in (chkbp_loop K ip (Suc i) t) (\<lambda>u. frame s u \<and> d_bps u = d_bps s)"
        using t by (auto intro: ends_in_mono frame_trans)
      then show ?thesis using True Ok by (simp add: chkbp_loop.simps [of K ip i s])
    qed (use True first in \<open>simp_all add: chkbp_loop.simps [of K ip i s]\<close>)
  qed (simp add: chkbp_loop.simps [of K ip i s])
qed

lemma chkbp_ends: "ends_in (chkbp K s) (\<lambda>t. frame s t \<and> d_bps t = d_bps s)"
  by (simp add: chkbp_def chkbp_loop_ends split: sum.split)

lemma del_ends:
  "ends_in (del K n s) (\<lambda>t. frame s t \<and> (d_bps t = d_bps s \<or> d_bps t = remove_at (nat n) (d_bps s)))"
proof -
  have "ends_in (seq (disasm K a 1 (say fs s))
      (\<lambda>s. case k_poke K (d_w s) (d_pid s) a c of
          Inl e \<Rightarrow> error K ''ptrace(PTRACE_POKETEXT)'' e s
        | Inr w \<Rightarrow> Ok (s\<lparr>d_w := w, d_bps := remove_at (nat n) (d_bps s)\<rparr>)))
     (\<lambda>t. frame s t \<and> (d_bps t = d_bps s \<or> d_bps t = remove_at (nat n) (d_bps s)))" for a c fs
    using disasm_ends [of K a 1 "say fs s"]
    by (cases "disasm K a 1 (say fs s)") (auto split: sum.split)
  then show ?thesis by (simp add: del_def Let_def)
qed

subsection \<open>Running\<close>

definition stopped_or_same :: "'w sdb \<Rightarrow> 'w sdb \<Rightarrow> bool" where
  "stopped_or_same s t \<longleftrightarrow> d_path t = d_path s \<and> d_elf t = d_elf s \<and> d_bps t = d_bps s \<and>
     os_fill (d_err t) = os_fill (d_err s) \<and>
     (d_state t = d_state s \<and> d_pid t = d_pid s \<or> d_state t = LOADED \<and> d_pid t = 0)"

lemma seq_ends:
  assumes "ends_in m P" "\<And>s. P s \<Longrightarrow> Q s" "\<And>s. P s \<Longrightarrow> ends_in (f s) Q"
  shows "ends_in (seq m f) Q"
  using assms by (cases m) simp_all

lemma chkstat_scan_ends:
  "ends_in (chkstat_scan K bs r s) (\<lambda>t. frame s t \<and> d_bps t = d_bps s)"
proof (induction bs arbitrary: r s)
  case (Cons b bs)
  let ?P = "\<lambda>t. frame s t \<and> d_bps t = d_bps s"
  let ?s1 = "say [put ''**   hit bp @ ''] s"
  have rest: "ends_in (chkstat_scan K bs r' u) ?P" if "?P u" for r' u
    by (rule ends_in_mono [OF Cons.IH]) (use that in \<open>auto simp: frame_def\<close>)
  have "ends_in (seq (disasm K (bp_addr b) 1 ?s1)
          (\<lambda>s. case k_poke K (d_w s) (d_pid s) (bp_addr b) (bp_orig b) of
              Inl e \<Rightarrow> error K ''ptrace(PTRACE_POKETEXT)'' e s
            | Inr w \<Rightarrow>
                let s = s\<lparr>d_w := w\<rparr>; r' = r\<lparr>rip := rip r - 1\<rparr> in
                (case k_setregs K (d_w s) (d_pid s) r' of
                   Inl e \<Rightarrow> error K ''ptrace(PTRACE_SETREGS)'' e s
                 | Inr w \<Rightarrow> chkstat_scan K bs r' (s\<lparr>d_w := w\<rparr>)))) ?P"
  proof (rule seq_ends [OF disasm_ends])
    fix u assume "frame ?s1 u \<and> d_bps u = d_bps ?s1 \<and> d_w u = d_w ?s1"
    then have u: "?P u" by simp
    then show "?P u" .
    show "ends_in (case k_poke K (d_w u) (d_pid u) (bp_addr b) (bp_orig b) of
              Inl e \<Rightarrow> error K ''ptrace(PTRACE_POKETEXT)'' e u
            | Inr w \<Rightarrow>
                let s = u\<lparr>d_w := w\<rparr>; r' = r\<lparr>rip := rip r - 1\<rparr> in
                (case k_setregs K (d_w s) (d_pid s) r' of
                   Inl e \<Rightarrow> error K ''ptrace(PTRACE_SETREGS)'' e s
                 | Inr w \<Rightarrow> chkstat_scan K bs r' (s\<lparr>d_w := w\<rparr>))) ?P"
      using u rest by (simp add: Let_def split: sum.split)
  qed
  then show ?case using rest [of s r]
    by (cases "bp_addr b = rip r - 1") (simp_all only: chkstat_scan.simps if_True if_False refl simp_thms frame_refl)
qed simp

lemma chkstat_ends: "ends_in (chkstat K s) (stopped_or_same s)"
proof -
  have "ends_in (chkstat_scan K (d_bps u) r u) (stopped_or_same s)" if "stopped_or_same s u" for u r
    using chkstat_scan_ends [of K "d_bps u" r u]
    by (rule ends_in_mono) (use that in \<open>auto simp: stopped_or_same_def frame_def\<close>)
  then show ?thesis
    by (simp add: chkstat_def Let_def split: option.split sum.split prod.split)
      (simp add: stopped_or_same_def)
qed

lemma resume_ends:
  "ends_in (seq (chkbp K s)
        (\<lambda>s. case go (d_w s) (d_pid s) of
            Inl e \<Rightarrow> error K name e s
          | Inr w \<Rightarrow> chkstat K (s\<lparr>d_w := w\<rparr>))) (stopped_or_same s)"
proof (rule seq_ends [OF chkbp_ends])
  fix t assume t: "frame s t \<and> d_bps t = d_bps s"
  then show "stopped_or_same s t" by (simp add: stopped_or_same_def frame_def)
  have "ends_in (chkstat K (t\<lparr>d_w := w\<rparr>)) (stopped_or_same s)" for w
    using chkstat_ends [of K "t\<lparr>d_w := w\<rparr>"]
    by (rule ends_in_mono) (use t in \<open>auto simp: stopped_or_same_def frame_def\<close>)
  then show "ends_in (case go (d_w t) (d_pid t) of
            Inl e \<Rightarrow> error K name e t
          | Inr w \<Rightarrow> chkstat K (t\<lparr>d_w := w\<rparr>)) (stopped_or_same s)"
    using t by (simp add: stopped_or_same_def frame_def split: sum.split)
qed

lemma cont_ends: "ends_in (cont K s) (stopped_or_same s)"
  using resume_ends [where go = "k_cont K"] by (simp add: cont_def stopped_or_same_def)

lemma si_ends: "ends_in (si K s) (stopped_or_same s)"
  using resume_ends [where go = "k_step K"] by (simp add: si_def stopped_or_same_def)

subsection \<open>Loading and starting\<close>

definition hdr_ok :: "'w sdb \<Rightarrow> bool" where
  "hdr_ok s \<longleftrightarrow> length (ehdr (d_elf s)) = hdr_size \<and> length (str_shdr (d_elf s)) = hdr_size \<and>
     length (text_shdr (d_elf s)) = hdr_size"

lemma find_text_length:
  "find_text k f pos tmp tab = Some (Some h) \<Longrightarrow> length tmp \<le> hdr_size \<Longrightarrow> length h = hdr_size"
proof (induction k arbitrary: pos tmp)
  case (Suc k)
  obtain tmp' pos' where fr: "fread tmp hdr_size f pos = (tmp', pos')" by (cases "fread tmp hdr_size f pos")
  then have len: "length tmp' \<le> hdr_size" using Suc.prems(2)
    by (auto simp: fread_def Let_def min_def)
  show ?case
  proof (cases "strcmp_eq (drop (sh_name tmp') tab) ''.text''")
    case (Some e)
    with Suc.prems(1) fr len Suc.IH [of pos' tmp'] show ?thesis
      by (cases e) (auto split: if_splits)
  qed (use Suc.prems(1) fr in \<open>auto split: if_splits\<close>)
qed simp

lemma read_sections_ok:
  assumes "read_sections e f pos = Some e'" "length (str_shdr e) = hdr_size" "length (text_shdr e) = hdr_size"
  shows "ehdr e' = ehdr e \<and> length (str_shdr e') = hdr_size \<and> length (text_shdr e') = hdr_size"
proof -
  let ?sh = "fread (str_shdr e) hdr_size f (fseek (str_shdr_offset (ehdr e)) pos)"
  have "length (fst ?sh) = hdr_size" using assms(2) by (rule length_fread)
  with assms show ?thesis
    by (auto simp: read_sections_def Let_def split: prod.splits option.splits dest!: find_text_length)
qed

definition loaded_or_same :: "'w sdb \<Rightarrow> 'w sdb \<Rightarrow> bool" where
  "loaded_or_same s t \<longleftrightarrow> d_pid t = d_pid s \<and> d_bps t = d_bps s \<and> d_path t = d_path s \<and> d_w t = d_w s \<and>
     d_code t = d_code s \<and> d_err t = d_err s \<and> (d_state t = d_state s \<or> d_state t = LOADED) \<and> (hdr_ok s \<longrightarrow> hdr_ok t)"

lemma load_ends: "ends_in (load K path s) (loaded_or_same s)"
proof (cases "d_state s = LOADED")
  case True
  then show ?thesis by (simp add: load_def loaded_or_same_def hdr_ok_def Let_def)
next
  case False
  show ?thesis
  proof (cases "k_open K (d_w s) path")
    case (Inl e)
    with False show ?thesis by (simp add: load_def loaded_or_same_def hdr_ok_def Let_def)
  next
    case (Inr f)
    obtain h pos where fr: "fread (ehdr (d_elf s)) hdr_size f 0 = (h, pos)"
      by (cases "fread (ehdr (d_elf s)) hdr_size f 0")
    then have len: "length (ehdr (d_elf s)) = hdr_size \<Longrightarrow> length h = hdr_size"
      using length_fread [of "ehdr (d_elf s)" hdr_size f 0] by simp
    let ?e = "d_elf s\<lparr>str_tab := None, ehdr := h\<rparr>"
    have "ends_in (load K path s) (loaded_or_same s)"
      if "read_sections ?e f pos = Some e'" for e'
    proof -
      have "hdr_ok s \<Longrightarrow> ehdr e' = h \<and> length (str_shdr e') = hdr_size \<and> length (text_shdr e') = hdr_size"
        using read_sections_ok [OF that] by (simp add: hdr_ok_def)
      with that False Inr fr len show ?thesis
        by (simp add: load_def loaded_or_same_def hdr_ok_def Let_def)
    qed
    moreover have "ends_in (load K path s) (loaded_or_same s)" if "read_sections ?e f pos = None"
      using that False Inr fr len by (simp add: load_def loaded_or_same_def hdr_ok_def Let_def)
    ultimately show ?thesis by (cases "read_sections ?e f pos") auto
  qed
qed

text \<open>\<open>fork\<close> gives the parent a process id that is not 0.\<close>

definition fork_parent :: "'w kernel \<Rightarrow> bool" where
  "fork_parent K \<longleftrightarrow> (\<forall>w path p w'. k_fork_exec K w path = Inr (p, w') \<longrightarrow> p \<noteq> 0)"

definition started_or_same :: "'w kernel \<Rightarrow> 'w sdb \<Rightarrow> 'w sdb \<Rightarrow> bool" where
  "started_or_same K s t \<longleftrightarrow> d_path t = d_path s \<and> d_elf t = d_elf s \<and> d_bps t = d_bps s \<and>
     os_fill (d_err t) = os_fill (d_err s) \<and>
     (d_state t = d_state s \<or> d_state s = LOADED \<and> d_state t = RUNNING \<and> (fork_parent K \<longrightarrow> d_pid t \<noteq> 0)) \<and>
     (d_state s \<noteq> LOADED \<longrightarrow> d_pid t = d_pid s)"

lemma start_ends: "ends_in (start K s) (started_or_same K s)"
proof (cases "k_fork_exec K (d_w s) (d_path s)")
  case (Inr pw)
  obtain p w where pw: "pw = (p, w)" by (cases pw)
  with Inr have "fork_parent K \<Longrightarrow> p \<noteq> 0" unfolding fork_parent_def by blast
  with Inr pw show ?thesis
    by (simp add: start_def started_or_same_def Let_def split: option.split sum.split prod.split)
qed (simp add: start_def started_or_same_def)

subsection \<open>The invariant\<close>

text \<open>
  No address twice and none of them 0, no saved word that starts with a trap byte, and no entry
  whose id is below its index.
\<close>

definition bps_ok :: "bp_t list \<Rightarrow> bool" where
  "bps_ok bs \<longleftrightarrow> distinct (map bp_addr bs) \<and> list_all (\<lambda>b. bp_addr b \<noteq> 0 \<and> byte_of (bp_orig b) 0 \<noteq> 0xcc) bs \<and>
     list_all (\<lambda>(i, b). int i \<le> bp_id b) (enumerate 0 bs)"

lemma bps_ok_new:
  "bps_ok bs \<Longrightarrow> a \<noteq> 0 \<Longrightarrow> a \<notin> bp_addr ` set bs \<Longrightarrow> byte_of c 0 \<noteq> 0xcc \<Longrightarrow>
   bps_ok (bs @ [\<lparr>bp_id = int (length bs), bp_addr = a, bp_orig = c\<rparr>])"
  by (simp add: bps_ok_def enumerate_append_eq)

lemma ids_ge_iff: "list_all (\<lambda>(i, b). int i \<le> bp_id b) (enumerate 0 bs) \<longleftrightarrow> (\<forall>i<length bs. int i \<le> bp_id (bs ! i))"
  by (auto simp: list_all_length nth_enumerate_eq)

lemma nth_remove_at: "i < length (remove_at n xs) \<Longrightarrow> remove_at n xs ! i = xs ! (if i < n then i else Suc i)"
  by (auto simp: remove_at_def nth_append min_def)

lemma bps_ok_remove_at: "bps_ok bs \<Longrightarrow> bps_ok (remove_at n bs)"
proof -
  assume b: "bps_ok bs"
  have "int i \<le> bp_id (remove_at n bs ! i)" if i: "i < length (remove_at n bs)" for i
  proof -
    let ?j = "if i < n then i else Suc i"
    have "?j < length bs" using i by (auto simp: remove_at_def min_def split: if_splits)
    then have "int ?j \<le> bp_id (bs ! ?j)" using b unfolding bps_ok_def ids_ge_iff by blast
    with i show ?thesis by (simp add: nth_remove_at split: if_splits)
  qed
  moreover have "list_all P (remove_at n bs)" if "list_all P bs" for P
    using that set_remove_at [of n bs] by (auto simp: list_all_iff)
  ultimately show ?thesis using b
    by (simp add: bps_ok_def ids_ge_iff map_remove_at distinct_remove_at)
qed

definition sdb_inv :: "'w sdb \<Rightarrow> bool" where
  "sdb_inv s \<longleftrightarrow> bps_ok (d_bps s) \<and> hdr_ok s \<and>
     (d_state s = RUNNING \<longrightarrow> d_pid s \<noteq> 0) \<and> (d_state s = NONLOAD \<longrightarrow> d_pid s = 0 \<and> d_bps s = [])"

lemma sdb_inv_init: "sdb_inv (sdb0 w)"
  by (simp add: sdb_inv_def bps_ok_def sdb0_def hdr_ok_def elf0_def)

lemma sdb_inv_frame:
  "sdb_inv s \<Longrightarrow> frame s t \<Longrightarrow> d_bps t = d_bps s \<Longrightarrow> sdb_inv t"
  by (simp add: sdb_inv_def frame_def hdr_ok_def)

lemma sdb_inv_same_or_new:
  "sdb_inv s \<Longrightarrow> d_state s = RUNNING \<Longrightarrow> frame s t \<Longrightarrow> same_or_new a (d_bps s) (d_bps t) \<Longrightarrow> sdb_inv t"
  by (auto simp: sdb_inv_def frame_def hdr_ok_def same_or_new_def bps_ok_new)

lemma sdb_inv_removed:
  assumes "sdb_inv s" "d_state s = RUNNING" "frame s t" "d_bps t = remove_at n (d_bps s)"
  shows "sdb_inv t"
  using assms by (simp add: sdb_inv_def frame_def hdr_ok_def bps_ok_remove_at)

lemma sdb_inv_stopped: "sdb_inv s \<Longrightarrow> d_state s \<noteq> NONLOAD \<Longrightarrow> stopped_or_same s t \<Longrightarrow> sdb_inv t"
  by (auto simp: sdb_inv_def stopped_or_same_def hdr_ok_def)

lemma sdb_inv_loaded: "sdb_inv s \<Longrightarrow> loaded_or_same s t \<Longrightarrow> sdb_inv t"
  by (auto simp: sdb_inv_def loaded_or_same_def)

lemma sdb_inv_started: "fork_parent K \<Longrightarrow> sdb_inv s \<Longrightarrow> started_or_same K s t \<Longrightarrow> sdb_inv t"
  by (auto simp: sdb_inv_def started_or_same_def hdr_ok_def)

text \<open>The commands that print only.\<close>

lemma show_ends:
  "ends_in (get K r s) (\<lambda>t. frame s t \<and> d_bps t = d_bps s)"
  "ends_in (set_reg K r v s) (\<lambda>t. frame s t \<and> d_bps t = d_bps s)"
  by (simp_all add: get_def set_reg_def frame_def split: sum.split option.split prod.split)

lemma chain_append: "chain (fs @ gs) os = chain gs (chain fs os)"
  by simp

lemma reg_cell_fill [simp]: "os_fill (chain (reg_cell name v sep) os) = os_fill os"
  by (simp add: reg_cell_def)

lemma getregs_ends:
  assumes "os_fill (d_err s) = CHR '' ''"
  shows "ends_in (getregs K s) (\<lambda>t. frame s t \<and> d_bps t = d_bps s)"
  using assms by (simp add: getregs_def frame_def split: sum.split)

subsection \<open>Every command keeps the invariant\<close>

lemma sdb_inv_core: "core t = core s \<Longrightarrow> sdb_inv t = sdb_inv s"
  by (simp add: sdb_inv_def core_def hdr_ok_def)

lemma sdb_inv_say [simp]: "sdb_inv (say fs s) = sdb_inv s"
  by (rule sdb_inv_core) simp

lemma sdb_inv_warn [simp]: "sdb_inv (warn fs s) = sdb_inv s"
  by (rule sdb_inv_core) simp

lemma sdb_inv_path [simp]: "sdb_inv (s\<lparr>d_path := p\<rparr>) = sdb_inv s"
  by (simp add: sdb_inv_def hdr_ok_def)

lemma shown_core:
  "ends_in (dump K a s) (\<lambda>t. core t = core s)" "ends_in (vmmap K s) (\<lambda>t. core t = core s)"
  "ends_in (getregs K s) (\<lambda>t. core t = core s)" "core (help_cmd s) = core s" "core (list_cmd s) = core s"
  by (simp_all add: dump_def vmmap_def getregs_def help_cmd_def list_cmd_def split: sum.split)

lemmas keep_core = sdb_inv_core [THEN iffD2]

lemma disasm_frame: "ends_in (disasm K a n s) (\<lambda>t. frame s t \<and> d_bps t = d_bps s)"
  by (rule ends_in_mono [OF disasm_ends]) simp

lemma sdb_inv_bp: "sdb_inv s \<Longrightarrow> ends_in (bp K a s) sdb_inv"
proof (cases "d_state s = RUNNING")
  case True
  assume "sdb_inv s"
  with True show ?thesis
    by (intro ends_in_mono [OF bp_ends]) (blast intro: sdb_inv_same_or_new)
qed (simp add: bp_def)

lemma sdb_inv_del: "sdb_inv s \<Longrightarrow> ends_in (del K n s) sdb_inv"
proof (cases "d_state s = RUNNING")
  case True
  assume "sdb_inv s"
  with True show ?thesis
    by (intro ends_in_mono [OF del_ends]) (blast intro: sdb_inv_removed sdb_inv_frame)
qed (simp add: del_def)

lemma sdb_inv_cont: "sdb_inv s \<Longrightarrow> ends_in (cont K s) sdb_inv"
proof (cases "d_state s = NONLOAD")
  case False
  assume "sdb_inv s"
  with False show ?thesis by (intro ends_in_mono [OF cont_ends]) (rule sdb_inv_stopped)
qed (simp add: cont_def)

lemma sdb_inv_si: "sdb_inv s \<Longrightarrow> ends_in (si K s) sdb_inv"
proof (cases "d_state s = NONLOAD")
  case False
  assume "sdb_inv s"
  with False show ?thesis by (intro ends_in_mono [OF si_ends]) (rule sdb_inv_stopped)
qed (simp add: si_def)

lemma sdb_inv_start: "fork_parent K \<Longrightarrow> sdb_inv s \<Longrightarrow> ends_in (start K s) sdb_inv"
  by (rule ends_in_mono [OF start_ends]) (rule sdb_inv_started)

lemma sdb_inv_run: "fork_parent K \<Longrightarrow> sdb_inv s \<Longrightarrow> ends_in (run K s) sdb_inv"
  by (simp add: run_def sdb_inv_cont seq_ends [OF sdb_inv_start])

lemma sdb_inv_load: "sdb_inv s \<Longrightarrow> ends_in (load K path s) sdb_inv"
  by (rule ends_in_mono [OF load_ends]) (rule sdb_inv_loaded)

text \<open>
  \<open>quit\<close> kills the process, sets its id to 0 and exits: the state variable is left as it is, so the
  invariant is the running debugger's and not the exited one's.
\<close>

definition ok_in :: "'s outcome \<Rightarrow> ('s \<Rightarrow> bool) \<Rightarrow> bool" where
  "ok_in m P \<longleftrightarrow> (\<forall>s. m = Ok s \<longrightarrow> P s)"

lemma ok_inI: "ends_in m P \<Longrightarrow> ok_in m P"
  by (cases m) (simp_all add: ok_in_def)

lemma ok_in_simps [simp]: "ok_in (Ok s) P = P s" "ok_in (Exit c s) P" "ok_in Undef P" "ok_in Blocked P"
  by (simp_all add: ok_in_def)

lemma ok_in_core: "ends_in m (\<lambda>t. core t = core s) \<Longrightarrow> sdb_inv s \<Longrightarrow> ok_in m sdb_inv"
  by (rule ok_inI, erule ends_in_mono) (erule keep_core)

lemma ok_in_frame:
  "ends_in m (\<lambda>t. frame s t \<and> d_bps t = d_bps s) \<Longrightarrow> sdb_inv s \<Longrightarrow> ok_in m sdb_inv"
  by (rule ok_inI, erule ends_in_mono) (simp only: sdb_inv_frame [of s])

lemma ok_in_if: "ok_in a P \<Longrightarrow> ok_in b P \<Longrightarrow> ok_in (if c then a else b) P"
  by simp

lemma sdb_inv_dispatch:
  assumes "fork_parent K" "sdb_inv s"
  shows "ok_in (dispatch K cmd arg1 arg2 s) sdb_inv"
proof -
  note d = ok_in_frame [OF disasm_frame assms(2)]
  note g = ok_in_frame [OF show_ends(1) assms(2)] ok_in_frame [OF show_ends(2) assms(2)]
  note c = ok_in_core [OF shown_core(1) assms(2)] ok_in_core [OF shown_core(2) assms(2)]
    ok_in_core [OF shown_core(3) assms(2)] keep_core [OF shown_core(4) assms(2)] keep_core [OF shown_core(5) assms(2)]
  have q: "ok_in (quit K s) sdb_inv" by (simp add: quit_def)
  note run = sdb_inv_bp [THEN ok_inI] sdb_inv_del [THEN ok_inI] sdb_inv_cont [THEN ok_inI]
    sdb_inv_si [THEN ok_inI] sdb_inv_start [THEN ok_inI] sdb_inv_run [THEN ok_inI] sdb_inv_load [THEN ok_inI]
  show ?thesis
    unfolding dispatch_def by (intro ok_in_if) (simp_all add: assms d g c q run)
qed

lemma sdb_inv_exec_line: "fork_parent K \<Longrightarrow> sdb_inv s \<Longrightarrow> exec_line K l s = Ok t \<Longrightarrow> sdb_inv t"
  using sdb_inv_dispatch [of K s] by (simp add: exec_line_def Let_def ok_in_def)

end
