(* ===== verification/Sdb_Session.thy ===== *)
theory Sdb_Session
  imports Sdb_Inv
begin

text \<open>
  Whole sessions of the debugger: the states the argument loop and the command loop can reach, the
  moves of the state machine \<open>NONLOAD\<close>, \<open>LOADED\<close>, \<open>RUNNING\<close> that each command allows, and how a
  session can exit.
\<close>

subsection \<open>Reachable states\<close>

inductive session :: "'w kernel \<Rightarrow> 'w sdb \<Rightarrow> bool" for K where
  started: "main_args K args None (sdb0 w) = Ok (s, script) \<Longrightarrow> session K s"
| script_line: "session K s \<Longrightarrow> exec_line K l s = Ok t \<Longrightarrow> session K t"
| prompt_line: "session K s \<Longrightarrow> prompt_step K l s = Ok t \<Longrightarrow> session K t"

inductive_cases sessionE: "session K s"

lemma main_args_inv:
  "main_args K as script s = Ok (t, script') \<Longrightarrow> sdb_inv s \<Longrightarrow> sdb_inv t"
proof (induction K as script s rule: main_args.induct)
  case (2 K a as script s)
  show ?case
  proof (cases "a = ''-s''")
    case True
    with 2 show ?thesis by (auto split: list.splits option.splits)
  next
    case False
    then obtain u where u: "load K a (s\<lparr>d_path := a\<rparr>) = Ok u" "main_args K as script u = Ok (t, script')"
      using "2.prems"(1) by (cases "load K a (s\<lparr>d_path := a\<rparr>)") auto
    have "sdb_inv u" using sdb_inv_load [of "s\<lparr>d_path := a\<rparr>" K a] u(1) "2.prems"(2) by simp
    with "2.IH"(2) [OF False] u show ?thesis by blast
  qed
qed simp

lemma prompt_inv: "fork_parent K \<Longrightarrow> sdb_inv s \<Longrightarrow> prompt_step K l s = Ok t \<Longrightarrow> sdb_inv t"
  using sdb_inv_exec_line [of K "say [put ''sdb> ''] s" l t] by (simp add: prompt_step_def)

lemma session_inv: "session K s \<Longrightarrow> fork_parent K \<Longrightarrow> sdb_inv s"
  by (induction rule: session.induct) (blast intro: main_args_inv sdb_inv_init sdb_inv_exec_line prompt_inv)+

subsection \<open>The state machine\<close>

definition moves :: "string \<Rightarrow> (dstate \<times> dstate) list" where
  "moves cmd =
     (if cmd = ''load'' then [(NONLOAD, LOADED), (RUNNING, LOADED)]
      else if cmd = ''start'' then [(LOADED, RUNNING)]
      else if cmd = ''run'' \<or> cmd = ''r'' then [(LOADED, RUNNING), (RUNNING, LOADED)]
      else if cmd = ''cont'' \<or> cmd = ''c'' \<or> cmd = ''si'' then [(RUNNING, LOADED)]
      else [])"

definition moved :: "(dstate \<times> dstate) list \<Rightarrow> 'w sdb \<Rightarrow> 'w sdb \<Rightarrow> bool" where
  "moved ms s t \<longleftrightarrow> d_state t = d_state s \<or> (d_state s, d_state t) \<in> set ms"

lemma moved_frame: "ends_in m (\<lambda>t. frame s t \<and> P t) \<Longrightarrow> ok_in m (moved ms s)"
  by (rule ok_inI, erule ends_in_mono) (simp add: moved_def frame_def)

lemma moved_core: "ends_in m (\<lambda>t. core t = core s) \<Longrightarrow> ok_in m (moved ms s)"
  by (rule ok_inI, erule ends_in_mono) (simp add: moved_def core_def)

lemma moved_core_Ok: "core t = core s \<Longrightarrow> moved ms s t"
  by (simp add: moved_def core_def)

lemma moved_say: "moved ms s (say fs s)" "moved ms s (warn fs s)"
  by (simp_all add: moved_def)

lemma moved_load: "ok_in (load K path (s\<lparr>d_path := path\<rparr>)) (moved [(NONLOAD, LOADED), (RUNNING, LOADED)] s)"
  by (rule ok_inI, rule ends_in_mono [OF load_ends])
    (cases "d_state s"; auto simp: moved_def loaded_or_same_def)

lemma moved_start: "ok_in (start K s) (moved [(LOADED, RUNNING)] s)"
  by (rule ok_inI, rule ends_in_mono [OF start_ends]) (auto simp: moved_def started_or_same_def)

lemma moved_stop: "stopped_or_same s t \<Longrightarrow> d_state s = RUNNING \<Longrightarrow> moved [(RUNNING, LOADED)] s t"
  by (auto simp: moved_def stopped_or_same_def)

lemma moved_cont: "ok_in (cont K s) (moved [(RUNNING, LOADED)] s)"
proof (cases "d_state s = RUNNING")
  case True
  then show ?thesis
    by (intro ok_inI ends_in_mono [OF cont_ends]) (rule moved_stop)
qed (simp add: cont_def moved_say)

lemma moved_si: "ok_in (si K s) (moved [(RUNNING, LOADED)] s)"
proof (cases "d_state s = RUNNING")
  case True
  then show ?thesis
    by (intro ok_inI ends_in_mono [OF si_ends]) (rule moved_stop)
qed (simp add: si_def moved_say)

lemma moved_any:
  "d_state t \<noteq> NONLOAD \<Longrightarrow> d_state s = LOADED \<Longrightarrow> moved [(LOADED, RUNNING), (RUNNING, LOADED)] s t"
  by (cases "d_state t") (auto simp: moved_def)

lemma moved_run: "ok_in (run K s) (moved [(LOADED, RUNNING), (RUNNING, LOADED)] s)"
proof (cases "d_state s")
  case NONLOAD
  then show ?thesis by (simp add: run_def moved_say)
next
  case LOADED
  have "ends_in (seq (start K s) (cont K)) (\<lambda>t. d_state t \<noteq> NONLOAD)"
  proof (rule seq_ends)
    show "ends_in (start K s) (\<lambda>t. d_state t \<noteq> NONLOAD)"
      by (rule ends_in_mono [OF start_ends]) (use LOADED in \<open>auto simp: started_or_same_def\<close>)
    show "ends_in (cont K t) (\<lambda>t. d_state t \<noteq> NONLOAD)" if "d_state t \<noteq> NONLOAD" for t
      by (rule ends_in_mono [OF cont_ends]) (use that in \<open>auto simp: stopped_or_same_def\<close>)
  qed
  then have "ends_in (run K s) (moved [(LOADED, RUNNING), (RUNNING, LOADED)] s)"
    using LOADED by (simp add: run_def) (erule ends_in_mono, erule moved_any)
  then show ?thesis by (rule ok_inI)
next
  case RUNNING
  with moved_cont [of K s] show ?thesis by (simp add: run_def ok_in_def moved_def)
qed

lemma ok_in_if_pos: "(c \<Longrightarrow> ok_in a P) \<Longrightarrow> ok_in b P \<Longrightarrow> ok_in (if c then a else b) P"
  by simp

lemma moves_simps:
  "moves ''load'' = [(NONLOAD, LOADED), (RUNNING, LOADED)]" "moves ''start'' = [(LOADED, RUNNING)]"
  "moves ''run'' = [(LOADED, RUNNING), (RUNNING, LOADED)]" "moves ''r'' = [(LOADED, RUNNING), (RUNNING, LOADED)]"
  "moves ''cont'' = [(RUNNING, LOADED)]" "moves ''c'' = [(RUNNING, LOADED)]" "moves ''si'' = [(RUNNING, LOADED)]"
  by (simp_all add: moves_def)

lemma dispatch_moves: "ok_in (dispatch K cmd arg1 arg2 s) (moved (moves cmd) s)"
proof -
  note still = moved_frame [OF bp_ends] moved_frame [OF del_ends] moved_frame [OF disasm_ends]
    moved_frame [OF show_ends(1)] moved_frame [OF show_ends(2)] moved_core [OF shown_core(1)]
    moved_core [OF shown_core(2)] moved_core [OF shown_core(3)]
  have shown: "ok_in (Ok (help_cmd s)) (moved ms s)" "ok_in (Ok (list_cmd s)) (moved ms s)"
    "ok_in (Ok (say fs s)) (moved ms s)" "ok_in (Ok (warn fs s)) (moved ms s)" "ok_in (quit K s) (moved ms s)" for ms fs
    by (simp_all add: moved_core_Ok shown_core moved_say quit_def)
  have run: "cmd = ''cont'' \<or> cmd = ''c'' \<Longrightarrow> ok_in (cont K s) (moved (moves cmd) s)"
    "cmd = ''si'' \<Longrightarrow> ok_in (si K s) (moved (moves cmd) s)"
    "cmd = ''start'' \<Longrightarrow> ok_in (start K s) (moved (moves cmd) s)"
    "cmd = ''run'' \<or> cmd = ''r'' \<Longrightarrow> ok_in (run K s) (moved (moves cmd) s)"
    "cmd = ''load'' \<Longrightarrow> ok_in (load K arg1 (s\<lparr>d_path := arg1\<rparr>)) (moved (moves cmd) s)"
    by (auto simp only: moves_simps moved_cont moved_si moved_start moved_run moved_load)
  show ?thesis
    unfolding dispatch_def by (intro ok_in_if_pos) ((rule still shown | erule run)+)
qed

subsection \<open>Exits\<close>

text \<open>
  A command other than \<open>quit\<close> exits through \<open>error\<close> only, with code -1.
\<close>

definition exits :: "'w sdb outcome \<Rightarrow> bool" where
  "exits m \<longleftrightarrow> (\<forall>c t. m = Exit c t \<longrightarrow> c = - 1)"

lemma exits_simps [simp]:
  "exits (Ok s)" "exits Undef" "exits Blocked" "exits (Exit c s) \<longleftrightarrow> c = - 1" "exits (error K f e s)"
  by (simp_all add: exits_def error_def)

lemma exits_seq: "exits m \<Longrightarrow> (\<And>s. exits (f s)) \<Longrightarrow> exits (seq m f)"
  by (cases m) simp_all

lemma exits_disasm: "exits (disasm K a n s)"
  by (simp add: disasm_def Let_def split: option.split prod.split)

lemma exits_bp: "exits (bp K a s)"
  by (simp add: bp_def Let_def exits_disasm split: sum.split)

lemma exits_chkbp_loop: "exits (chkbp_loop K ip i s)"
proof (induction K ip i s rule: chkbp_loop.induct)
  case (1 K ip i s)
  let ?m = "if ip < bp_addr (d_bps s ! i) then bp K (bp_addr (d_bps s ! i)) s else Ok s"
  have "exits ?m" by (simp add: exits_bp)
  then show ?case using 1
    by (cases ?m) (simp_all add: chkbp_loop.simps [of K ip i s])
qed

lemma exits_chkbp: "exits (chkbp K s)"
  by (simp add: chkbp_def exits_chkbp_loop split: sum.split)

lemma exits_del: "exits (del K n s)"
  by (simp add: del_def Let_def exits_seq exits_disasm split: sum.split)

lemma exits_chkstat_scan: "exits (chkstat_scan K bs r s)"
  by (induction bs arbitrary: r s) (simp_all add: Let_def exits_seq exits_disasm split: sum.split)

lemma exits_chkstat: "exits (chkstat K s)"
  by (simp add: chkstat_def Let_def exits_chkstat_scan split: option.split sum.split prod.split)

lemma exits_resume: "exits (cont K s)" "exits (si K s)"
  by (simp_all add: cont_def si_def exits_seq exits_chkbp exits_chkstat split: sum.split)

lemma exits_start: "exits (start K s)"
  by (simp add: start_def Let_def split: option.split sum.split prod.split)

lemma exits_run: "exits (run K s)"
  by (simp add: run_def exits_seq exits_start exits_resume)

lemma exits_load: "exits (load K path s)"
  by (simp add: load_def Let_def split: sum.split prod.split option.split)

lemma exits_show:
  "exits (get K r s)" "exits (set_reg K r v s)" "exits (getregs K s)" "exits (dump K a s)" "exits (vmmap K s)"
  by (simp_all add: get_def set_reg_def getregs_def dump_def vmmap_def split: sum.split option.split)

lemma exits_if: "exits a \<Longrightarrow> exits b \<Longrightarrow> exits (if c then a else b)"
  by simp

lemma exits_dispatch:
  assumes "cmd \<notin> {''exit'', ''q''}"
  shows "exits (dispatch K cmd arg1 arg2 s)"
proof -
  have "\<not> (cmd = ''exit'' \<or> cmd = ''q'')" using assms by simp
  then show ?thesis
    unfolding dispatch_def
    by (simp only: if_False)
      (intro exits_if exits_simps exits_bp exits_del exits_disasm exits_resume exits_start exits_run exits_load
        exits_show)
qed

lemma dispatch_quit: "cmd \<in> {''exit'', ''q''} \<Longrightarrow> dispatch K cmd arg1 arg2 s = quit K s"
  by (auto simp: dispatch_def)

text \<open>The lines of a script that are executed before it ends, one after the other.\<close>

fun run_lines :: "'w kernel \<Rightarrow> string list \<Rightarrow> 'w sdb \<Rightarrow> 'w sdb outcome" where
  "run_lines K [] s = Ok s"
| "run_lines K (l # ls) s = seq (exec_line K l s) (run_lines K ls)"

definition quits :: "string \<Rightarrow> bool" where
  "quits l \<longleftrightarrow> nth_arg 0 (split l) \<in> {''exit'', ''q''}"

lemma exec_line_quits: "quits l \<Longrightarrow> exec_line K l s = quit K s"
  by (simp add: exec_line_def Let_def quits_def dispatch_quit)

lemma exec_line_exits: "\<not> quits l \<Longrightarrow> exits (exec_line K l s)"
  by (simp add: exec_line_def Let_def quits_def exits_dispatch)

text \<open>A script ends in \<open>quit\<close>, after its last line or at a line that says so, or in the first line that fails.\<close>

lemma run_script_ends:
  "\<exists>k\<le>length ls. \<exists>u. run_lines K (take k ls) s = Ok u \<and>
     ((k = length ls \<or> quits (ls ! k)) \<and> run_script K ls s = quit K u \<or>
      k < length ls \<and> \<not> quits (ls ! k) \<and> run_script K ls s = exec_line K (ls ! k) u \<and>
        (\<forall>t. exec_line K (ls ! k) u \<noteq> Ok t))"
proof (induction ls arbitrary: s)
  case Nil
  show ?case by simp
next
  case (Cons l ls)
  show ?case
  proof (cases "\<exists>t. exec_line K l s = Ok t \<and> \<not> quits l")
    case True
    then obtain t where t: "exec_line K l s = Ok t" by blast
    from Cons.IH [of t] obtain k where "k \<le> length ls" "\<exists>u. run_lines K (take k ls) t = Ok u \<and>
     ((k = length ls \<or> quits (ls ! k)) \<and> run_script K ls t = quit K u \<or>
      k < length ls \<and> \<not> quits (ls ! k) \<and> run_script K ls t = exec_line K (ls ! k) u \<and>
        (\<forall>v. exec_line K (ls ! k) u \<noteq> Ok v))" by blast
    with t show ?thesis by (intro exI [of _ "Suc k"]) simp
  next
    case False
    show ?thesis
    proof (cases "quits l")
      case True
      then have "run_script K (l # ls) s = quit K s" by (simp add: exec_line_quits quit_def)
      with True show ?thesis by (intro exI [of _ 0]) simp
    next
      case nq: False
      with False have "\<And>t. exec_line K l s \<noteq> Ok t" by blast
      moreover from this have "run_script K (l # ls) s = exec_line K l s"
        by (cases "exec_line K l s") auto
      ultimately show ?thesis using nq by (intro exI [of _ 0]) simp
    qed
  qed
qed

subsection \<open>The end of standard input\<close>

lemma prompt_empty: "prompt_step K [] s = Ok (warn [line ''**   Non Defined Command!''] (say [put ''sdb> ''] s))"
  by (simp add: prompt_step_def exec_line_def split_def words_of_blank nth_arg_def dispatch_def)

text \<open>After the last line of an input that ends in a newline, the prompt goes round for ever.\<close>

lemma prompt_spins: "run_prompt K [] [] ended s = None"
proof -
  have "\<not> (cmd_line = [] \<and> raws = [])" if "run_prompt K cmd_line raws ended s = Some m"
    for K :: "'a kernel" and cmd_line raws ended s m
  proof (rule run_prompt.raw_induct [where P = "\<lambda>K cmd_line raws ended s m. \<not> (cmd_line = [] \<and> raws = [])", rotated, OF that],
      goal_cases)
    case (1 loop K cmd_line raws ended s m)
    show ?case
    proof
      assume e: "cmd_line = [] \<and> raws = []"
      then have "loop K [] [] True (warn [line ''**   Non Defined Command!''] (say [put ''sdb> ''] s)) = Some m"
        using 1(2) by (simp add: read_prompt_def prompt_empty)
      from 1(1) [OF this] show False by simp
    qed
  qed
  then show ?thesis by (cases "run_prompt K [] [] ended s") blast+
qed

text \<open>After a last line without a newline, that line is run again and again.\<close>

lemma prompt_repeats: "prompt_step K l s = Ok t \<Longrightarrow> run_prompt K l [] True s = run_prompt K l [] True t"
  by (subst run_prompt.simps) (simp add: read_prompt_def)

text \<open>The prompt is never left in the ordinary way.\<close>

lemma prompt_not_Ok: "run_prompt K l raws ended s \<noteq> Some (Ok t)"
proof
  assume "run_prompt K l raws ended s = Some (Ok t)"
  then have "Ok t \<noteq> Ok t"
  proof (rule run_prompt.raw_induct [where P = "\<lambda>K l raws ended s m. m \<noteq> Ok t", rotated], goal_cases)
    case (1 loop K l raws ended s m)
    from 1(2) show ?case by (auto split: prod.splits outcome.splits dest: 1(1))
  qed
  then show False by simp
qed

end
