(* ===== verification/Sdb_Hits.thy ===== *)
theory Sdb_Hits
  imports Sdb_Run
begin

text \<open>
  The debugger against a kernel that keeps the laws of \<open>ptrace(2)\<close>: \<open>traced\<close> relates a debugger state
  to the program's own memory, and each command is shown to keep the relation and to do to the
  tracee what it should. The laws are those of the locale \<open>debug_kernel\<close>.
\<close>

subsection \<open>The relation\<close>

definition traced :: "('w \<Rightarrow> int \<Rightarrow> tracee option) \<Rightarrow> memory \<Rightarrow> 'w sdb \<Rightarrow> tracee \<Rightarrow> bool" where
  "traced view m0 s t \<longleftrightarrow> d_state s = RUNNING \<and> view (d_w s) (d_pid s) = Some t \<and>
     overlay m0 (d_bps s) (mem t)"

lemma tracedI:
  "d_state s = RUNNING \<Longrightarrow> view (d_w s) (d_pid s) = Some t \<Longrightarrow> overlay m0 (d_bps s) (mem t) \<Longrightarrow>
   traced view m0 s t"
  by (simp add: traced_def)

lemma tracedD:
  assumes "traced view m0 s t"
  shows "d_state s = RUNNING" "view (d_w s) (d_pid s) = Some t" "overlay m0 (d_bps s) (mem t)"
  using assms by (simp_all add: traced_def)

text \<open>With no breakpoint left, the tracee runs in its own memory.\<close>

lemma traced_no_bps: "traced view m0 s t \<Longrightarrow> d_bps s = [] \<Longrightarrow> mem t = m0"
  by (simp add: traced_def overlay_none)

lemma code_ready_buf:
  assumes "d_code s \<noteq> None" "d_code s' = d_code s" "d_elf s' = d_elf s" "d_code_size s' = d_code_size s"
  shows "code_ready K s' a = code_ready K s a"
  using assms by (auto simp: code_ready_def code_of_def size_of_def)

subsection \<open>The scan for a hit\<close>

lemma chkstat_scan_miss:
  "(\<And>b. b \<in> set bs \<Longrightarrow> bp_addr b \<noteq> rip r - 1) \<Longrightarrow> chkstat_scan K bs r s = Ok s"
  by (induction bs) simp_all

lemma chkstat_scan_skip:
  "(\<And>b. b \<in> set as \<Longrightarrow> bp_addr b \<noteq> rip r - 1) \<Longrightarrow>
   chkstat_scan K (as @ bs) r s = chkstat_scan K bs r s"
  by (induction as) simp_all

context debug_kernel
begin

text \<open>
  A hit at breakpoint \<open>b\<close>: the scan writes the saved word of \<open>b\<close> back, all eight bytes of it, moves the
  program counter back to \<open>b\<close>, and does nothing at the others. A breakpoint one byte below \<open>b\<close> would
  match the moved counter, so there must be none.
\<close>

lemma scan_hit:
  assumes run: "d_state s = RUNNING" and v: "view (d_w s) (d_pid s) = Some t"
    and rd: "readable (mem t) (bp_addr b)" and ds: "distinct (map bp_addr bs)"
    and lo: "\<And>c. c \<in> set bs \<Longrightarrow> bp_addr c \<noteq> bp_addr b - 1"
    and b: "b \<in> set bs" "rip (regs t) = bp_addr b + 1" and cr: "code_ready K s (bp_addr b)"
  shows "\<exists>s' w'. chkstat_scan K bs (regs t) s = Ok s' \<and>
    core s' = (RUNNING, d_path s, d_pid s, d_bps s, d_elf s, w') \<and>
    view w' (d_pid s) = Some (t\<lparr>mem := poke_mem (mem t) (bp_addr b) (bp_orig b),
                                regs := (regs t)\<lparr>rip := bp_addr b\<rparr>\<rparr>)"
proof -
  obtain pre post where bs: "bs = pre @ b # post" using b(1) by (auto simp: in_set_conv_decomp)
  have pre: "bp_addr c \<noteq> rip (regs t) - 1" if "c \<in> set pre" for c
  proof -
    have "bp_addr b \<notin> bp_addr ` set pre" using ds by (auto simp: bs)
    with that b(2) show ?thesis by (metis add_diff_cancel_right' imageI)
  qed
  let ?r = "(regs t)\<lparr>rip := bp_addr b\<rparr>"
  have post: "bp_addr c \<noteq> rip ?r - 1" if "c \<in> set post" for c
    using lo [of c] that by (simp add: bs)
  let ?s1 = "say [put ''**   hit bp @ ''] s"
  have "code_ready K ?s1 (bp_addr b)" using cr code_ready_cong [of ?s1 s K] by simp
  then obtain s1 where d: "disasm K (bp_addr b) 1 ?s1 = Ok s1" "core s1 = core ?s1"
    using disasm_total by blast
  then have c: "d_w s1 = d_w s" "d_pid s1 = d_pid s" "d_bps s1 = d_bps s" "d_path s1 = d_path s"
    "d_elf s1 = d_elf s" "d_state s1 = RUNNING"
    using run by (simp_all add: core_def)
  from poke [OF v rd, of "bp_orig b"] obtain w1 where
    po: "k_poke K (d_w s) (d_pid s) (bp_addr b) (bp_orig b) = Inr w1" and
    v1: "view w1 (d_pid s) = Some (t\<lparr>mem := poke_mem (mem t) (bp_addr b) (bp_orig b)\<rparr>)" by blast
  from setregs [OF v1, of ?r] obtain w2 where
    se: "k_setregs K w1 (d_pid s) ?r = Inr w2" and
    v2: "view w2 (d_pid s) = Some (t\<lparr>mem := poke_mem (mem t) (bp_addr b) (bp_orig b), regs := ?r\<rparr>)"
    by auto
  have "chkstat_scan K bs (regs t) s = chkstat_scan K (b # post) (regs t) s"
    unfolding bs by (rule chkstat_scan_skip [OF pre])
  also have "\<dots> = chkstat_scan K post ?r (s1\<lparr>d_w := w2\<rparr>)"
    using b(2) d(1) c po se by (simp add: Let_def)
  also have "\<dots> = Ok (s1\<lparr>d_w := w2\<rparr>)"
    by (rule chkstat_scan_miss [OF post])
  finally show ?thesis using v2 c by (auto simp: core_def)
qed

lemma chkstat_hits:
  assumes tr: "d_state s = RUNNING" "k_waitpid K (d_w s) (d_pid s) = Some (Inr (stop_status 5, w))"
    "view w (d_pid s) = Some t"
    and rd: "readable (mem t) (bp_addr b)" and ds: "distinct (map bp_addr (d_bps s))"
    and lo: "\<And>c. c \<in> set (d_bps s) \<Longrightarrow> bp_addr c \<noteq> bp_addr b - 1"
    and b: "b \<in> set (d_bps s)" "rip (regs t) = bp_addr b + 1" and cr: "code_ready K (s\<lparr>d_w := w\<rparr>) (bp_addr b)"
  shows "\<exists>s'. chkstat K s = Ok s' \<and> d_state s' = RUNNING \<and> d_bps s' = d_bps s \<and> d_pid s' = d_pid s \<and>
    view (d_w s') (d_pid s) = Some (t\<lparr>mem := poke_mem (mem t) (bp_addr b) (bp_orig b),
                                      regs := (regs t)\<lparr>rip := bp_addr b\<rparr>\<rparr>)"
proof -
  let ?s = "s\<lparr>d_w := w\<rparr>"
  have st: "WIFSTOPPED (stop_status 5)" "WSTOPSIG (stop_status 5) = SIGTRAP" "\<not> WIFEXITED (stop_status 5)"
    using stop_status_stopped [of 5] stop_status_sig [of 5] WIFSTOPPED_not_WIFEXITED [of "stop_status 5"]
    by (simp_all add: SIGTRAP_def)
  have ch: "chkstat K s = chkstat_scan K (d_bps s) (regs t) ?s"
    using tr st getregs [OF tr(3)] by (simp add: chkstat_def Let_def)
  have "d_state ?s = RUNNING" "view (d_w ?s) (d_pid ?s) = Some t" using tr by simp_all
  from scan_hit [OF this rd ds lo b cr] show ?thesis
    unfolding ch by (auto simp: core_def)
qed

text \<open>The same under the relation: the eight bytes become the program's own.\<close>

lemma chkstat_hits_traced:
  assumes "k_waitpid K (d_w s) (d_pid s) = Some (Inr (stop_status 5, w))" and tr: "traced view m0 (s\<lparr>d_w := w\<rparr>) t"
    and "distinct (map bp_addr (d_bps s))" "\<And>c. c \<in> set (d_bps s) \<Longrightarrow> bp_addr c \<noteq> bp_addr b - 1"
    and b: "b \<in> set (d_bps s)" and "rip (regs t) = bp_addr b + 1" "code_ready K (s\<lparr>d_w := w\<rparr>) (bp_addr b)"
  shows "\<exists>s'. chkstat K s = Ok s' \<and> d_bps s' = d_bps s \<and> d_pid s' = d_pid s \<and>
    traced view m0 s' (t\<lparr>mem := (\<lambda>x. if unat (x - bp_addr b) < 8 then m0 x else mem t x),
                         regs := (regs t)\<lparr>rip := bp_addr b\<rparr>\<rparr>)"
proof -
  have d: "d_state s = RUNNING" "view w (d_pid s) = Some t" "overlay m0 (d_bps s) (mem t)"
    using tracedD [OF tr] by simp_all
  have "readable (mem t) (bp_addr b)" by (rule overlay_readable [OF d(3) b])
  from chkstat_hits [OF d(1) assms(1) d(2) this assms(3-)] obtain s' where
    "chkstat K s = Ok s'" "d_state s' = RUNNING" "d_bps s' = d_bps s" "d_pid s' = d_pid s"
    "view (d_w s') (d_pid s) = Some (t\<lparr>mem := poke_mem (mem t) (bp_addr b) (bp_orig b),
                                      regs := (regs t)\<lparr>rip := bp_addr b\<rparr>\<rparr>)" by blast
  then show ?thesis using d(3) overlay_restore [OF d(3) b]
    by (intro exI [of _ s']) (simp add: traced_def overlay_clear)
qed

text \<open>\<open>bp\<close> and \<open>del\<close> as steps of the relation.\<close>

lemma bp_traced:
  assumes tr: "traced view m0 s t" and a: "a \<noteq> 0" "\<And>b. b \<in> set (d_bps s) \<Longrightarrow> 8 \<le> unat (bp_addr b - a)"
    and w: "holds_word m0 a c" "byte_of c 0 \<noteq> 0xcc" and cr: "code_ready K s a"
  shows "\<exists>s'. bp K a s = Ok s' \<and> d_pid s' = d_pid s \<and>
    d_bps s' = d_bps s @ [\<lparr>bp_id = int (length (d_bps s)), bp_addr = a, bp_orig = c\<rparr>] \<and>
    traced view m0 s' (t\<lparr>mem := (mem t)(a \<mapsto> 0xcc)\<rparr>)"
proof -
  note d = tracedD [OF tr]
  let ?b = "\<lparr>bp_id = int (length (d_bps s)), bp_addr = a, bp_orig = c\<rparr>"
  from bp_new [OF d(1) a(1) d(2,3) a(2) w cr] obtain s' w' where
    s': "bp K a s = Ok s'" and c: "core s' = (RUNNING, d_path s, d_pid s, d_bps s @ [?b], d_elf s, w')"
    and v: "view w' (d_pid s) = Some (t\<lparr>mem := (mem t)(a \<mapsto> 0xcc)\<rparr>)" by blast
  have "overlay m0 (d_bps s @ [?b]) ((mem t)(a \<mapsto> 0xcc))"
    using overlay_add [OF d(3), of ?b] w by simp
  then have "traced view m0 s' (t\<lparr>mem := (mem t)(a \<mapsto> 0xcc)\<rparr>)"
    using c v by (intro tracedI) (simp_all add: core_def)
  with s' c show ?thesis by (auto simp: core_def)
qed

lemma del_traced:
  assumes tr: "traced view m0 s t" and i: "i < length (d_bps s)" "list_ex (\<lambda>b. bp_id b = int i) (d_bps s)"
    and cr: "code_ready K s (bp_addr (d_bps s ! i))"
  shows "\<exists>s'. del K (int i) s = Ok s' \<and> d_pid s' = d_pid s \<and> d_bps s' = remove_at i (d_bps s) \<and>
    traced view m0 s' (t\<lparr>mem := (\<lambda>x. if unat (x - bp_addr (d_bps s ! i)) < 8 then m0 x else mem t x)\<rparr>)"
proof -
  note d = tracedD [OF tr]
  let ?b = "d_bps s ! i"
  have b: "?b \<in> set (d_bps s)" using i(1) by simp
  from del_entry [OF d(1) i d(2) overlay_readable [OF d(3) b] cr] obtain s' w' where
    s': "del K (int i) s = Ok s'" and c: "core s' = (RUNNING, d_path s, d_pid s, remove_at i (d_bps s), d_elf s, w')"
    and v: "view w' (d_pid s) = Some (t\<lparr>mem := poke_mem (mem t) (bp_addr ?b) (bp_orig ?b)\<rparr>)" by blast
  have "traced view m0 s' (t\<lparr>mem := (\<lambda>x. if unat (x - bp_addr ?b) < 8 then m0 x else mem t x)\<rparr>)"
    using c v overlay_drop [OF d(3) i(1)] overlay_restore [OF d(3) b]
    by (intro tracedI) (simp_all add: core_def)
  with s' c show ?thesis by (auto simp: core_def)
qed

text \<open>
  \<open>cont\<close>: the tracee is resumed with its memory re-armed, and when that run stops at a breakpoint
  the program counter and the byte are the program's own again.
\<close>

lemma cont_traced:
  assumes tr: "traced view m0 s t"
    and go: "\<And>w. view w (d_pid s) = Some (t\<lparr>mem := rearm (rip (regs t)) (d_bps s) (mem t)\<rparr>) \<Longrightarrow>
      \<exists>w1 w2. k_cont K w (d_pid s) = Inr w1 \<and> k_waitpid K w1 (d_pid s) = Some (Inr (stop_status 5, w2)) \<and>
        view w2 (d_pid s) = Some u"
    and u: "overlay m0 (d_bps s) (mem u)"
    and ds: "distinct (map bp_addr (d_bps s))" and lo: "\<And>c. c \<in> set (d_bps s) \<Longrightarrow> bp_addr c \<noteq> bp_addr b - 1"
    and b: "b \<in> set (d_bps s)" "rip (regs u) = bp_addr b + 1"
    and buf: "d_code s \<noteq> None" and cr: "code_ready K s (bp_addr b)"
  shows "\<exists>s'. cont K s = Ok s' \<and> d_bps s' = d_bps s \<and> d_pid s' = d_pid s \<and>
    traced view m0 s' (u\<lparr>mem := (\<lambda>x. if unat (x - bp_addr b) < 8 then m0 x else mem u x),
                         regs := (regs u)\<lparr>rip := bp_addr b\<rparr>\<rparr>)"
proof -
  note d = tracedD [OF tr]
  from chkbp_rearms [OF d] obtain w where
    ck: "chkbp K s = Ok (s\<lparr>d_w := w\<rparr>)" and
    v: "view w (d_pid s) = Some (t\<lparr>mem := rearm (rip (regs t)) (d_bps s) (mem t)\<rparr>)" by blast
  from go [OF v] obtain w1 w2 where
    w1: "k_cont K w (d_pid s) = Inr w1" and w2: "k_waitpid K w1 (d_pid s) = Some (Inr (stop_status 5, w2))"
    and vu: "view w2 (d_pid s) = Some u" by blast
  let ?s1 = "s\<lparr>d_w := w1\<rparr>"
  have "traced view m0 (?s1\<lparr>d_w := w2\<rparr>) u" using d vu u by (intro tracedI) simp_all
  moreover have "code_ready K (?s1\<lparr>d_w := w2\<rparr>) (bp_addr b)"
    using code_ready_buf [OF buf, of "?s1\<lparr>d_w := w2\<rparr>"] cr by simp
  moreover have "cont K s = chkstat K ?s1" using d(1) ck w1 by (simp add: cont_def)
  ultimately show ?thesis
    using chkstat_hits_traced [of ?s1 w2 m0 u b] w2 b ds lo by simp
qed

end

subsection \<open>A breakpoint set and deleted\<close>

lemma disasm_keeps_code:
  "disasm K a n s = Ok t \<Longrightarrow> d_code s = None \<or> d_code t = d_code s \<and> d_code_size t = d_code_size s"
  by (auto simp: disasm_def Let_def split: if_splits option.splits)

lemma bp_keeps_code:
  "d_code s \<noteq> None \<Longrightarrow> bp K a s = Ok t \<Longrightarrow> d_code t = d_code s \<and> d_code_size t = d_code_size s"
  by (auto simp: bp_def Let_def dest!: disasm_keeps_code split: if_splits sum.splits)

lemma remove_at_snoc [simp]: "remove_at (length xs) (xs @ [x]) = xs"
  by (simp add: remove_at_def)

context debug_kernel
begin

text \<open>
  The roundtrip: with no other breakpoint in the eight bytes from the new address on, the word that is
  written back is the one that was there.
\<close>

lemma bp_del_traced:
  assumes tr: "traced view m0 s t" and a: "a \<noteq> 0" "\<And>b. b \<in> set (d_bps s) \<Longrightarrow> 8 \<le> unat (bp_addr b - a)"
    and w: "holds_word m0 a c" "byte_of c 0 \<noteq> 0xcc" and buf: "d_code s \<noteq> None" and cr: "code_ready K s a"
  shows "\<exists>s1 s2. bp K a s = Ok s1 \<and> del K (int (length (d_bps s))) s1 = Ok s2 \<and> d_bps s2 = d_bps s \<and>
    traced view m0 s2 t"
proof -
  let ?i = "length (d_bps s)"
  let ?b = "\<lparr>bp_id = int ?i, bp_addr = a, bp_orig = c\<rparr>"
  from bp_traced [OF tr a w cr] obtain s1 where s1: "bp K a s = Ok s1" "d_bps s1 = d_bps s @ [?b]"
    and t1: "traced view m0 s1 (t\<lparr>mem := (mem t)(a \<mapsto> 0xcc)\<rparr>)" by blast
  have e: "d_elf s1 = d_elf s" "d_code s1 = d_code s" "d_code_size s1 = d_code_size s"
    using s1(1) bp_keeps_code [OF buf s1(1)] by (auto simp: bp_def Let_def dest!: disasm_core core_fields(5) split: if_splits sum.splits)
  have "code_ready K s1 (bp_addr (d_bps s1 ! ?i))"
    using code_ready_buf [OF buf e(2,1,3)] cr s1(2) by simp
  from del_traced [OF t1 _ _ this] s1(2) obtain s2 where
    s2: "del K (int ?i) s1 = Ok s2" "d_bps s2 = remove_at ?i (d_bps s1)"
    and t2: "traced view m0 s2 (t\<lparr>mem := (\<lambda>x. if unat (x - a) < 8 then m0 x else ((mem t)(a \<mapsto> 0xcc)) x)\<rparr>)" by (auto cong: if_cong)
  have "m0 x = mem t x" if "unat (x - a) < 8" for x
  proof -
    have "x \<notin> bp_addr ` set (d_bps s)" using a(2) that by fastforce
    then show ?thesis using overlay_mem [OF tracedD(3) [OF tr], of x] by simp
  qed
  then have "(\<lambda>x. if unat (x - a) < 8 then m0 x else ((mem t)(a \<mapsto> 0xcc)) x) = mem t" by auto
  with t2 s1 s2 show ?thesis by auto
qed

end

subsection \<open>Stops that are not hits\<close>

text \<open>
  A stop away from every breakpoint changes nothing but the world; the end of the process puts the
  debugger back to \<open>LOADED\<close>; a process killed by a signal satisfies neither test of \<open>chkstat\<close>.
\<close>

lemma chkstat_pass:
  assumes "k_waitpid K (d_w s) (d_pid s) = Some (Inr (stop_status 5, w))" "k_getregs K w (d_pid s) = Inr r"
    "\<And>b. b \<in> set (d_bps s) \<Longrightarrow> bp_addr b \<noteq> rip r - 1"
  shows "chkstat K s = Ok (s\<lparr>d_w := w\<rparr>)"
proof -
  have "WIFSTOPPED (stop_status 5)" "WSTOPSIG (stop_status 5) = SIGTRAP" "\<not> WIFEXITED (stop_status 5)"
    using stop_status_stopped [of 5] stop_status_sig [of 5] WIFSTOPPED_not_WIFEXITED [of "stop_status 5"]
    by (simp_all add: SIGTRAP_def)
  with assms show ?thesis by (simp add: chkstat_def Let_def chkstat_scan_miss)
qed

lemma sint_exit_status: "sint (exit_status c) = 256 * uint c"
proof -
  have b: "uint c < 256" using uint_bounded [of c] by simp
  have "uint (exit_status c) = 256 * uint c"
    unfolding exit_status_def unsigned_push_bit_eq
    using b by (simp add: unsigned_ucast_eq push_bit_eq_mult take_bit_eq_mod)
  moreover have "signed_take_bit 31 (256 * uint c) = 256 * uint c"
    using b order_trans [of "- 8388608" 0 "uint c"] by (intro signed_take_bit_int_eq_self) simp_all
  ultimately show ?thesis by (simp add: sint_uint)
qed

lemma chkstat_exit:
  assumes "k_waitpid K (d_w s) (d_pid s) = Some (Inr (exit_status c, w))"
  shows "chkstat K s = Ok (say (child_msg (d_pid s) ''normally (code '' (256 * uint c)) (s\<lparr>d_w := w\<rparr>)
    \<lparr>d_pid := 0, d_state := LOADED\<rparr>)"
proof -
  have "WIFEXITED (exit_status c)" by (rule exit_status_exited)
  moreover from this have "\<not> WIFSIGNALED (exit_status c)" "\<not> WIFSTOPPED (exit_status c)"
    using WIFEXITED_not_WIFSIGNALED WIFSTOPPED_not_WIFEXITED by blast+
  ultimately show ?thesis using assms by (simp add: chkstat_def Let_def sint_exit_status)
qed

lemma chkstat_signalled:
  assumes "k_waitpid K (d_w s) (d_pid s) = Some (Inr (status, w))" "\<not> WIFEXITED status" "\<not> WIFSTOPPED status"
  shows "chkstat K s = Ok (s\<lparr>d_w := w\<rparr>)"
  using assms by (simp add: chkstat_def Let_def)

subsection \<open>Registers\<close>

text \<open>
  The register names, and the register file as a table: an update of a name is read back under that
  name and leaves the others.
\<close>

definition reg_names :: "string list" where
  "reg_names = [''rax'', ''rbx'', ''rcx'', ''rdx'', ''r8'', ''r9'', ''r10'', ''r11'', ''r12'', ''r13'', ''r14'', ''r15'',
     ''rdi'', ''rsi'', ''rbp'', ''rsp'', ''rip'', ''flags'']"

lemma reg_val_known: "reg_val n r \<noteq> None \<longleftrightarrow> n \<in> set reg_names"
  by (simp add: reg_val_def reg_names_def)

lemma reg_upd_known: "reg_upd n v r \<noteq> None \<longleftrightarrow> n \<in> set reg_names"
  by (simp add: reg_upd_def reg_names_def)

lemma reg_cases: "list_all P reg_names \<Longrightarrow> n \<in> set reg_names \<Longrightarrow> P n"
  by (simp add: list_all_iff)

lemma reg_upd_same: "reg_upd n v r = Some r' \<Longrightarrow> reg_val n r' = Some v"
proof -
  assume u: "reg_upd n v r = Some r'"
  then have "n \<in> set reg_names" using reg_upd_known [of n v r] by simp
  moreover have "list_all (\<lambda>n. \<forall>r'. reg_upd n v r = Some r' \<longrightarrow> reg_val n r' = Some v) reg_names"
    by (simp add: reg_names_def reg_upd_def reg_val_def)
  ultimately show ?thesis using u by (auto simp: list_all_iff)
qed

lemma reg_upd_other: "reg_upd n v r = Some r' \<Longrightarrow> m \<noteq> n \<Longrightarrow> reg_val m r' = reg_val m r"
proof -
  assume u: "reg_upd n v r = Some r'" and m: "m \<noteq> n"
  then have "n \<in> set reg_names" using reg_upd_known [of n v r] by simp
  moreover have "list_all (\<lambda>n. \<forall>r'. reg_upd n v r = Some r' \<longrightarrow>
      list_all (\<lambda>m. m \<noteq> n \<longrightarrow> reg_val m r' = reg_val m r) reg_names) reg_names"
    by (simp add: reg_names_def reg_upd_def reg_val_def)
  ultimately have "m \<in> set reg_names \<Longrightarrow> ?thesis" using u m by (auto simp: list_all_iff)
  moreover have "m \<notin> set reg_names \<Longrightarrow> ?thesis"
    using reg_val_known [of m r] reg_val_known [of m r'] by metis
  ultimately show ?thesis by blast
qed

lemma reg_upd_eflags: "reg_upd n v r = Some r' \<Longrightarrow> n \<noteq> ''flags'' \<Longrightarrow> eflags r' = eflags r"
  using reg_upd_other [of n v r r' "''flags''"] by (simp add: reg_val_def)

context debug_kernel
begin

lemma set_reg_traced:
  assumes tr: "traced view m0 s t" and n: "n \<in> set reg_names" "n \<noteq> ''flags''"
  shows "\<exists>r w. reg_upd n v (regs t) = Some r \<and> set_reg K n v s = Ok (s\<lparr>d_w := w\<rparr>) \<and>
    traced view m0 (s\<lparr>d_w := w\<rparr>) (t\<lparr>regs := r\<rparr>)"
proof -
  note d = tracedD [OF tr]
  obtain r where r: "reg_upd n v (regs t) = Some r" using n(1) reg_upd_known [of n v "regs t"] by auto
  from setregs [OF d(2) reg_upd_eflags [OF r n(2)]] obtain w where
    w: "k_setregs K (d_w s) (d_pid s) r = Inr w" and v: "view w (d_pid s) = Some (t\<lparr>regs := r\<rparr>)" by blast
  have "set_reg K n v s = Ok (s\<lparr>d_w := w\<rparr>)"
    using d(1) getregs [OF d(2)] r w by (simp add: set_reg_def)
  moreover have "traced view m0 (s\<lparr>d_w := w\<rparr>) (t\<lparr>regs := r\<rparr>)"
    using d v by (intro tracedI) simp_all
  ultimately show ?thesis using r by blast
qed

lemma get_traced:
  assumes tr: "traced view m0 s t" and n: "reg_val n (regs t) = Some x"
  shows "get K n s = Ok (warn [put n, put '' = '', set_dec, put_num (unat x), put '' (0x'', set_hex,
                           put_num (unat x), put ('')'' @ [newline])] s)"
  using tracedD [OF tr] n getregs [of "d_w s" "d_pid s" t] by (simp add: get_def)

end

end
