(* ===== verification/Sdb_Dump.thy ===== *)
theory Sdb_Dump
  imports Sdb_Hits
begin

text \<open>
  The \<open>dump\<close> command against a reference: the text it prints is the classical listing of the 80
  bytes from the address on, sixteen to a line, in hexadecimal and as characters.
\<close>

subsection \<open>The reference listing\<close>

definition dump_ref_line :: "u64 \<Rightarrow> u8 list \<Rightarrow> string" where
  "dump_ref_line a bs =
     (let n = show_nat 16 (unat a) in
      replicate (12 - length n) CHR '' '' @ n @ '': '' @ concat (map (\<lambda>b. hex_byte b @ '' '') bs) @
      ''|'' @ map ascii_of bs @ ''|'' @ [newline])"

fun dump_ref :: "nat \<Rightarrow> u64 \<Rightarrow> u8 list \<Rightarrow> string" where
  "dump_ref 0 a bs = []"
| "dump_ref (Suc n) a bs = dump_ref_line a (take 16 bs) @ dump_ref n (a + 16) (drop 16 bs)"

subsection \<open>One byte, one word, one line\<close>

lemma show_nat_hex_byte:
  "replicate (2 - length (show_nat 16 (unat b))) CHR ''0'' @ show_nat 16 (unat b) = hex_byte (b :: u8)"
proof -
  have "unat b div 16 < 16" using u8_lt [of b] by (simp add: less_mult_imp_div_less)
  then have "\<not> unat b < 16 \<Longrightarrow> length (show_nat 16 (unat b)) = 2"
    by (subst show_nat.simps) (subst show_nat.simps, simp)
  moreover have "unat b < 16 \<Longrightarrow> length (show_nat 16 (unat b)) = 1"
    by (subst show_nat.simps) simp
  ultimately show ?thesis by (auto simp: hex_byte_def)
qed

definition word_bytes :: "u64 \<Rightarrow> u8 list" where
  "word_bytes v = map (byte_of v) [0..<8]"

lemma print8bytes_fold:
  assumes "os_right os"
  shows "os_text (fold (\<lambda>i. chain [set_hex, set_fill CHR ''0'', put_num_w 2 (unat (byte_of code i)), put '' '']) is os) =
    os_text os @ concat (map (\<lambda>i. hex_byte (byte_of code i) @ '' '') is)"
    and "os_right (fold (\<lambda>i. chain [set_hex, set_fill CHR ''0'', put_num_w 2 (unat (byte_of code i)), put '' '']) is os)"
  using assms
proof (induction "is" arbitrary: os)
  case (Cons i "is")
  { case 1
    then show ?case using Cons.IH
      by (simp add: pad_def base_of_def show_nat_hex_byte [symmetric] Let_def) }
  { case 2
    then show ?case using Cons.IH by simp }
qed simp_all

lemma print8bytes_text:
  "os_right os \<Longrightarrow> os_text (print8bytes code os) = os_text os @ concat (map (\<lambda>b. hex_byte b @ '' '') (word_bytes code))"
  by (simp only: print8bytes_def set_text print8bytes_fold(1)) (simp add: word_bytes_def o_def)

lemma print8bytes_right: "os_right os \<Longrightarrow> os_right (print8bytes code os)"
  by (simp only: print8bytes_def set_flags print8bytes_fold(2))

lemma print8ascii_fold:
  "os_text (fold (\<lambda>i. put [ascii_of (byte_of code i)]) is os) = os_text os @ map (\<lambda>i. ascii_of (byte_of code i)) is"
  by (induction "is" arbitrary: os) simp_all

lemma print8ascii_text: "os_text (print8ascii code os) = os_text os @ map ascii_of (word_bytes code)"
  by (simp only: print8ascii_def print8ascii_fold) (simp add: word_bytes_def o_def)

lemma dump_line_text:
  "os_text (dump_line K w p a os) = os_text os @
     dump_ref_line a (word_bytes (k_peek K w p a) @ word_bytes (k_peek K w p (a + 8)))"
  by (simp add: dump_line_def Let_def print8bytes_text print8bytes_right print8ascii_text dump_ref_line_def
      pad_def base_of_def)

lemma word_bytes_eq:
  assumes "length bs = 8" "\<And>i. i < 8 \<Longrightarrow> m (a + of_nat i) = Some (bs ! i)"
  shows "\<exists>v. holds_word m a v \<and> word_bytes v = bs"
proof -
  have "readable m a" using assms by (simp add: readable_iff)
  then obtain v where v: "holds_word m a v" using readable_holds by blast
  then have "byte_of v i = bs ! i" if "i < 8" for i
    using assms(2) [OF that] that by (simp add: holds_word_iff)
  then have "word_bytes v = bs" using assms(1) by (intro nth_equalityI) (simp_all add: word_bytes_def)
  with v show ?thesis by blast
qed

context debug_kernel
begin

lemma dump_lines_text:
  assumes v: "view w p = Some t"
    and m: "length bs = 16 * n" "\<And>i. i < 16 * n \<Longrightarrow> mem t (a + of_nat i) = Some (bs ! i)"
  shows "os_text (dump_lines n K w p a os) = os_text os @ dump_ref n a bs"
  using m
proof (induction n arbitrary: a bs os)
  case (Suc n)
  have lo: "mem t (a + of_nat i) = Some (take 8 bs ! i)" if "i < 8" for i
    using Suc.prems(2) [of i] that by simp
  have hi: "mem t (a + 8 + of_nat i) = Some (take 8 (drop 8 bs) ! i)" if "i < 8" for i
    using Suc.prems(2) [of "8 + i"] Suc.prems(1) that by (simp add: add.assoc)
  obtain v1 where v1: "holds_word (mem t) a v1" "word_bytes v1 = take 8 bs"
    using word_bytes_eq [of "take 8 bs" "mem t" a] lo Suc.prems(1) by auto
  obtain v2 where v2: "holds_word (mem t) (a + 8) v2" "word_bytes v2 = take 8 (drop 8 bs)"
    using word_bytes_eq [of "take 8 (drop 8 bs)" "mem t" "a + 8"] hi Suc.prems(1) by auto
  have "k_peek K w p a = v1" "k_peek K w p (a + 8) = v2" using peek v v1(1) v2(1) by blast+
  moreover have "word_bytes v1 @ word_bytes v2 = take 16 bs"
    using take_add [of 8 8 bs] by (simp add: v1(2) v2(2))
  ultimately have line: "os_text (dump_line K w p a os) = os_text os @ dump_ref_line a (take 16 bs)"
    by (simp add: dump_line_text)
  have "mem t (a + 16 + of_nat i) = Some (drop 16 bs ! i)" if "i < 16 * n" for i
    using Suc.prems(2) [of "16 + i"] Suc.prems(1) that by (simp add: add.assoc)
  then have "os_text (dump_lines n K w p (a + 16) (dump_line K w p a os)) =
      os_text (dump_line K w p a os) @ dump_ref n (a + 16) (drop 16 bs)"
    using Suc.prems(1) by (intro Suc.IH) simp_all
  with line show ?case by simp
qed simp

lemma dump_text:
  assumes "d_state s = RUNNING" "a \<noteq> 0" "intext (d_elf s) a" "view (d_w s) (d_pid s) = Some t"
    "length bs = 80" "\<And>i. i < 80 \<Longrightarrow> mem t (a + of_nat i) = Some (bs ! i)"
  shows "\<exists>s'. dump K a s = Ok s' \<and> core s' = core s \<and>
    os_text (d_err s') = os_text (d_err s) @ dump_ref 5 a bs"
  using dump_lines_text [OF assms(4), of bs 5 a "d_err s"] assms
  by (simp add: dump_def DUMP_MAX_def)

end

end
