(* ===== verification/Sdb_Cmds.thy ===== *)
theory Sdb_Cmds
  imports Sdb_Session Sdb_Dump
begin

text \<open>
  The command language: what a typed line runs, how an address or an id printed by the debugger is
  read back, what \<open>list\<close> and \<open>vmmap\<close> print, and how breakpoint ids behave after a deletion.
\<close>

subsection \<open>Lines\<close>

lemma word_ok_show [simp]: "2 \<le> b \<Longrightarrow> b \<le> 36 \<Longrightarrow> word_ok (show_nat b n)"
  using base_digit_not_sign [of b] by (auto simp: word_ok_def list_all_iff dest: show_nat_digits [rotated 2])

lemma word_ok_0x [simp]: "word_ok (''0x'' @ show_nat 16 n)"
  using word_ok_show [of 16 n] by (simp add: word_ok_def is_space_def)

lemma word_ok_append: "word_ok (a @ b) \<longleftrightarrow> (a \<noteq> [] \<or> b \<noteq> []) \<and> (a = [] \<or> word_ok a) \<and> (b = [] \<or> word_ok b)"
  by (auto simp: word_ok_def)

lemma exec_line_words:
  assumes "list_all word_ok ws"
  shows "exec_line K (join ws) s = dispatch K (nth_arg 0 ws) (nth_arg 1 ws) (nth_arg 2 ws) s"
  using assms by (simp add: exec_line_def split_def words_of_join Let_def)

lemma strtoul16_word: "strtoul16 (show_nat 16 (unat a)) = a" "strtoul16 (''0x'' @ show_nat 16 (unat a)) = a"
  using strtoul16_show [of "unat a"] strtoul16_show_0x [of "unat a"] unsigned_less [of a] by simp_all

lemma exec_break: "exec_line K (join [''break'', ''0x'' @ show_nat 16 (unat a)]) s = bp K a s"
proof -
  have "exec_line K (join [''break'', ''0x'' @ show_nat 16 (unat a)]) s =
      dispatch K ''break'' (''0x'' @ show_nat 16 (unat a)) [] s"
    using exec_line_words [of "[''break'', ''0x'' @ show_nat 16 (unat a)]" K s] word_ok_0x [of "unat a"]
    by (simp add: nth_arg_def word_ok_def is_space_def del: word_ok_0x)
  also have "\<dots> = bp K (strtoul16 (''0x'' @ show_nat 16 (unat a))) s" by (simp only: dispatch_def if_True simp_thms)
  finally show ?thesis by (simp only: strtoul16_word)
qed

lemma exec_set:
  assumes "word_ok n"
  shows "exec_line K (join [''set'', n, ''0x'' @ show_nat 16 (unat v)]) s = set_reg K n v s"
proof -
  have w: "word_ok ''set''" by (simp add: word_ok_def is_space_def)
  have "exec_line K (join [''set'', n, ''0x'' @ show_nat 16 (unat v)]) s =
      dispatch K ''set'' n (''0x'' @ show_nat 16 (unat v)) s"
    using exec_line_words [of "[''set'', n, ''0x'' @ show_nat 16 (unat v)]" K s] w assms word_ok_0x [of "unat v"]
    by (simp only: list.pred_inject simp_thms) (simp add: nth_arg_def)
  also have "\<dots> = set_reg K n (strtoul16 (''0x'' @ show_nat 16 (unat v))) s" by (simp add: dispatch_def)
  finally show ?thesis by (simp only: strtoul16_word)
qed

lemma exec_delete:
  assumes "n < 2 ^ 31"
  shows "exec_line K (join [''delete'', show_nat 10 n]) s = del K (int n) s"
proof -
  have w: "word_ok ''delete''" by (simp add: word_ok_def is_space_def)
  have "exec_line K (join [''delete'', show_nat 10 n]) s = dispatch K ''delete'' (show_nat 10 n) [] s"
    using exec_line_words [of "[''delete'', show_nat 10 n]" K s] w word_ok_show [of 10 n]
    by (simp only: list.pred_inject simp_thms) (simp add: nth_arg_def)
  also have "\<dots> = del K (atoi (show_nat 10 n)) s" by (simp add: dispatch_def)
  finally show ?thesis using atoi_show [OF assms] by simp
qed

lemma exec_delete_hex: "exec_line K (join [''delete'', show_nat 16 10]) s = del K 0 s"
proof -
  have h: "show_nat 16 10 = ''a''" by code_simp
  have w: "list_all word_ok [''delete'', ''a'']" by (simp add: word_ok_def is_space_def)
  have "exec_line K (join [''delete'', ''a'']) s = dispatch K ''delete'' ''a'' [] s"
    unfolding exec_line_words [OF w] by (simp add: nth_arg_def)
  also have "\<dots> = del K (atoi ''a'') s" by (simp add: dispatch_def)
  also have "atoi ''a'' = 0" by code_simp
  finally show ?thesis by (simp only: h)
qed

lemma reg_names_ok: "n \<in> set reg_names \<Longrightarrow> word_ok n"
  by (auto simp: reg_names_def word_ok_def is_space_def)

subsection \<open>\<open>list\<close>\<close>

definition list_entry :: "nat \<Rightarrow> bp_t \<Rightarrow> string" where
  "list_entry base b = [tab_char] @ show_nat base (nat (bp_id b)) @ '':'' @ [tab_char] @
     show_nat 16 (unat (bp_addr b)) @ [newline]"

lemma list_cmd_hex:
  assumes "os_hex os" "list_all (\<lambda>b. 0 \<le> bp_id b \<and> bp_id b < 2 ^ 31) bs"
  shows "os_text (chain (concat (map (\<lambda>b. [put [tab_char], put_int (bp_id b), put ('':'' @ [tab_char]), set_hex,
                              put_num (unat (bp_addr b)), put [newline]]) bs)) os) =
    os_text os @ concat (map (list_entry 16) bs)"
  using assms
proof (induction bs arbitrary: os)
  case (Cons b bs)
  then show ?case by (simp add: list_entry_def show_int_def base_of_def)
qed simp

text \<open>The first line shows the id in the base in force, every later line in base 16.\<close>

lemma list_cmd_text:
  assumes "list_all (\<lambda>b. 0 \<le> bp_id b \<and> bp_id b < 2 ^ 31) (b # bs)" "d_bps s = b # bs"
  shows "os_text (d_err (list_cmd s)) =
    os_text (d_err s) @ list_entry (base_of (d_err s)) b @ concat (map (list_entry 16) bs)"
  using assms list_cmd_hex [of _ bs]
  by (simp add: list_cmd_def list_entry_def) (simp add: show_int_def base_of_def)

subsection \<open>Ids after a deletion\<close>

lemma del_stale: "d_state s = RUNNING \<Longrightarrow> list_ex (\<lambda>b. bp_id b = n) (d_bps s) \<Longrightarrow> int (length (d_bps s)) \<le> n \<Longrightarrow>
  del K n s = Undef"
  by (simp add: del_def)

definition ids_fresh :: "bp_t list \<Rightarrow> bool" where
  "ids_fresh bs \<longleftrightarrow> map bp_id bs = map int [0..<length bs]"

lemma ids_fresh_nth: "ids_fresh bs \<Longrightarrow> i < length bs \<Longrightarrow> bp_id (bs ! i) = int i"
  unfolding ids_fresh_def by (metis add_0 diff_zero length_map length_upt nth_map nth_upt)

lemma ids_fresh_ex: "ids_fresh bs \<Longrightarrow> i < length bs \<Longrightarrow> list_ex (\<lambda>b. bp_id b = int i) bs"
  using ids_fresh_nth [of bs i] by (auto simp: list_ex_iff)

lemma last_id_stale:
  assumes "ids_fresh bs" "i < length bs - 1"
  shows "list_ex (\<lambda>b. bp_id b = int (length bs - 1)) (remove_at i bs) \<and> int (length (remove_at i bs)) \<le> int (length bs - 1)"
proof -
  have len: "length (remove_at i bs) = length bs - 1" using assms(2) by (auto simp: remove_at_def)
  have "drop (Suc i) bs \<noteq> []" using assms(2) by simp
  then have "last (drop (Suc i) bs) \<in> set (drop (Suc i) bs)" by (rule last_in_set)
  moreover have "last (drop (Suc i) bs) = bs ! (length bs - 1)"
    using assms(2) last_conv_nth [of bs] by (cases "bs = []") simp_all
  ultimately have "bs ! (length bs - 1) \<in> set (drop (Suc i) bs)" by simp
  then have "list_ex (\<lambda>b. bp_id b = int (length bs - 1)) (remove_at i bs)"
    using ids_fresh_nth [OF assms(1), of "length bs - 1"] assms(2)
    by (intro list_ex_iff [THEN iffD2] bexI [of _ "bs ! (length bs - 1)"]) (simp_all add: remove_at_def)
  with len show ?thesis by simp
qed

subsection \<open>\<open>vmmap\<close>\<close>

definition free_of :: "string \<Rightarrow> string \<Rightarrow> bool" where
  "free_of ds w \<longleftrightarrow> w \<noteq> [] \<and> list_all (\<lambda>c. c \<notin> set ds) w"

lemma strtok_tokens:
  "free_of ds w \<Longrightarrow> d \<in> set ds \<Longrightarrow> strtok ds (w @ d # rest) = (Some w, rest)"
  "free_of ds w \<Longrightarrow> strtok ds w = (Some w, [])"
  by (rule strtok_token strtok_last; simp add: free_of_def list_all_iff)+

definition maps_line :: "string \<Rightarrow> string \<Rightarrow> string \<Rightarrow> char \<Rightarrow> string \<Rightarrow> string \<Rightarrow> string \<Rightarrow> string \<Rightarrow> string" where
  "maps_line lo hi perms priv off dev inode path =
     lo @ CHR ''-'' # hi @ CHR '' '' # perms @ priv # CHR '' '' # off @ CHR '' '' # dev @ CHR '' '' # inode @ CHR '' '' # path"

lemma strtok_blank: "strtok '' '' (CHR '' '' # s) = strtok '' '' s"
  by (rule strtok_skip) simp

lemma vmmap_line_text:
  assumes "free_of ''-'' lo" "free_of '' '' hi" "free_of '' p'' perms"
    "free_of '' '' off" "free_of '' '' dev" "free_of '' '' inode" "free_of '' '' path"
  shows "os_text (vmmap_line (maps_line lo hi perms CHR ''p'' off dev inode path) os) =
    os_text os @ replicate (16 - length lo) CHR ''0'' @ lo @ ''-'' @ replicate (16 - length hi) CHR ''0'' @ hi @ '' '' @
    perms @ '' '' @ inode @ replicate (9 - length inode) CHR '' '' @ path"
  using assms
  by (simp add: vmmap_line_def maps_line_def strtok_tokens strtok_blank Let_def on_token_def pad_def)

end
