(* ===== verification/Sdb_Demo.thy ===== *)
theory Sdb_Demo
  imports Sdb_Cmds "HOL-Library.Code_Target_Numeral"
begin

text \<open>
  A concrete session for the witnesses: a machine with one stopped process, whose text section is 96
  bytes at \<open>0x400000\<close>, and an ELF image of 213 bytes with a string table and a text section.
\<close>

definition demo_mem :: memory where
  "demo_mem x = (if unat (x - 0x400000) < 96 then Some (of_nat (unat (x - 0x400000))) else None)"

definition demo_regs :: user_regs where
  "demo_regs = \<lparr>rax = 1, rbx = 2, rcx = 3, rdx = 4, r8 = 5, r9 = 6, r10 = 7, r11 = 8, r12 = 9, r13 = 10,
     r14 = 11, r15 = 12, rdi = 13, rsi = 14, rbp = 15, rsp = 16, rip = 0x400000, eflags = 0x246, other_regs = []\<rparr>"

definition demo_tracee :: tracee where
  "demo_tracee = \<lparr>mem = demo_mem, regs = demo_regs\<rparr>"

definition demo_world :: machine where
  "demo_world = \<lparr>m_procs = (\<lambda>p. if p = 7 then Some demo_tracee else None), m_status = Some 0x57f,
     m_files = (\<lambda>f. None), m_images = (\<lambda>f. Some demo_tracee), m_next_pid = 7\<rparr>"

text \<open>The CPU of the demonstration stops one past \<open>0x400010\<close>, or one further when it steps.\<close>

definition demo_cpu :: cpu where
  "demo_cpu single t =
     (Some (t\<lparr>regs := (regs t)\<lparr>rip := (if single then rip (regs t) + 1 else 0x400011)\<rparr>\<rparr>), Some (stop_status 5))"

definition demo_cs :: "u8 list \<Rightarrow> int \<Rightarrow> u64 \<Rightarrow> nat \<Rightarrow> insn list option" where
  "demo_cs bs n a c = (case bs of [] \<Rightarrow> None | b # _ \<Rightarrow>
     Some [\<lparr>i_address = a, i_bytes = [b], i_mnemonic = ''nop'', i_op_str = []\<rparr>])"

definition demo_kernel :: "machine kernel" where
  "demo_kernel = machine_kernel demo_cpu demo_cs"

definition demo_text_shdr :: "u8 list" where
  "demo_text_shdr = replicate 16 0 @ le_bytes 8 0x400000 @ le_bytes 8 0 @ le_bytes 8 96 @ replicate 24 0"

definition demo_sdb :: "bp_t list \<Rightarrow> machine \<Rightarrow> machine sdb" where
  "demo_sdb bs w = \<lparr>d_state = RUNNING, d_path = ''a.out'', d_pid = 7, d_code = Some (map of_nat [0..<96]),
     d_code_size = 96, d_bps = bs, d_elf = elf0\<lparr>text_shdr := demo_text_shdr\<rparr>, d_out = fresh_stream,
     d_err = fresh_stream, d_w = w\<rparr>"

text \<open>The saved word of a breakpoint at \<open>0x400010\<close>, and the tracee with the trap byte there.\<close>

definition demo_word :: u64 where "demo_word = 0x1716151413121110"

definition demo_bp :: bp_t where "demo_bp = \<lparr>bp_id = 0, bp_addr = 0x400010, bp_orig = demo_word\<rparr>"

definition demo_armed :: tracee where
  "demo_armed = demo_tracee\<lparr>mem := demo_mem(0x400010 \<mapsto> 0xcc)\<rparr>"

definition demo_at :: "tracee \<Rightarrow> machine" where
  "demo_at t = demo_world\<lparr>m_procs := (\<lambda>p. if p = 7 then Some t else None)\<rparr>"

lemma demo_laws: "debug_kernel demo_kernel m_procs"
  unfolding demo_kernel_def by (rule machine.debug_kernel_axioms)

lemma demo_holds: "holds_word demo_mem 0x400010 demo_word"
  by code_simp

lemma demo_word_first: "byte_of demo_word 0 \<noteq> 0xcc"
  by code_simp

lemma demo_text: "sh_addr demo_text_shdr = 0x400000" "sh_size demo_text_shdr = 96" "sh_offset demo_text_shdr = 0"
  by code_simp+

lemma demo_offset: "code_offset (elf0\<lparr>text_shdr := demo_text_shdr\<rparr>) 0x400010 = 16"
  by code_simp

lemma demo_code_ready: "code_ready demo_kernel (demo_sdb bs w) 0x400010"
  by (simp add: code_ready_def demo_sdb_def code_of_def demo_offset demo_kernel_def machine_kernel_def demo_cs_def
      drop_map split: list.split)

lemma demo_traced: "traced m_procs demo_mem (demo_sdb [] (demo_at demo_tracee)) demo_tracee"
  by (simp add: traced_def demo_sdb_def demo_at_def demo_tracee_def overlay_none)

lemma demo_traced_bp: "traced m_procs demo_mem (demo_sdb [demo_bp] (demo_at demo_armed)) demo_armed"
  using overlay_add [of demo_mem "[]" demo_mem demo_bp] demo_holds demo_word_first
  by (simp add: traced_def demo_sdb_def demo_at_def demo_armed_def demo_bp_def overlay_none)

lemma demo_fork: "fork_parent demo_kernel"
  by (auto simp: fork_parent_def demo_kernel_def machine_kernel_def split: option.splits)

text \<open>The same tracee stopped one past its breakpoint, and with the byte and the counter put back.\<close>

definition demo_hit :: tracee where
  "demo_hit = demo_armed\<lparr>regs := demo_regs\<lparr>rip := 0x400011\<rparr>\<rparr>"

definition demo_back :: tracee where
  "demo_back = demo_tracee\<lparr>regs := demo_regs\<lparr>rip := 0x400010\<rparr>\<rparr>"

definition demo_stopped :: machine where
  "demo_stopped = (demo_at demo_hit)\<lparr>m_status := Some (stop_status 5)\<rparr>"

lemma demo_bp_fields [simp]: "bp_addr demo_bp = 0x400010" "bp_id demo_bp = 0" "bp_orig demo_bp = demo_word"
  by (simp_all add: demo_bp_def)

lemma demo_sdb_fields [simp]:
  "d_state (demo_sdb bs w) = RUNNING" "d_pid (demo_sdb bs w) = 7" "d_bps (demo_sdb bs w) = bs"
  "d_w (demo_sdb bs w) = w" "d_code (demo_sdb bs w) \<noteq> None" "(demo_sdb bs w)\<lparr>d_w := v\<rparr> = demo_sdb bs v"
  by (simp_all add: demo_sdb_def)

lemma demo_wait: "k_waitpid demo_kernel demo_stopped 7 = Some (Inr (stop_status 5, demo_stopped))"
  by (simp add: demo_kernel_def machine_kernel_def demo_stopped_def m_wait_def)

lemma demo_mem_at: "demo_mem 0x400010 = Some 0x10"
  by code_simp

lemma demo_traced_hit: "traced m_procs demo_mem (demo_sdb [demo_bp] demo_stopped) demo_hit"
  using demo_traced_bp by (simp add: traced_def demo_stopped_def demo_at_def demo_hit_def)

lemma demo_hit_back:
  "demo_hit\<lparr>mem := poke_mem (mem demo_hit) 0x400010 demo_word, regs := (regs demo_hit)\<lparr>rip := 0x400010\<rparr>\<rparr> = demo_back"
  using poke_mem_restore [OF demo_holds, of "set_low_byte demo_word 0xcc"] poke_int3 [OF demo_holds]
  by (simp add: demo_hit_def demo_back_def demo_armed_def demo_tracee_def)

lemma demo_hit_back_m0:
  "demo_hit\<lparr>mem := (\<lambda>x. if unat (x - 0x400010) < 8 then demo_mem x else mem demo_hit x), regs := (regs demo_hit)\<lparr>rip := 0x400010\<rparr>\<rparr> = demo_back"
  by (auto simp: demo_hit_def demo_back_def demo_armed_def demo_tracee_def fun_eq_iff)

lemma demo_armed_back: "demo_armed\<lparr>mem := poke_mem (mem demo_armed) 0x400010 demo_word\<rparr> = demo_tracee"
  using poke_mem_restore [OF demo_holds, of "set_low_byte demo_word 0xcc"] poke_int3 [OF demo_holds]
  by (simp add: demo_armed_def demo_tracee_def)

lemma demo_armed_readable: "readable (mem demo_armed) 0x400010"
  using overlay_readable [OF tracedD(3) [OF demo_traced_bp], of demo_bp] by simp

text \<open>Two breakpoints four bytes apart, both with their trap byte.\<close>

definition demo_bp4 :: bp_t where "demo_bp4 = \<lparr>bp_id = 1, bp_addr = 0x400014, bp_orig = 0x1b1a191817161514\<rparr>"

definition demo_two :: tracee where
  "demo_two = demo_tracee\<lparr>mem := demo_mem(0x400010 \<mapsto> 0xcc, 0x400014 \<mapsto> 0xcc)\<rparr>"

lemma demo_traced_two: "traced m_procs demo_mem (demo_sdb [demo_bp, demo_bp4] (demo_at demo_two)) demo_two"
proof -
  have "holds_word demo_mem 0x400014 0x1b1a191817161514" "byte_of 0x1b1a191817161514 0 \<noteq> 0xcc" by code_simp+
  then show ?thesis
    using overlay_add [OF tracedD(3) [OF demo_traced_bp], of demo_bp4]
    by (simp add: traced_def demo_sdb_def demo_at_def demo_two_def demo_bp4_def demo_armed_def)
qed

lemma demo_rearm: "rearm (rip (regs demo_tracee)) [demo_bp] (mem demo_tracee) = demo_mem(0x400010 \<mapsto> 0xcc)"
  by (auto simp: rearm_def fun_eq_iff demo_tracee_def demo_regs_def)

lemma demo_rearm_upd:
  "demo_tracee\<lparr>mem := (\<lambda>x. if x \<in> bp_addr ` set [demo_bp] \<and> rip (regs demo_tracee) < x
     then Some 0xcc else mem demo_tracee x)\<rparr> = demo_armed"
  using demo_rearm by (simp add: rearm_def demo_armed_def)

lemma demo_traced_clear: "traced m_procs demo_mem (demo_sdb [demo_bp] (demo_at demo_tracee)) demo_tracee"
  using demo_traced_bp by (simp add: traced_def demo_at_def overlay_def demo_tracee_def)

subsection \<open>An image\<close>

definition demo_names :: "u8 list" where
  "demo_names = 0 # map byte_of_char ''.shstrtab'' @ [0] @ map byte_of_char ''.text'' @ [0]"

definition demo_shdr :: "nat \<Rightarrow> nat \<Rightarrow> nat \<Rightarrow> nat \<Rightarrow> u8 list" where
  "demo_shdr name addr off sz =
     le_bytes 4 name @ le_bytes 12 0 @ le_bytes 8 addr @ le_bytes 8 off @ le_bytes 8 sz @ replicate 24 0"

definition demo_image :: "u8 list" where
  "demo_image = [0x7f, 0x45, 0x4c, 0x46, 2] @ replicate 19 0 @ le_bytes 8 0x400000 @ le_bytes 8 0 @ le_bytes 8 64 @
     replicate 12 0 @ le_bytes 2 2 @ le_bytes 2 0 @
     demo_shdr 1 0 192 (length demo_names) @ demo_shdr 11 0x400000 0 96 @ demo_names"

lemma demo_image_ok: "elf_image demo_image"
  by code_simp

lemma demo_image_text:
  "find (\<lambda>h. section_name (img_tab demo_image) h = ''.text'') (img_headers demo_image) = Some (demo_shdr 11 0x400000 0 96)"
  by code_simp

definition demo_disk :: machine where
  "demo_disk = demo_world\<lparr>m_files := (\<lambda>f. Some demo_image)\<rparr>"

lemma demo_open: "k_open demo_kernel demo_disk f = Inr demo_image"
  by (simp add: demo_kernel_def machine_kernel_def demo_disk_def)

lemma demo_main_args:
  "\<exists>s. main_args demo_kernel [''a.out''] None (sdb0 demo_disk) = Ok (s, None) \<and> d_state s = LOADED"
  using load_image [of "(sdb0 demo_disk)\<lparr>d_path := ''a.out''\<rparr>" demo_kernel "''a.out''" demo_image]
    demo_image_ok demo_open by (auto simp: sdb0_def elf0_def)

subsection \<open>Reading and starting\<close>

lemma demo_mem_nth: "i < 80 \<Longrightarrow> demo_mem (0x400010 + of_nat i) = Some (map of_nat [16..<96] ! i)"
proof -
  assume i: "i < 80"
  have "(0x400010 + of_nat i - 0x400000 :: u64) = of_nat (16 + i)" by simp
  moreover have "unat (of_nat (16 + i) :: u64) = 16 + i" using i by (subst unat_of_nat) simp
  ultimately have "unat (0x400010 + of_nat i - 0x400000 :: u64) = 16 + i" by (simp only:)
  moreover have "map of_nat [16..<96] ! i = (of_nat (16 + i) :: u8)" using i by (subst nth_map_upt) simp_all
  ultimately show ?thesis using i by (simp add: demo_mem_def del: upt_rec_numeral)
qed

lemma demo_intext: "intext (d_elf (demo_sdb bs w)) 0x400010"
  by (simp add: intext_def demo_sdb_def demo_text)

lemma demo_sdb_out: "d_err (demo_sdb bs w) = fresh_stream" "d_out (demo_sdb bs w) = fresh_stream"
  by (simp_all add: demo_sdb_def)

lemma demo_start:
  "\<exists>t. exec_line demo_kernel ''start'' ((demo_sdb [] demo_world)\<lparr>d_state := LOADED, d_pid := 0\<rparr>) = Ok t \<and>
    d_state t = RUNNING"
proof -
  let ?s = "(demo_sdb [] demo_world)\<lparr>d_state := LOADED, d_pid := 0\<rparr>"
  have "exec_line demo_kernel ''start'' ?s = start demo_kernel ?s"
    using exec_line_words [of "[''start'']" demo_kernel ?s]
    by (simp add: word_ok_def is_space_def nth_arg_def dispatch_def)
  then show ?thesis
    by (simp add: start_def demo_kernel_def machine_kernel_def demo_world_def Let_def m_upd_def m_wait_def)
qed

lemma demo_wait_exit:
  "k_waitpid demo_kernel (demo_world\<lparr>m_status := Some st\<rparr>) p = Some (Inr (st, demo_world\<lparr>m_status := Some st\<rparr>))"
  by (simp add: demo_kernel_def machine_kernel_def m_wait_def)

lemma demo_killed: "WIFSIGNALED 9" "\<not> WIFSTOPPED 9"
    "k_waitpid demo_kernel (demo_world\<lparr>m_status := Some 9\<rparr>) 7 = Some (Inr (9, demo_world\<lparr>m_status := Some 9\<rparr>))"
  by (code_simp, code_simp, rule demo_wait_exit)

text \<open>Texts the witnesses print.\<close>

lemma demo_shows:
  "show_nat 10 0 = ''0''" "show_nat 10 7 = ''7''" "show_nat 10 768 = ''768''" "show_nat 16 10 = ''a''"
  "show_nat 16 0x400010 = ''400010''" "show_nat 16 0x400020 = ''400020''"
  "replicate 8 CHR ''0'' = ''00000000''" "replicate 2 CHR '' '' = ''  ''"
  by code_simp+

end
