(* ===== verification/Wrap.thy ===== *)
theory Wrap
  imports Sdb_Show
begin

text \<open>
  \<open>project2/share.cpp\<close>, the library that \<open>LD_PRELOAD\<close> puts in front of the C library: every wrapper
  makes the real call, finds a name for the file and writes one log line to the descriptor named in
  \<open>LOGGER_OUT\<close>. The real calls (what \<open>dlsym\<close> finds in \<open>libc.so.6\<close>), \<open>realpath\<close>, \<open>readlink\<close>,
  \<open>getenv\<close> and \<open>dprintf\<close> are a record of functions over the world they act on.
\<close>

subsection \<open>The C library\<close>

text \<open>
  A caller's buffer is the list of its bytes: \<open>c_read\<close> and \<open>c_fread\<close> give it back as filled. A stream
  is its address; \<open>c_fileno\<close> is \<open>None\<close> on an address that is not an open stream. \<open>c_open\<close> takes the mode
  only when it is passed. The world has \<open>errno\<close> in it, so a look-up of a name changes the world as well.
\<close>

record 'w libc =
  c_chmod :: "'w \<Rightarrow> string \<Rightarrow> u32 \<Rightarrow> int \<times> 'w"
  c_chown :: "'w \<Rightarrow> string \<Rightarrow> u32 \<Rightarrow> u32 \<Rightarrow> int \<times> 'w"
  c_close :: "'w \<Rightarrow> int \<Rightarrow> int \<times> 'w"
  c_creat :: "'w \<Rightarrow> string \<Rightarrow> u32 \<Rightarrow> int \<times> 'w"
  c_creat64 :: "'w \<Rightarrow> string \<Rightarrow> u32 \<Rightarrow> int \<times> 'w"
  c_fopen :: "'w \<Rightarrow> string \<Rightarrow> string \<Rightarrow> u64 \<times> 'w"
  c_fopen64 :: "'w \<Rightarrow> string \<Rightarrow> string \<Rightarrow> u64 \<times> 'w"
  c_fclose :: "'w \<Rightarrow> u64 \<Rightarrow> int \<times> 'w"
  c_fread :: "'w \<Rightarrow> u8 list \<Rightarrow> u64 \<Rightarrow> u64 \<Rightarrow> u64 \<Rightarrow> u64 \<times> u8 list \<times> 'w"
  c_fwrite :: "'w \<Rightarrow> u8 list \<Rightarrow> u64 \<Rightarrow> u64 \<Rightarrow> u64 \<Rightarrow> u64 \<times> 'w"
  c_open :: "'w \<Rightarrow> string \<Rightarrow> u32 \<Rightarrow> u32 option \<Rightarrow> int \<times> 'w"
  c_open64 :: "'w \<Rightarrow> string \<Rightarrow> u32 \<Rightarrow> u32 option \<Rightarrow> int \<times> 'w"
  c_rename :: "'w \<Rightarrow> string \<Rightarrow> string \<Rightarrow> int \<times> 'w"
  c_write :: "'w \<Rightarrow> int \<Rightarrow> u8 list \<Rightarrow> u64 \<Rightarrow> u64 \<times> 'w"
  c_read :: "'w \<Rightarrow> int \<Rightarrow> u8 list \<Rightarrow> u64 \<Rightarrow> u64 \<times> u8 list \<times> 'w"
  c_tmpfile :: "'w \<Rightarrow> u64 \<times> 'w"
  c_tmpfile64 :: "'w \<Rightarrow> u64 \<times> 'w"
  c_remove :: "'w \<Rightarrow> string \<Rightarrow> int \<times> 'w"
  c_realpath :: "'w \<Rightarrow> string \<Rightarrow> string option \<times> 'w"
  c_readlink :: "'w \<Rightarrow> string \<Rightarrow> string option \<times> 'w"
  c_fileno :: "'w \<Rightarrow> u64 \<Rightarrow> int option"
  c_getenv :: "'w \<Rightarrow> string \<Rightarrow> string option"
  c_dprintf :: "'w \<Rightarrow> int \<Rightarrow> string \<Rightarrow> 'w"

subsection \<open>Names\<close>

definition BUFMAX :: nat where "BUFMAX = 1024"
definition PRINT_SIZE :: int where "PRINT_SIZE = 32"
definition NULLPATH :: string where "NULLPATH = ''untouched''"

text \<open>\<open>printf\<close>: \<open>%d\<close> and \<open>%ld\<close> of a signed value, \<open>%o\<close>, \<open>%p\<close>.\<close>

definition show_dec :: "int \<Rightarrow> string" where
  "show_dec v = (if v < 0 then CHR ''-'' # show_nat 10 (nat (- v)) else show_nat 10 (nat v))"

definition show_oct :: "u32 \<Rightarrow> string" where "show_oct m = show_nat 8 (unat m)"

definition show_ptr :: "u64 \<Rightarrow> string" where
  "show_ptr p = (if p = 0 then ''(nil)'' else ''0x'' @ show_nat 16 (unat p))"

definition path_of :: "'w libc \<Rightarrow> 'w \<Rightarrow> string \<Rightarrow> string \<times> 'w" where
  "path_of L w p = (case c_realpath L w p of (None, w) \<Rightarrow> (NULLPATH, w) | (Some q, w) \<Rightarrow> (q, w))"

text \<open>
  \<open>fd2name\<close> reads the link into a buffer of 1024 zero bytes: a failure leaves it empty, and a link
  that fills it leaves no terminator, so that printing it runs past the buffer (\<open>None\<close>).
\<close>

definition fd2name :: "'w libc \<Rightarrow> 'w \<Rightarrow> int \<Rightarrow> string option \<times> 'w" where
  "fd2name L w fd =
     (case c_readlink L w (''/proc/self/fd/'' @ show_dec fd) of
        (None, w) \<Rightarrow> (Some [], w)
      | (Some t, w) \<Rightarrow> (if length t < BUFMAX then Some t else None, w))"

definition FILE2name :: "'w libc \<Rightarrow> 'w \<Rightarrow> u64 \<Rightarrow> string option \<times> 'w" where
  "FILE2name L w stream = (case c_fileno L w stream of None \<Rightarrow> (None, w) | Some fd \<Rightarrow> fd2name L w fd)"

text \<open>
  \<open>int out = atoi(getenv("LOGGER_OUT")); dprintf(out, \<dots>)\<close>: the descriptor (a null pointer is
  undefined behaviour) and the write of one formatted text.
\<close>

definition log_out :: "'w libc \<Rightarrow> 'w \<Rightarrow> int option" where
  "log_out L w = map_option atoi (c_getenv L w ''LOGGER_OUT'')"

definition emit :: "'w libc \<Rightarrow> 'w \<Rightarrow> string \<Rightarrow> string list \<Rightarrow> 'r \<Rightarrow> ('r \<times> 'w) outcome" where
  "emit L w func args r =
     (case log_out L w of
        None \<Rightarrow> Undef
      | Some out \<Rightarrow> Ok (r, c_dprintf L w out (''[logger] '' @ func @ concat args)))"

definition quoted :: "string \<Rightarrow> string" where
  "quoted t = CHR 0x22 # t @ [CHR 0x22]"

subsection \<open>Calls on paths\<close>

definition chmod :: "'w libc \<Rightarrow> string \<Rightarrow> u32 \<Rightarrow> 'w \<Rightarrow> (int \<times> 'w) outcome" where
  "chmod L pathname mode w =
     (let (result, w) = c_chmod L w pathname mode; (path, w) = path_of L w pathname
      in emit L w ''chmod'' [''('', quoted path, '', '', show_oct mode, '') = '', show_dec result, [newline]] result)"

definition chown :: "'w libc \<Rightarrow> string \<Rightarrow> u32 \<Rightarrow> u32 \<Rightarrow> 'w \<Rightarrow> (int \<times> 'w) outcome" where
  "chown L pathname owner grp w =
     (let (result, w) = c_chown L w pathname owner grp; (path, w) = path_of L w pathname
      in emit L w ''chown'' [''('', quoted path, '', '', show_dec (sint owner), '', '', show_dec (sint grp),
           '') = '', show_dec result, [newline]] result)"

definition creat64 :: "'w libc \<Rightarrow> string \<Rightarrow> u32 \<Rightarrow> 'w \<Rightarrow> (int \<times> 'w) outcome" where
  "creat64 L pathname mode w =
     (let (result, w) = c_creat64 L w pathname mode; (path, w) = path_of L w pathname
      in emit L w ''creat64'' [''('', quoted path, '', '', show_oct mode, '') = '', show_dec result, [newline]] result)"

definition creat :: "'w libc \<Rightarrow> string \<Rightarrow> u32 \<Rightarrow> 'w \<Rightarrow> (int \<times> 'w) outcome" where
  "creat L pathname mode w =
     (let (result, w) = c_creat L w pathname mode; (path, w) = path_of L w pathname
      in emit L w ''creat'' [''('', quoted path, '', '', show_oct mode, '') = '', show_dec result, [newline]] result)"

definition fopen :: "'w libc \<Rightarrow> string \<Rightarrow> string \<Rightarrow> 'w \<Rightarrow> (u64 \<times> 'w) outcome" where
  "fopen L pathname mode w =
     (let (result, w) = c_fopen L w pathname mode; (path, w) = path_of L w pathname
      in emit L w ''fopen'' [''('', quoted path, '', '', quoted mode, '') = '', show_ptr result, [newline]] result)"

definition fopen64 :: "'w libc \<Rightarrow> string \<Rightarrow> string \<Rightarrow> 'w \<Rightarrow> (u64 \<times> 'w) outcome" where
  "fopen64 L pathname mode w =
     (let (result, w) = c_fopen64 L w pathname mode; (path, w) = path_of L w pathname
      in emit L w ''fopen64'' [''('', quoted path, '', '', quoted mode, '') = '', show_ptr result, [newline]] result)"

text \<open>The old name is resolved before the call, the new one after it; \<open>remove\<close> resolves before.\<close>

definition rename :: "'w libc \<Rightarrow> string \<Rightarrow> string \<Rightarrow> 'w \<Rightarrow> (int \<times> 'w) outcome" where
  "rename L oldpath newpath w =
     (let (path1, w) = path_of L w oldpath;
          (result, w) = c_rename L w oldpath newpath;
          (path2, w) = path_of L w newpath
      in emit L w ''rename'' [''('', quoted path1, '', '', quoted path2, '') = '', show_dec result, [newline]] result)"

definition remove_w :: "'w libc \<Rightarrow> string \<Rightarrow> 'w \<Rightarrow> (int \<times> 'w) outcome" where
  "remove_w L pathname w =
     (let (path, w) = path_of L w pathname; (result, w) = c_remove L w pathname
      in emit L w ''remove'' [''('', quoted path, '') = '', show_dec result, [newline]] result)"

definition tmpfile :: "'w libc \<Rightarrow> 'w \<Rightarrow> (u64 \<times> 'w) outcome" where
  "tmpfile L w =
     (let (result, w) = c_tmpfile L w in emit L w ''tmpfile'' [''() = '', quoted (show_ptr result), [newline]] result)"

definition tmpfile64 :: "'w libc \<Rightarrow> 'w \<Rightarrow> (u64 \<times> 'w) outcome" where
  "tmpfile64 L w =
     (let (result, w) = c_tmpfile64 L w in emit L w ''tmpfile64'' [''() = '', quoted (show_ptr result), [newline]] result)"

text \<open>
  \<open>open\<close> and \<open>open64\<close>: the variadic mode is fetched when \<open>flags & O_CREAT\<close> or \<open>flags & O_TMPFILE\<close> is
  not 0; fetching one that was not passed is undefined behaviour.
\<close>

definition O_CREAT :: u32 where "O_CREAT = 0x40"
definition O_DIRECTORY :: u32 where "O_DIRECTORY = 0x10000"
definition O_TMPFILE :: u32 where "O_TMPFILE = 0x410000"

definition open_args :: "u32 \<Rightarrow> u32 option \<Rightarrow> (u32 \<times> u32 option) option" where
  "open_args flags va =
     (if flags AND O_CREAT \<noteq> 0 \<or> flags AND O_TMPFILE \<noteq> 0
      then (case va of None \<Rightarrow> None | Some mode \<Rightarrow> Some (mode, Some mode))
      else Some (0, None))"

definition open_w :: "'w libc \<Rightarrow> string \<Rightarrow> u32 \<Rightarrow> u32 option \<Rightarrow> 'w \<Rightarrow> (int \<times> 'w) outcome" where
  "open_w L pathname flags va w =
     (case open_args flags va of
        None \<Rightarrow> Undef
      | Some (mode, passed) \<Rightarrow>
          let (result, w) = c_open L w pathname flags passed; (path, w) = path_of L w pathname
          in emit L w ''open'' [''('', quoted path, '', '', show_oct flags, '', '', show_oct mode,
               '') = '', show_dec result, [newline]] result)"

definition open64_w :: "'w libc \<Rightarrow> string \<Rightarrow> u32 \<Rightarrow> u32 option \<Rightarrow> 'w \<Rightarrow> (int \<times> 'w) outcome" where
  "open64_w L pathname flags va w =
     (case open_args flags va of
        None \<Rightarrow> Undef
      | Some (mode, passed) \<Rightarrow>
          let (result, w) = c_open64 L w pathname flags passed; (path, w) = path_of L w pathname
          in emit L w ''open64'' [''('', quoted path, '', '', show_oct flags, '', '', show_oct mode,
               '') = '', show_dec result, [newline]] result)"

subsection \<open>Calls on descriptors and streams\<close>

definition close :: "'w libc \<Rightarrow> int \<Rightarrow> 'w \<Rightarrow> (int \<times> 'w) outcome" where
  "close L fd w =
     (case fd2name L w fd of
        (None, w) \<Rightarrow> Undef
      | (Some name, w) \<Rightarrow>
          let (result, w) = (if fd \<noteq> 2 then c_close L w fd else (0, w))
          in emit L w ''close'' [''('', quoted name, '') = '', show_dec result, [newline]] result)"

definition fclose :: "'w libc \<Rightarrow> u64 \<Rightarrow> 'w \<Rightarrow> (int \<times> 'w) outcome" where
  "fclose L stream w =
     (case FILE2name L w stream of
        (None, w) \<Rightarrow> Undef
      | (Some buf, w) \<Rightarrow>
          let (result, w) = c_fclose L w stream
          in emit L w ''fclose'' [''('', quoted buf, '') = '', show_dec result, [newline]] result)"

text \<open>
  The loop that prints the bytes of a buffer, one \<open>dprintf\<close> each, with its 32-bit index and a 64-bit
  step. It may not end: the outer \<open>None\<close> is a run that does not return.
\<close>

partial_function (option) show_loop ::
  "'w libc \<Rightarrow> int \<Rightarrow> (u32 \<Rightarrow> bool) \<Rightarrow> u64 \<Rightarrow> u8 list \<Rightarrow> u32 \<Rightarrow> 'w \<Rightarrow> 'w outcome option" where
  "show_loop L out again stp buf i w =
     (if \<not> again i then Some (Ok w)
      else if length buf \<le> unat i then Some Undef
      else show_loop L out again stp buf (ucast (scast i + stp)) (c_dprintf L w out [ascii_of (buf ! unat i)]))"

text \<open>The name, the head of the line, the loop and the tail, as the four transfer calls have them.\<close>

definition show_data :: "'w libc \<Rightarrow> string \<Rightarrow> (u32 \<Rightarrow> bool) \<Rightarrow> u64 \<Rightarrow> u8 list \<Rightarrow> string \<Rightarrow> 'r \<Rightarrow> 'w \<Rightarrow> ('r \<times> 'w) outcome option" where
  "show_data L head again stp buf tail r w =
     (case log_out L w of
        None \<Rightarrow> Some Undef
      | Some out \<Rightarrow>
          (case show_loop L out again stp buf 0 (c_dprintf L w out head) of
             None \<Rightarrow> None
           | Some m \<Rightarrow> Some (andthen m (\<lambda>w. Ok (r, c_dprintf L w out tail)) (\<lambda>w. (r, w)))))"

definition fread_w :: "'w libc \<Rightarrow> u8 list \<Rightarrow> u64 \<Rightarrow> u64 \<Rightarrow> u64 \<Rightarrow> 'w \<Rightarrow> ((u64 \<times> u8 list) \<times> 'w) outcome option" where
  "fread_w L ptr siz nmemb stream w =
     (let (result, ptr, w) = c_fread L w ptr siz nmemb stream
      in case FILE2name L w stream of
           (None, w) \<Rightarrow> Some Undef
         | (Some buf, w) \<Rightarrow>
             show_data L (''[logger] fread('' @ [CHR 0x22])
               (\<lambda>i. scast i < siz * nmemb \<and> sint i < PRINT_SIZE \<and> scast i < result) 1 ptr
               ([CHR 0x22] @ '', '' @ show_dec (sint siz) @ '', '' @ show_dec (sint nmemb) @ '', '' @ quoted buf @
                '') = '' @ show_dec (sint result) @ [newline]) (result, ptr) w)"

definition fwrite :: "'w libc \<Rightarrow> u8 list \<Rightarrow> u64 \<Rightarrow> u64 \<Rightarrow> u64 \<Rightarrow> 'w \<Rightarrow> (u64 \<times> 'w) outcome option" where
  "fwrite L ptr siz nmemb stream w =
     (let (result, w) = c_fwrite L w ptr siz nmemb stream
      in case FILE2name L w stream of
           (None, w) \<Rightarrow> Some Undef
         | (Some name, w) \<Rightarrow>
             show_data L (''[logger] fwrite('' @ [CHR 0x22])
               (\<lambda>i. scast i < siz * nmemb \<and> sint i < PRINT_SIZE \<and> scast i < result) siz ptr
               ([CHR 0x22] @ '', '' @ show_dec (sint siz) @ '', '' @ show_dec (sint nmemb) @ '', '' @ quoted name @
                '') = '' @ show_dec (sint result) @ [newline]) result w)"

definition write_w :: "'w libc \<Rightarrow> int \<Rightarrow> u8 list \<Rightarrow> u64 \<Rightarrow> 'w \<Rightarrow> (u64 \<times> 'w) outcome option" where
  "write_w L fd buf count w =
     (let (result, w) = c_write L w fd buf count
      in case fd2name L w fd of
           (None, w) \<Rightarrow> Some Undef
         | (Some name, w) \<Rightarrow>
             show_data L (''[logger] write('' @ name @ '', '' @ [CHR 0x22])
               (\<lambda>i. scast i < count \<and> sint i < PRINT_SIZE \<and> sint i < sint result) 1 buf
               ([CHR 0x22] @ '', '' @ show_dec (sint count) @ '') = '' @ show_dec (sint result) @ [newline]) result w)"

definition read_w :: "'w libc \<Rightarrow> int \<Rightarrow> u8 list \<Rightarrow> u64 \<Rightarrow> 'w \<Rightarrow> ((u64 \<times> u8 list) \<times> 'w) outcome option" where
  "read_w L fd buf count w =
     (let (result, buf, w) = c_read L w fd buf count
      in case fd2name L w fd of
           (None, w) \<Rightarrow> Some Undef
         | (Some name, w) \<Rightarrow>
             show_data L (''[logger] read('' @ name @ '', '' @ [CHR 0x22])
               (\<lambda>i. scast i < count \<and> sint i < PRINT_SIZE \<and> sint i < sint result) 1 buf
               ([CHR 0x22] @ '', '' @ show_dec (sint count) @ '') = '' @ show_dec (sint result) @ [newline])
               (result, buf) w)"

text \<open>A directory opened without a mode, as \<open>opendir\<close> does: the test of \<open>O_TMPFILE\<close> fetches one.\<close>

lemma open_directory_mode:
  "open_w L p (O_DIRECTORY OR flags) None w = Undef"
proof -
  have "(O_DIRECTORY OR flags) AND O_TMPFILE \<noteq> 0"
  proof
    assume "(O_DIRECTORY OR flags) AND O_TMPFILE = 0"
    then have "bit ((O_DIRECTORY OR flags) AND O_TMPFILE) 16 = bit (0 :: u32) 16" by simp
    moreover have "bit O_DIRECTORY 16" "bit O_TMPFILE 16" by code_simp+
    ultimately show False by (simp add: bit_and_iff bit_or_iff)
  qed
  then show ?thesis by (simp add: open_w_def open_args_def)
qed

end
