(* ===== verification/Wrap_Log.thy ===== *)
theory Wrap_Log
  imports Wrap
begin

text \<open>
  What the wrappers of \<open>project2/share.cpp\<close> do over a world in which \<open>dprintf\<close> appends to the log of its
  descriptor and a look-up of a name changes \<open>errno\<close> at most: but for \<open>errno\<close> they are transparent, the data
  shown by the transfer calls is a prefix with unprintable bytes as dots, and two calls on which they are
  not what they should be.
\<close>

text \<open>
  \<open>rest\<close> is the world without the log and without \<open>errno\<close>; the environment, and what a call does to the
  rest, depend on the rest only. (Stated for the four calls that a look-up comes before.)
\<close>

locale log_sink =
  fixes L :: "'w libc" and log :: "'w \<Rightarrow> int \<Rightarrow> string" and rest :: "'w \<Rightarrow> 'r"
  assumes dprintf_log: "log (c_dprintf L w fd t) fd = log w fd @ t"
    and dprintf_rest: "rest (c_dprintf L w fd t) = rest w"
    and realpath_rest: "rest (snd (c_realpath L w p)) = rest w"
    and realpath_log: "log (snd (c_realpath L w p)) = log w"
    and readlink_rest: "rest (snd (c_readlink L w p)) = rest w"
    and readlink_log: "log (snd (c_readlink L w p)) = log w"
    and getenv_rest: "rest v = rest w \<Longrightarrow> c_getenv L v = c_getenv L w"
    and close_rest: "rest v = rest w \<Longrightarrow> apsnd rest (c_close L v d) = apsnd rest (c_close L w d)"
    and fclose_rest: "rest v = rest w \<Longrightarrow> apsnd rest (c_fclose L v f) = apsnd rest (c_fclose L w f)"
    and rename_rest: "rest v = rest w \<Longrightarrow> apsnd rest (c_rename L v p q) = apsnd rest (c_rename L w p q)"
    and remove_rest: "rest v = rest w \<Longrightarrow> apsnd rest (c_remove L v p) = apsnd rest (c_remove L w p)"
begin

lemma path_of_rest: "path_of L w p = (q, w') \<Longrightarrow> rest w' = rest w \<and> log w' = log w"
  using realpath_rest [of w p] realpath_log [of w p] by (auto simp: path_of_def split: prod.splits option.splits)

lemma fd2name_rest: "fd2name L w fd = (q, w') \<Longrightarrow> rest w' = rest w \<and> log w' = log w"
  using readlink_rest [of w "''/proc/self/fd/'' @ show_dec fd"] readlink_log [of w "''/proc/self/fd/'' @ show_dec fd"]
  by (auto simp: fd2name_def split: prod.splits option.splits)

lemma FILE2name_rest: "FILE2name L w f = (q, w') \<Longrightarrow> rest w' = rest w \<and> log w' = log w"
  by (auto simp: FILE2name_def dest: fd2name_rest split: option.splits)

lemma log_out_rest: "rest v = rest w \<Longrightarrow> log_out L v = log_out L w"
  by (simp add: log_out_def getenv_rest [of v w])

end

subsection \<open>Indices\<close>

lemma filter_dvd_step:
  assumes "0 < s" "s dvd i" "i < n"
  shows "filter (\<lambda>j. s dvd j) [i..<n] = i # filter (\<lambda>j. s dvd j) [i + s..<n]"
proof -
  have none: "filter (\<lambda>j. s dvd j) [Suc i..<m] = []" if "m \<le> i + s" for m
  proof -
    have "\<not> s dvd j" if j: "i < j" "j < i + s" for j
    proof
      assume "s dvd j"
      then have "s dvd j - i" using assms(2) by (rule dvd_diff_nat)
      with j show False by (auto dest: dvd_imp_le)
    qed
    then show ?thesis using \<open>m \<le> i + s\<close> by (auto simp: filter_empty_conv)
  qed
  show ?thesis
  proof (cases "n \<le> i + s")
    case True
    then show ?thesis using none [of n] assms by (simp add: upt_conv_Cons)
  next
    case False
    then have "[Suc i..<n] = [Suc i..<i + s] @ [i + s..<n]"
      using assms(1) upt_add_eq_append [of "Suc i" "i + s" "n - (i + s)"] by simp
    then show ?thesis using none [of "i + s"] assms by (simp add: upt_conv_Cons)
  qed
qed

text \<open>The next index, for a step that keeps it below \<open>2 ^ 31\<close>.\<close>

lemma next_index:
  assumes "unat i + unat stp < 2 ^ 31"
  shows "unat (ucast (scast (i :: u32) + (stp :: u64)) :: u32) = unat i + unat stp"
proof -
  have "scast i + stp = (of_nat (unat i + unat stp) :: u64)"
    using assms scast_lt31 [of i] by simp
  then show ?thesis using assms
    by (simp only: unsigned_of_nat unat_of_nat) (simp add: unsigned_of_nat take_bit_nat_eq_self)
qed

lemma scast_less: "unat i < 2 ^ 31 \<Longrightarrow> scast (i :: u32) < (n :: u64) \<longleftrightarrow> unat i < unat n"
proof -
  assume i: "unat i < 2 ^ 31"
  then have "unat (of_nat (unat i) :: u64) = unat i" by (simp only: unat_of_nat) simp
  then show ?thesis by (simp only: scast_lt31 [OF i] word_less_nat_alt)
qed

subsection \<open>The loop that shows a buffer\<close>

definition shown :: "nat \<Rightarrow> nat \<Rightarrow> u8 list \<Rightarrow> string" where
  "shown stp n buf = map (\<lambda>i. ascii_of (buf ! i)) (filter (\<lambda>i. stp dvd i) [0..<n])"

lemma shown_1: "n \<le> length buf \<Longrightarrow> shown 1 n buf = map ascii_of (take n buf)"
  by (auto simp: shown_def intro: nth_equalityI)

context log_sink
begin

lemma show_loop_runs:
  assumes n: "n \<le> 32" "n \<le> length buf" and stp: "0 < unat stp" "unat stp < 2 ^ 30"
    and again: "\<And>i. unat i < 2 ^ 31 \<Longrightarrow> again i \<longleftrightarrow> unat i < n"
  shows "unat i < 2 ^ 31 \<Longrightarrow> unat stp dvd unat i \<Longrightarrow>
    \<exists>w'. show_loop L out again stp buf i w = Some (Ok w') \<and> rest w' = rest w \<and>
      log w' out = log w out @ map (\<lambda>i. ascii_of (buf ! i)) (filter (\<lambda>j. unat stp dvd j) [unat i..<n])"
proof (induction "n - unat i" arbitrary: i w rule: less_induct)
  case less
  show ?case
  proof (cases "unat i < n")
    case False
    with less.prems again [of i] show ?thesis
      by (subst show_loop.simps) (intro exI [of _ w], simp)
  next
    case True
    let ?i = "ucast (scast i + stp) :: u32"
    let ?w = "c_dprintf L w out [ascii_of (buf ! unat i)]"
    have nx: "unat ?i = unat i + unat stp" using True n stp by (intro next_index) simp
    have d: "n - unat ?i < n - unat i" "unat ?i < 2 ^ 31" "unat stp dvd unat ?i"
      unfolding nx using True stp n less.prems by simp_all
    from less.hyps [OF d, of ?w] obtain w' where
      w': "show_loop L out again stp buf ?i ?w = Some (Ok w')" "rest w' = rest ?w"
      "log w' out = log ?w out @ map (\<lambda>i. ascii_of (buf ! i)) (filter (\<lambda>j. unat stp dvd j) [unat i + unat stp..<n])"
      unfolding nx by blast
    have "show_loop L out again stp buf i w = Some (Ok w')"
      using True n(2) less.prems again [of i] w'(1) by (subst show_loop.simps) simp
    with w' filter_dvd_step [OF stp(1) less.prems(2) True] show ?thesis
      by (simp add: dprintf_log dprintf_rest)
  qed
qed

lemma show_data_runs:
  assumes n: "n \<le> 32" "n \<le> length buf" and stp: "0 < unat stp" "unat stp < 2 ^ 30"
    and again: "\<And>i. unat i < 2 ^ 31 \<Longrightarrow> again i \<longleftrightarrow> unat i < n" and out: "log_out L w = Some out"
  shows "\<exists>w'. show_data L head again stp buf tail r w = Some (Ok (r, w')) \<and> rest w' = rest w \<and>
    log w' out = log w out @ head @ shown (unat stp) n buf @ tail"
proof -
  from show_loop_runs [OF n stp again, of 0 out "c_dprintf L w out head"] obtain w1 where
    "show_loop L out again stp buf 0 (c_dprintf L w out head) = Some (Ok w1)"
    "rest w1 = rest w" "log w1 out = log w out @ head @ shown (unat stp) n buf"
    by (auto simp: dprintf_log dprintf_rest shown_def)
  then show ?thesis using out by (simp add: show_data_def dprintf_log dprintf_rest)
qed

lemma emit_runs:
  "log_out L w = Some out \<Longrightarrow> \<exists>w'. emit L w func args r = Ok (r, w') \<and> rest w' = rest w \<and>
    log w' out = log w out @ ''[logger] '' @ func @ concat args"
  by (simp add: emit_def dprintf_log dprintf_rest)

end

text \<open>The tests of the transfer loops, for an index that is not negative.\<close>

lemma again_unsigned:
  assumes "unat i < 2 ^ 31"
  shows "scast (i :: u32) < (len :: u64) \<and> sint i < PRINT_SIZE \<and> scast i < (result :: u64) \<longleftrightarrow>
    unat i < min 32 (min (unat len) (unat result))"
  using assms
  by (simp only: scast_less sint_lt31 PRINT_SIZE_def min_less_iff_conj of_nat_less_numeral_iff zless_nat_eq_int_zless) blast

lemma again_signed:
  assumes "unat i < 2 ^ 31"
  shows "scast (i :: u32) < (count :: u64) \<and> sint i < PRINT_SIZE \<and> sint i < sint (result :: u64) \<longleftrightarrow>
    unat i < min 32 (min (unat count) (nat (sint result)))"
  using assms
  by (simp only: scast_less sint_lt31 PRINT_SIZE_def min_less_iff_conj of_nat_less_numeral_iff zless_nat_eq_int_zless) blast

subsection \<open>Transparency\<close>

text \<open>A view of the world that logging does not change is not changed by the loop.\<close>

lemma show_loop_keeps:
  assumes "show_loop L out again stp buf i w = Some m" "\<And>v t. f (c_dprintf L v out t) = f v" "m = Ok w'"
  shows "f w' = f w"
proof -
  have "(\<forall>v t. f (c_dprintf L v out t) = f v) \<longrightarrow> (\<forall>w'. m = Ok w' \<longrightarrow> f w' = f w)"
  proof (rule show_loop.raw_induct [where P = "\<lambda>L out again stp buf i w m.
      (\<forall>v t. f (c_dprintf L v out t) = f v) \<longrightarrow> (\<forall>w'. m = Ok w' \<longrightarrow> f w' = f w)", rotated, OF assms(1)], goal_cases)
    case (1 loop L out again stp buf i w m)
    show ?case
    proof (intro impI allI)
      fix w' assume f: "\<forall>v t. f (c_dprintf L v out t) = f v" and m: "m = Ok w'"
      show "f w' = f w"
      proof (cases "again i \<and> \<not> length buf \<le> unat i")
        case True
        then have "loop L out again stp buf (ucast (scast i + stp)) (c_dprintf L w out [ascii_of (buf ! unat i)]) = Some m"
          using 1(2) by simp
        from 1(1) [OF this] f m have "f w' = f (c_dprintf L w out [ascii_of (buf ! unat i)])" by blast
        also have "\<dots> = f w" using f by blast
        finally show ?thesis .
      next
        case False
        with 1(2) m show ?thesis by (simp split: if_split_asm)
      qed
    qed
  qed
  with assms(2,3) show ?thesis by blast
qed

text \<open>A step that is a multiple of \<open>2 ^ 32\<close> leaves the 32-bit index at 0: the loop does not end.\<close>

lemma show_loop_stuck:
  assumes "again 0" "buf \<noteq> []" "(ucast stp :: u32) = 0"
  shows "show_loop L out again stp buf 0 w = None"
proof -
  have "\<not> (i = 0 \<and> again 0 \<and> buf \<noteq> [] \<and> (ucast stp :: u32) = 0)"
    if "show_loop L out again stp buf i w = Some m" for L out again stp buf i w and m :: "'a outcome"
  proof (rule show_loop.raw_induct [where P = "\<lambda>L out again stp buf i w m.
      \<not> (i = 0 \<and> again 0 \<and> buf \<noteq> [] \<and> (ucast stp :: u32) = 0)", rotated, OF that], goal_cases)
    case (1 loop L out again stp buf i w m)
    show ?case
    proof
      assume z: "i = 0 \<and> again 0 \<and> buf \<noteq> [] \<and> (ucast stp :: u32) = 0"
      then have "loop L out again stp buf 0 (c_dprintf L w out [ascii_of (buf ! 0)]) = Some m"
        using 1(2) by simp
      from 1(1) [OF this] z show False by blast
    qed
  qed
  with assms show ?thesis by (metis option.exhaust)
qed

context log_sink
begin

lemma emit_rest: "emit L w func args r = Ok (r', w') \<Longrightarrow> r' = r \<and> rest w' = rest w"
  by (auto simp: emit_def dprintf_rest split: option.splits)

lemma show_data_rest: "show_data L head again stp buf last_part r w = Some (Ok (r', w')) \<Longrightarrow> r' = r \<and> rest w' = rest w"
proof -
  assume s: "show_data L head again stp buf last_part r w = Some (Ok (r', w'))"
  then obtain out where out: "log_out L w = Some out" by (auto simp: show_data_def split: option.splits)
  obtain m where m: "show_loop L out again stp buf 0 (c_dprintf L w out head) = Some m"
    using s out by (auto simp: show_data_def split: option.splits)
  with s out obtain v where v: "m = Ok v" by (cases m) (auto simp: show_data_def)
  have "rest v = rest (c_dprintf L w out head)"
    by (rule show_loop_keeps [OF m _ v]) (rule dprintf_rest)
  with s out m v show ?thesis by (auto simp: show_data_def dprintf_rest)
qed

text \<open>Each wrapper that returns has returned what the real call returns, in the world it leaves.\<close>

lemma path_calls_rest:
  "chmod L p m w = Ok (r, w') \<Longrightarrow> (r, rest w') = apsnd rest (c_chmod L w p m)"
  "chown L p u g w = Ok (r, w') \<Longrightarrow> (r, rest w') = apsnd rest (c_chown L w p u g)"
  "creat L p m w = Ok (r, w') \<Longrightarrow> (r, rest w') = apsnd rest (c_creat L w p m)"
  "creat64 L p m w = Ok (r, w') \<Longrightarrow> (r, rest w') = apsnd rest (c_creat64 L w p m)"
  "fopen L p k w = Ok (s, w') \<Longrightarrow> (s, rest w') = apsnd rest (c_fopen L w p k)"
  "fopen64 L p k w = Ok (s, w') \<Longrightarrow> (s, rest w') = apsnd rest (c_fopen64 L w p k)"
  "tmpfile L w = Ok (s, w') \<Longrightarrow> (s, rest w') = apsnd rest (c_tmpfile L w)"
  "tmpfile64 L w = Ok (s, w') \<Longrightarrow> (s, rest w') = apsnd rest (c_tmpfile64 L w)"
  by (auto simp: chmod_def chown_def creat_def creat64_def fopen_def fopen64_def
      tmpfile_def tmpfile64_def Let_def dest!: emit_rest path_of_rest split: prod.splits)

text \<open>Here the old name is looked up before the call.\<close>

lemma lookup_first_rest:
  "rename L p q w = Ok (r, w') \<Longrightarrow> (r, rest w') = apsnd rest (c_rename L w p q)"
  "remove_w L p w = Ok (r, w') \<Longrightarrow> (r, rest w') = apsnd rest (c_remove L w p)"
proof -
  show "(r, rest w') = apsnd rest (c_rename L w p q)" if c: "rename L p q w = Ok (r, w')"
  proof -
    obtain a w1 where w1: "path_of L w p = (a, w1)" by (cases "path_of L w p")
    then have "(r, rest w') = apsnd rest (c_rename L w1 p q)"
      using c by (auto simp: rename_def Let_def dest!: emit_rest path_of_rest split: prod.splits)
    then show ?thesis using rename_rest [of w1 w p q] path_of_rest [OF w1] by simp
  qed
  show "(r, rest w') = apsnd rest (c_remove L w p)" if c: "remove_w L p w = Ok (r, w')"
  proof -
    obtain a w1 where w1: "path_of L w p = (a, w1)" by (cases "path_of L w p")
    then have "(r, rest w') = apsnd rest (c_remove L w1 p)"
      using c by (auto simp: remove_w_def Let_def dest!: emit_rest split: prod.splits)
    then show ?thesis using remove_rest [of w1 w p] path_of_rest [OF w1] by simp
  qed
qed

lemma open_calls_rest:
  "open_w L p fl va w = Ok (r, w') \<Longrightarrow> \<exists>mode passed. open_args fl va = Some (mode, passed) \<and>
     (r, rest w') = apsnd rest (c_open L w p fl passed)"
  "open64_w L p fl va w = Ok (r, w') \<Longrightarrow> \<exists>mode passed. open_args fl va = Some (mode, passed) \<and>
     (r, rest w') = apsnd rest (c_open64 L w p fl passed)"
  by (auto simp: open_w_def open64_w_def Let_def dest!: emit_rest path_of_rest split: prod.splits option.splits)

lemma fd_calls_rest:
  "close L fd w = Ok (r, w') \<Longrightarrow> (r, rest w') = (if fd = 2 then (0, rest w) else apsnd rest (c_close L w fd))"
  "fclose L st w = Ok (r, w') \<Longrightarrow> (r, rest w') = apsnd rest (c_fclose L w st)"
proof -
  show "(r, rest w') = (if fd = 2 then (0, rest w) else apsnd rest (c_close L w fd))" if c: "close L fd w = Ok (r, w')"
  proof -
    obtain a w1 where w1: "fd2name L w fd = (a, w1)" by (cases "fd2name L w fd")
    then have "(r, rest w') = (if fd = 2 then (0, rest w1) else apsnd rest (c_close L w1 fd))"
      using c by (auto simp: close_def Let_def dest!: emit_rest split: prod.splits option.splits if_splits)
    then show ?thesis using close_rest [of w1 w fd] fd2name_rest [OF w1] by simp
  qed
  show "(r, rest w') = apsnd rest (c_fclose L w st)" if c: "fclose L st w = Ok (r, w')"
  proof -
    obtain a w1 where w1: "FILE2name L w st = (a, w1)" by (cases "FILE2name L w st")
    then have "(r, rest w') = apsnd rest (c_fclose L w1 st)"
      using c by (auto simp: fclose_def Let_def dest!: emit_rest split: prod.splits option.splits)
    then show ?thesis using fclose_rest [of w1 w st] FILE2name_rest [OF w1] by simp
  qed
qed

lemma transfer_calls_rest:
  "read_w L fd b c w = Some (Ok ((n, b'), w')) \<Longrightarrow> (n, b', rest w') = apsnd (apsnd rest) (c_read L w fd b c)"
  "write_w L fd b c w = Some (Ok (n, w')) \<Longrightarrow> (n, rest w') = apsnd rest (c_write L w fd b c)"
  "fread_w L b z c st w = Some (Ok ((n, b'), w')) \<Longrightarrow> (n, b', rest w') = apsnd (apsnd rest) (c_fread L w b z c st)"
  "fwrite L b z c st w = Some (Ok (n, w')) \<Longrightarrow> (n, rest w') = apsnd rest (c_fwrite L w b z c st)"
  by (auto simp: read_w_def write_w_def fread_w_def fwrite_def Let_def dest!: show_data_rest fd2name_rest FILE2name_rest
      split: prod.splits option.splits)

text \<open>The line of each transfer call, whatever is transferred.\<close>

lemma read_line:
  assumes "c_read L w fd b c = (n, b', w1)" "fst (fd2name L w1 fd) = Some name" "log_out L w1 = Some out"
    "nat (sint n) \<le> length b'"
  shows "\<exists>w'. read_w L fd b c w = Some (Ok ((n, b'), w')) \<and> rest w' = rest w1 \<and>
    log w' out = log w1 out @ ''[logger] read('' @ name @ '', '' @
      quoted (map ascii_of (take (min 32 (min (unat c) (nat (sint n)))) b')) @ '', '' @ show_dec (sint c) @
      '') = '' @ show_dec (sint n) @ [newline]"
proof -
  obtain w2 where w2: "fd2name L w1 fd = (Some name, w2)" using assms(2) by (cases "fd2name L w1 fd") simp
  note k = fd2name_rest [OF w2]
  have out: "log_out L w2 = Some out" using log_out_rest [of w2 w1] k assms(3) by simp
  let ?n = "min 32 (min (unat c) (nat (sint n)))"
  have "?n \<le> 32" "?n \<le> length b'" using assms(4) by auto
  from show_data_runs [OF this _ _ again_signed out, of 1 "''[logger] read('' @ name @ '', '' @ [CHR 0x22]"
      "[CHR 0x22] @ '', '' @ show_dec (sint c) @ '') = '' @ show_dec (sint n) @ [newline]" "(n, b')"]
  show ?thesis using assms(1) w2 k \<open>?n \<le> length b'\<close> shown_1 [of ?n b']
    by (simp add: read_w_def quoted_def)
qed

lemma write_line:
  assumes "c_write L w fd b c = (n, w1)" "fst (fd2name L w1 fd) = Some name" "log_out L w1 = Some out"
    "nat (sint n) \<le> length b"
  shows "\<exists>w'. write_w L fd b c w = Some (Ok (n, w')) \<and> rest w' = rest w1 \<and>
    log w' out = log w1 out @ ''[logger] write('' @ name @ '', '' @
      quoted (map ascii_of (take (min 32 (min (unat c) (nat (sint n)))) b)) @ '', '' @ show_dec (sint c) @
      '') = '' @ show_dec (sint n) @ [newline]"
proof -
  obtain w2 where w2: "fd2name L w1 fd = (Some name, w2)" using assms(2) by (cases "fd2name L w1 fd") simp
  note k = fd2name_rest [OF w2]
  have out: "log_out L w2 = Some out" using log_out_rest [of w2 w1] k assms(3) by simp
  let ?n = "min 32 (min (unat c) (nat (sint n)))"
  have "?n \<le> 32" "?n \<le> length b" using assms(4) by auto
  from show_data_runs [OF this _ _ again_signed out, of 1 "''[logger] write('' @ name @ '', '' @ [CHR 0x22]"
      "[CHR 0x22] @ '', '' @ show_dec (sint c) @ '') = '' @ show_dec (sint n) @ [newline]" n]
  show ?thesis using assms(1) w2 k \<open>?n \<le> length b\<close> shown_1 [of ?n b]
    by (simp add: write_w_def quoted_def)
qed

lemma fwrite_line:
  assumes "c_fwrite L w b z c st = (n, w1)" "fst (FILE2name L w1 st) = Some name" "log_out L w1 = Some out"
    "unat n \<le> length b" "0 < unat z" "unat z < 2 ^ 30"
  shows "\<exists>w'. fwrite L b z c st w = Some (Ok (n, w')) \<and> rest w' = rest w1 \<and>
    log w' out = log w1 out @ ''[logger] fwrite('' @
      quoted (shown (unat z) (min 32 (min (unat (z * c)) (unat n))) b) @ '', '' @ show_dec (sint z) @ '', '' @
      show_dec (sint c) @ '', '' @ quoted name @ '') = '' @ show_dec (sint n) @ [newline]"
proof -
  obtain w2 where w2: "FILE2name L w1 st = (Some name, w2)" using assms(2) by (cases "FILE2name L w1 st") simp
  note k = FILE2name_rest [OF w2]
  have out: "log_out L w2 = Some out" using log_out_rest [of w2 w1] k assms(3) by simp
  let ?n = "min 32 (min (unat (z * c)) (unat n))"
  have "?n \<le> 32" "?n \<le> length b" using assms(4) by auto
  from show_data_runs [OF this assms(5,6) again_unsigned out, of "''[logger] fwrite('' @ [CHR 0x22]"
      "[CHR 0x22] @ '', '' @ show_dec (sint z) @ '', '' @ show_dec (sint c) @ '', '' @ quoted name @
                '') = '' @ show_dec (sint n) @ [newline]" n]
  show ?thesis using assms(1) w2 k by (simp add: fwrite_def quoted_def)
qed

lemma fread_line:
  assumes "c_fread L w b z c st = (n, b', w1)" "fst (FILE2name L w1 st) = Some name" "log_out L w1 = Some out"
    "unat n \<le> length b'"
  shows "\<exists>w'. fread_w L b z c st w = Some (Ok ((n, b'), w')) \<and> rest w' = rest w1 \<and>
    log w' out = log w1 out @ ''[logger] fread('' @
      quoted (map ascii_of (take (min 32 (min (unat (z * c)) (unat n))) b')) @ '', '' @ show_dec (sint z) @ '', '' @
      show_dec (sint c) @ '', '' @ quoted name @ '') = '' @ show_dec (sint n) @ [newline]"
proof -
  obtain w2 where w2: "FILE2name L w1 st = (Some name, w2)" using assms(2) by (cases "FILE2name L w1 st") simp
  note k = FILE2name_rest [OF w2]
  have out: "log_out L w2 = Some out" using log_out_rest [of w2 w1] k assms(3) by simp
  let ?n = "min 32 (min (unat (z * c)) (unat n))"
  have "?n \<le> 32" "?n \<le> length b'" using assms(4) by auto
  from show_data_runs [OF this _ _ again_unsigned out, of 1 "''[logger] fread('' @ [CHR 0x22]"
      "[CHR 0x22] @ '', '' @ show_dec (sint z) @ '', '' @ show_dec (sint c) @ '', '' @ quoted name @
                '') = '' @ show_dec (sint n) @ [newline]" "(n, b')"]
  show ?thesis using assms(1) w2 k \<open>?n \<le> length b'\<close> shown_1 [of ?n b'] by (simp add: fread_w_def quoted_def)
qed

end

subsection \<open>Logging beside any library\<close>

text \<open>
  Any library over any world, with the log lines kept beside that world, and \<open>errno\<close> as the look-ups of
  names and the writes of the log leave it: after one of them it is what an arbitrary function \<open>E\<close> gives.
  The laws hold of it. This is the world of a process whose log descriptor nothing else uses.
\<close>

definition lift1 :: "('v \<Rightarrow> 'r \<times> 'v) \<Rightarrow> 'v \<times> 'l \<Rightarrow> 'r \<times> ('v \<times> 'l)" where
  "lift1 f w = (let (r, v) = f (fst w) in (r, (v, snd w)))"

definition lift2 :: "('v \<Rightarrow> 'r \<times> 's \<times> 'v) \<Rightarrow> 'v \<times> 'l \<Rightarrow> 'r \<times> 's \<times> ('v \<times> 'l)" where
  "lift2 f w = (let (r, s, v) = f (fst w) in (r, s, (v, snd w)))"

definition with_log :: "('v \<Rightarrow> string \<Rightarrow> int \<Rightarrow> int) \<Rightarrow> 'v libc \<Rightarrow> ('v \<times> int \<times> (int \<Rightarrow> string)) libc" where
  "with_log E R = \<lparr>
     c_chmod = (\<lambda>w p m. lift1 (\<lambda>v. c_chmod R v p m) w),
     c_chown = (\<lambda>w p u g. lift1 (\<lambda>v. c_chown R v p u g) w),
     c_close = (\<lambda>w fd. lift1 (\<lambda>v. c_close R v fd) w),
     c_creat = (\<lambda>w p m. lift1 (\<lambda>v. c_creat R v p m) w),
     c_creat64 = (\<lambda>w p m. lift1 (\<lambda>v. c_creat64 R v p m) w),
     c_fopen = (\<lambda>w p k. lift1 (\<lambda>v. c_fopen R v p k) w),
     c_fopen64 = (\<lambda>w p k. lift1 (\<lambda>v. c_fopen64 R v p k) w),
     c_fclose = (\<lambda>w s. lift1 (\<lambda>v. c_fclose R v s) w),
     c_fread = (\<lambda>w b z c s. lift2 (\<lambda>v. c_fread R v b z c s) w),
     c_fwrite = (\<lambda>w b z c s. lift1 (\<lambda>v. c_fwrite R v b z c s) w),
     c_open = (\<lambda>w p f m. lift1 (\<lambda>v. c_open R v p f m) w),
     c_open64 = (\<lambda>w p f m. lift1 (\<lambda>v. c_open64 R v p f m) w),
     c_rename = (\<lambda>w p q. lift1 (\<lambda>v. c_rename R v p q) w),
     c_write = (\<lambda>w fd b c. lift1 (\<lambda>v. c_write R v fd b c) w),
     c_read = (\<lambda>w fd b c. lift2 (\<lambda>v. c_read R v fd b c) w),
     c_tmpfile = lift1 (c_tmpfile R),
     c_tmpfile64 = lift1 (c_tmpfile64 R),
     c_remove = (\<lambda>w p. lift1 (\<lambda>v. c_remove R v p) w),
     c_realpath = (\<lambda>w p. (fst (c_realpath R (fst w) p), (fst w, E (fst w) p (fst (snd w)), snd (snd w)))),
     c_readlink = (\<lambda>w p. (fst (c_readlink R (fst w) p), (fst w, E (fst w) p (fst (snd w)), snd (snd w)))),
     c_fileno = (\<lambda>w. c_fileno R (fst w)),
     c_getenv = (\<lambda>w. c_getenv R (fst w)),
     c_dprintf = (\<lambda>w fd t. (fst w, E (fst w) t (fst (snd w)), (snd (snd w))(fd := snd (snd w) fd @ t)))\<rparr>"

interpretation logged: log_sink "with_log E R" "\<lambda>w. snd (snd w)" "fst"
  by unfold_locales (simp_all add: with_log_def lift1_def split: prod.splits)

text \<open>A library whose every call succeeds, on one file named \<open>/tmp/b\<close> that holds \<open>cccc\<close>; its world
  counts the calls.\<close>

definition demo_libc :: "nat libc" where
  "demo_libc = \<lparr>c_chmod = (\<lambda>w p m. (0, w + 1)), c_chown = (\<lambda>w p u g. (0, w + 1)), c_close = (\<lambda>w fd. (0, w + 1)),
     c_creat = (\<lambda>w p m. (3, w + 1)), c_creat64 = (\<lambda>w p m. (3, w + 1)), c_fopen = (\<lambda>w p k. (0x5000, w + 1)),
     c_fopen64 = (\<lambda>w p k. (0x5000, w + 1)), c_fclose = (\<lambda>w s. (0, w + 1)),
     c_fread = (\<lambda>w b z c s. (4, [0x63, 0x63, 0x63, 0x63] @ drop 4 b, w + 1)), c_fwrite = (\<lambda>w b z c s. (c, w + 1)),
     c_open = (\<lambda>w p f m. (3, w + 1)), c_open64 = (\<lambda>w p f m. (3, w + 1)), c_rename = (\<lambda>w p q. (0, w + 1)),
     c_write = (\<lambda>w fd b c. (c, w + 1)), c_read = (\<lambda>w fd b c. (5, [0x63, 0x63, 0x63, 0x63, 0] @ drop 5 b, w + 1)),
     c_tmpfile = (\<lambda>w. (0x5000, w + 1)), c_tmpfile64 = (\<lambda>w. (0x5000, w + 1)), c_remove = (\<lambda>w p. (0, w + 1)),
     c_realpath = (\<lambda>w p. (Some ''/tmp/b'', w)), c_readlink = (\<lambda>w p. (Some ''/tmp/b'', w)),
     c_fileno = (\<lambda>w s. if s = 0x5000 then Some 3 else None), c_getenv = (\<lambda>w v. Some ''2''),
     c_dprintf = (\<lambda>w fd t. w)\<rparr>"

text \<open>Every look-up leaves \<open>EINVAL\<close>, as resolving a component that is no symbolic link does.\<close>

definition demo_errno :: "nat \<Rightarrow> string \<Rightarrow> int \<Rightarrow> int" where
  "demo_errno w p e = 22"

lemma demo_log_laws: "log_sink (with_log demo_errno demo_libc) (\<lambda>w. snd (snd w)) fst"
  by (rule logged.log_sink_axioms)

lemma demo_log_out: "log_out (with_log demo_errno demo_libc) w = Some 2"
proof -
  have "atoi ''2'' = 2" by code_simp
  then show ?thesis by (simp add: log_out_def with_log_def demo_libc_def)
qed

lemma demo_name: "fst (fd2name (with_log demo_errno demo_libc) w fd) = Some ''/tmp/b''" "fst (FILE2name (with_log demo_errno demo_libc) w 0x5000) = Some ''/tmp/b''"
  by (simp_all add: FILE2name_def fd2name_def with_log_def demo_libc_def BUFMAX_def)

lemma demo_read:
  "c_read (with_log demo_errno demo_libc) w fd (replicate 8 0) c = (5, [0x63, 0x63, 0x63, 0x63, 0, 0, 0, 0], (fst w + 1, snd w))"
proof -
  have "drop 5 (replicate 8 (0 :: u8)) = [0, 0, 0]" by code_simp
  then show ?thesis by (cases w) (simp add: with_log_def demo_libc_def lift2_def eval_nat_numeral)
qed

lemma demo_buf_text:
  "ascii_of 0x63 = CHR ''c''" "ascii_of 0x61 = CHR ''a''" "ascii_of 0 = CHR ''.''" "show_dec 100 = ''100''"
  "show_dec 5 = ''5''" "show_dec 4 = ''4''" "filter (\<lambda>i. 4 dvd i) [0..<4::nat] = [0]"
  by code_simp+

lemma demo_fwrite: "c_fwrite (with_log demo_errno demo_libc) w b z c st = (c, (fst w + 1, snd w))"
  by (cases w) (simp add: with_log_def demo_libc_def lift1_def)

lemma demo_chmod_real: "c_chmod (with_log demo_errno demo_libc) w p m = (0, (fst w + 1, snd w))"
  by (simp add: with_log_def demo_libc_def lift1_def)

lemma demo_chmod: "\<exists>w'. chmod (with_log demo_errno demo_libc) p m w = Ok (0, w')"
  by (simp add: chmod_def demo_chmod_real emit_def demo_log_out case_prod_unfold Let_def del: split_paired_Ex)

end
