(* ===== verification/Wrap_Test.thy ===== *)
theory Wrap_Test
  imports Wrap_Log
begin

text \<open>
  \<open>project2/test.cpp\<close>, the program the logger is tried on: its calls on the library of wrappers, and the
  same calls on the library behind them. Built with the \<open>LARGE\<close> flags of the \<open>Makefile\<close>, \<open>creat\<close>, \<open>open\<close>,
  \<open>fopen\<close> and \<open>tmpfile\<close> are the calls that end in 64. Lemmas: under the logger the program runs to its end,
  leaves the world the library behind would leave, and writes one line for each of its eighteen calls.
\<close>

subsection \<open>The program\<close>

text \<open>One call after another; a call that reaches undefined behaviour or does not return ends the run.\<close>

fun next_call :: "('a \<times> 'w) outcome option \<Rightarrow> ('a \<Rightarrow> 'w \<Rightarrow> ('b \<times> 'w) outcome option) \<Rightarrow> ('b \<times> 'w) outcome option" where
  "next_call None f = None"
| "next_call (Some (Ok (a, w))) f = f a w"
| "next_call (Some (Exit n x)) f = Some Undef"
| "next_call (Some Undef) f = Some Undef"
| "next_call (Some Blocked) f = Some Blocked"

definition OLDNAME :: string where "OLDNAME = ''temp''"
definition NEWNAME :: string where "NEWNAME = ''temp1''"
definition O_RDONLY :: u32 where "O_RDONLY = 0"
definition O_RDWR :: u32 where "O_RDWR = 2"

definition cccc :: "u8 list" where "cccc = [0x63, 0x63, 0x63, 0x63, 0]"

definition test_main :: "'w libc \<Rightarrow> u8 list \<Rightarrow> u8 list \<Rightarrow> 'w \<Rightarrow> (int \<times> 'w) outcome option" where
  "test_main L buf1 buf2 w =
     next_call (Some (close L 2 w)) (\<lambda>r w.
     next_call (Some (creat64 L OLDNAME 0x180 w)) (\<lambda>r w.
     next_call (Some (chmod L OLDNAME 0x1b6 w)) (\<lambda>r w.
     next_call (Some (chown L OLDNAME 65534 65534 w)) (\<lambda>r w.
     next_call (Some (rename L OLDNAME NEWNAME w)) (\<lambda>r w.
     next_call (Some (open64_w L NEWNAME (O_CREAT OR O_RDWR) (Some 0x1b6) w)) (\<lambda>fd w.
     next_call (write_w L fd cccc 5 w) (\<lambda>r w.
     next_call (Some (close L fd w)) (\<lambda>r w.
     next_call (Some (open64_w L NEWNAME O_RDONLY None w)) (\<lambda>fd w.
     next_call (read_w L fd buf1 100 w) (\<lambda>(r, buf1) w.
     next_call (Some (close L fd w)) (\<lambda>r w.
     next_call (Some (tmpfile64 L w)) (\<lambda>f w.
     next_call (fwrite L cccc 1 5 f w) (\<lambda>r w.
     next_call (Some (fclose L f w)) (\<lambda>r w.
     next_call (Some (fopen64 L NEWNAME ''r'' w)) (\<lambda>f w.
     next_call (fread_w L buf2 1 100 f w) (\<lambda>(r, buf2) w.
     next_call (Some (fclose L f w)) (\<lambda>r w.
     next_call (Some (remove_w L NEWNAME w)) (\<lambda>r w.
     Some (Ok (0, w))))))))))))))))))))"

text \<open>
  The same calls on the library behind, the first one left out: \<open>None\<close> when what a stream call is given is
  not a stream. (A descriptor of 2 would not be closed either; \<open>open\<close> does not give one, as 2 is open.)
\<close>

definition plain_main :: "'v libc \<Rightarrow> u8 list \<Rightarrow> u8 list \<Rightarrow> 'v \<Rightarrow> 'v option" where
  "plain_main R buf1 buf2 v =
     (let v = snd (c_creat64 R v OLDNAME 0x180);
          v = snd (c_chmod R v OLDNAME 0x1b6);
          v = snd (c_chown R v OLDNAME 65534 65534);
          v = snd (c_rename R v OLDNAME NEWNAME);
          (fd, v) = c_open64 R v NEWNAME (O_CREAT OR O_RDWR) (Some 0x1b6);
          v = snd (c_write R v fd cccc 5);
          v = snd (c_close R v fd);
          (fd, v) = c_open64 R v NEWNAME O_RDONLY None;
          v = snd (snd (c_read R v fd buf1 100));
          v = snd (c_close R v fd);
          (f, v) = c_tmpfile64 R v;
          v = snd (c_fwrite R v cccc 1 5 f) in
      if fst (FILE2name R v f) = None then None
      else
        let v = snd (c_fclose R v f);
            (f, v) = c_fopen64 R v NEWNAME ''r'';
            v = snd (snd (c_fread R v buf2 1 100 f)) in
        if fst (FILE2name R v f) = None then None
        else
          let v = snd (c_fclose R v f) in Some (snd (c_remove R v NEWNAME)))"

subsection \<open>One line for each call\<close>

text \<open>
  One line of the log: the name of the call and an opening bracket after the tag, and a newline at the end
  and nowhere else.
\<close>

definition logged_as :: "string \<Rightarrow> string \<Rightarrow> bool" where
  "logged_as func t \<longleftrightarrow>
     (let h = ''[logger] '' @ func @ ''('' in take (length h) t = h \<and> last t = newline \<and> newline \<notin> set (butlast t))"

text \<open>
  What the library behind is relied on for: \<open>LOGGER_OUT\<close> is set, links are shorter than the buffer, no name
  has a newline in it, \<open>open\<close> does not return 2, and the transfer calls move no more than was asked and keep the size of the buffer.
\<close>

definition lib_ok :: "'v libc \<Rightarrow> int \<Rightarrow> bool" where
  "lib_ok R out \<longleftrightarrow>
     (\<forall>v. log_out R v = Some out \<and> (\<forall>fd. fst (fd2name R v fd) \<noteq> None) \<and>
       (\<forall>p q. fst (c_realpath R v p) = Some q \<longrightarrow> newline \<notin> set q) \<and>
       (\<forall>p q. fst (c_readlink R v p) = Some q \<longrightarrow> newline \<notin> set q) \<and>
       (\<forall>p f m. fst (c_open64 R v p f m) \<noteq> 2) \<and>
       (\<forall>fd b c. nat (sint (fst (c_write R v fd b c))) \<le> unat c) \<and>
       (\<forall>fd b c. nat (sint (fst (c_read R v fd b c))) \<le> unat c \<and> length (fst (snd (c_read R v fd b c))) = length b) \<and>
       (\<forall>b z c f. unat (fst (c_fwrite R v b z c f)) \<le> unat c) \<and>
       (\<forall>b z c f. unat (fst (c_fread R v b z c f)) \<le> unat c \<and> length (fst (snd (c_fread R v b z c f))) = length b))"

text \<open>
  A call that went through: the world of the library behind, and one more line on the log. What is beside
  that world is \<open>errno\<close> and the log.
\<close>

definition one_line :: "int \<Rightarrow> string \<Rightarrow> int \<times> (int \<Rightarrow> string) \<Rightarrow> int \<times> (int \<Rightarrow> string) \<Rightarrow> bool" where
  "one_line out func l l' \<longleftrightarrow> (\<exists>t. logged_as func t \<and> snd l' out = snd l out @ t)"

lemma one_lineI: "logged_as func t \<Longrightarrow> snd l' out = snd l out @ t \<Longrightarrow> one_line out func l l'"
  by (auto simp: one_line_def)

lemma newline_char: "newline = CHR 0x0A"
  by code_simp

lemma logged_asI:
  "newline \<notin> set func \<Longrightarrow> newline \<notin> set s \<Longrightarrow> logged_as func (''[logger] '' @ func @ ''('' @ s @ [newline])"
  by (simp add: logged_as_def Let_def newline_char butlast_append)

text \<open>The parts of a line that have no newline in them.\<close>

lemma no_newline_num: "newline \<notin> set (show_nat b n)" if "2 \<le> b" "b \<le> 36"
proof
  assume "newline \<in> set (show_nat b n)"
  then have "base_digit b newline" using that by (intro show_nat_digits)
  then show False by (simp add: base_digit_def digit_val_def Let_def of_char_of)
qed

lemma no_newline:
  "CHR 0x0A \<notin> set (show_dec v)" "CHR 0x0A \<notin> set (show_oct m)" "CHR 0x0A \<notin> set (show_ptr x)"
  "CHR 0x0A \<in> set (quoted t) \<longleftrightarrow> CHR 0x0A \<in> set t"
  using no_newline_num [of 8] no_newline_num [of 10] no_newline_num [of 16]
  by (simp_all add: show_dec_def show_oct_def show_ptr_def quoted_def newline_char)

lemma no_newline_data: "CHR 0x0A \<notin> ascii_of ` B"
proof -
  have "ascii_of b \<noteq> CHR 0x0A" for b
  proof (cases "is_print (char_of_byte b)")
    case True
    moreover have "\<not> is_print (CHR 0x0A)" by code_simp
    ultimately show ?thesis by (auto simp: ascii_of_def)
  qed (simp add: ascii_of_def)
  then show ?thesis by (metis imageE)
qed

lemma no_newline_shown: "CHR 0x0A \<notin> set (shown stp n buf)"
proof -
  have "set (shown stp n buf) \<subseteq> ascii_of ` UNIV" by (auto simp: shown_def)
  then show ?thesis using no_newline_data by blast
qed

lemma no_newline_names:
  assumes "lib_ok R out"
  shows "CHR 0x0A \<notin> set (fst (path_of R v p))" "fst (fd2name R v fd) = Some t \<Longrightarrow> CHR 0x0A \<notin> set t"
    "fst (FILE2name R v f) = Some t \<Longrightarrow> CHR 0x0A \<notin> set t"
proof -
  have q: "fst (c_realpath R v p) = Some q \<Longrightarrow> CHR 0x0A \<notin> set q" for p q
    using assms by (simp add: lib_ok_def newline_char)
  have k: "fst (c_readlink R v p) = Some q \<Longrightarrow> CHR 0x0A \<notin> set q" for p q
    using assms by (simp add: lib_ok_def newline_char)
  show "CHR 0x0A \<notin> set (fst (path_of R v p))"
    using q [of p] by (auto simp: path_of_def NULLPATH_def split: prod.split option.split)
  show fd: "fst (fd2name R v fd) = Some t \<Longrightarrow> CHR 0x0A \<notin> set t" for fd
    using k [of "''/proc/self/fd/'' @ show_dec fd"] by (auto simp: fd2name_def split: prod.splits option.splits if_splits)
  show "fst (FILE2name R v f) = Some t \<Longrightarrow> CHR 0x0A \<notin> set t"
    using fd by (auto simp: FILE2name_def split: option.splits)
qed

lemmas line_simps = newline_char no_newline no_newline_data no_newline_shown

lemma with_log_calls:
  "c_chmod (with_log E R) w p m = lift1 (\<lambda>v. c_chmod R v p m) w" "c_chown (with_log E R) w p x g = lift1 (\<lambda>v. c_chown R v p x g) w"
  "c_close (with_log E R) w fd = lift1 (\<lambda>v. c_close R v fd) w" "c_creat64 (with_log E R) w p m = lift1 (\<lambda>v. c_creat64 R v p m) w"
  "c_fopen64 (with_log E R) w p k = lift1 (\<lambda>v. c_fopen64 R v p k) w" "c_fclose (with_log E R) w f = lift1 (\<lambda>v. c_fclose R v f) w"
  "c_fread (with_log E R) w b z c f = lift2 (\<lambda>v. c_fread R v b z c f) w"
  "c_fwrite (with_log E R) w b z c f = lift1 (\<lambda>v. c_fwrite R v b z c f) w"
  "c_open64 (with_log E R) w p fl o' = lift1 (\<lambda>v. c_open64 R v p fl o') w"
  "c_rename (with_log E R) w p q = lift1 (\<lambda>v. c_rename R v p q) w" "c_write (with_log E R) w fd b c = lift1 (\<lambda>v. c_write R v fd b c) w"
  "c_read (with_log E R) w fd b c = lift2 (\<lambda>v. c_read R v fd b c) w" "c_tmpfile64 (with_log E R) = lift1 (c_tmpfile64 R)"
  "c_remove (with_log E R) w p = lift1 (\<lambda>v. c_remove R v p) w"
  by (simp_all add: with_log_def)

lemma with_log_names [simp]:
  "fst (path_of (with_log E R) w p) = fst (path_of R (fst w) p)" "fst (snd (path_of (with_log E R) w p)) = fst w"
  "snd (snd (snd (path_of (with_log E R) w p))) = snd (snd w)"
  "fst (fd2name (with_log E R) w fd) = fst (fd2name R (fst w) fd)" "fst (snd (fd2name (with_log E R) w fd)) = fst w"
  "snd (snd (snd (fd2name (with_log E R) w fd))) = snd (snd w)"
  "fst (FILE2name (with_log E R) w f) = fst (FILE2name R (fst w) f)" "fst (snd (FILE2name (with_log E R) w f)) = fst w"
  "snd (snd (snd (FILE2name (with_log E R) w f))) = snd (snd w)"
  "log_out (with_log E R) w = log_out R (fst w)"
  by (simp_all add: path_of_def fd2name_def FILE2name_def log_out_def with_log_def case_prod_unfold split: option.split)

lemma emit_line:
  assumes "lib_ok R out" "fst w = v" "snd (snd w) = snd l" "args \<noteq> []" "hd args = CHR ''('' # s" "last args = [newline]"
    "newline \<notin> set func" "newline \<notin> set (concat (butlast args))"
  shows "\<exists>l'. emit (with_log E R) w func args r = Ok (r, (v, l')) \<and> one_line out func l l'"
proof -
  have "log_out (with_log E R) w = Some out" using assms(1) by (simp add: lib_ok_def)
  then obtain w' where "emit (with_log E R) w func args r = Ok (r, w')" "fst w' = v"
    "snd (snd w') out = snd l out @ ''[logger] '' @ func @ concat args"
    using logged.emit_runs [of E R w out func args r] assms(2,3) by auto
  moreover have "concat args = concat (butlast args) @ [newline]"
    using assms(4,6) by (metis append_butlast_last_id concat_append concat.simps append_Nil2)
  moreover obtain x where "concat (butlast args) = CHR ''('' # x"
    using assms(4-6) by (cases args) (auto simp: newline_char split: if_splits)
  ultimately show ?thesis
    using logged_asI [OF assms(7), of x] assms(8) by (cases w') (auto intro!: one_lineI)
qed

text \<open>The calls on paths, then those on descriptors and streams, then the transfers.\<close>

lemma path_lines:
  assumes "lib_ok R out"
  shows "\<exists>l'. chmod (with_log E R) p m (v, l) = Ok (fst (c_chmod R v p m), (snd (c_chmod R v p m), l')) \<and> one_line out ''chmod'' l l'"
    "\<exists>l'. chown (with_log E R) p x g (v, l) = Ok (fst (c_chown R v p x g), (snd (c_chown R v p x g), l')) \<and> one_line out ''chown'' l l'"
    "\<exists>l'. creat64 (with_log E R) p m (v, l) = Ok (fst (c_creat64 R v p m), (snd (c_creat64 R v p m), l')) \<and> one_line out ''creat64'' l l'"
    "newline \<notin> set k \<Longrightarrow> \<exists>l'. fopen64 (with_log E R) p k (v, l) = Ok (fst (c_fopen64 R v p k), (snd (c_fopen64 R v p k), l')) \<and> one_line out ''fopen64'' l l'"
    "\<exists>l'. rename (with_log E R) p q (v, l) = Ok (fst (c_rename R v p q), (snd (c_rename R v p q), l')) \<and> one_line out ''rename'' l l'"
    "\<exists>l'. remove_w (with_log E R) p (v, l) = Ok (fst (c_remove R v p), (snd (c_remove R v p), l')) \<and> one_line out ''remove'' l l'"
    "\<exists>l'. tmpfile64 (with_log E R) (v, l) = Ok (fst (c_tmpfile64 R v), (snd (c_tmpfile64 R v), l')) \<and> one_line out ''tmpfile64'' l l'"
    "open_args fl o' = Some (mode, passed) \<Longrightarrow> \<exists>l'. open64_w (with_log E R) p fl o' (v, l) =
      Ok (fst (c_open64 R v p fl passed), (snd (c_open64 R v p fl passed), l')) \<and> one_line out ''open64'' l l'"
proof -
  note e = emit_line [OF assms] and d = with_log_calls lift1_def Let_def case_prod_unfold
  note n = line_simps no_newline_names [OF assms]
  show "\<exists>l'. chmod (with_log E R) p m (v, l) = Ok (fst (c_chmod R v p m), (snd (c_chmod R v p m), l')) \<and> one_line out ''chmod'' l l'"
    unfolding chmod_def d by (simp only: fst_conv snd_conv with_log_names) (rule e; simp add: n)
  show "\<exists>l'. chown (with_log E R) p x g (v, l) = Ok (fst (c_chown R v p x g), (snd (c_chown R v p x g), l')) \<and> one_line out ''chown'' l l'"
    unfolding chown_def d by (simp only: fst_conv snd_conv with_log_names) (rule e; simp add: n)
  show "\<exists>l'. creat64 (with_log E R) p m (v, l) = Ok (fst (c_creat64 R v p m), (snd (c_creat64 R v p m), l')) \<and> one_line out ''creat64'' l l'"
    unfolding creat64_def d by (simp only: fst_conv snd_conv with_log_names) (rule e; simp add: n)
  show "\<exists>l'. fopen64 (with_log E R) p k (v, l) = Ok (fst (c_fopen64 R v p k), (snd (c_fopen64 R v p k), l')) \<and> one_line out ''fopen64'' l l'"
    if "newline \<notin> set k"
    unfolding fopen64_def d by (simp only: fst_conv snd_conv with_log_names) (rule e; use that in \<open>simp add: n\<close>)
  show "\<exists>l'. rename (with_log E R) p q (v, l) = Ok (fst (c_rename R v p q), (snd (c_rename R v p q), l')) \<and> one_line out ''rename'' l l'"
    unfolding rename_def d by (simp only: fst_conv snd_conv with_log_names) (rule e; simp add: n)
  show "\<exists>l'. remove_w (with_log E R) p (v, l) = Ok (fst (c_remove R v p), (snd (c_remove R v p), l')) \<and> one_line out ''remove'' l l'"
    unfolding remove_w_def d by (simp only: fst_conv snd_conv with_log_names) (rule e; simp add: n)
  show "\<exists>l'. tmpfile64 (with_log E R) (v, l) = Ok (fst (c_tmpfile64 R v), (snd (c_tmpfile64 R v), l')) \<and> one_line out ''tmpfile64'' l l'"
    unfolding tmpfile64_def d by (simp only: fst_conv snd_conv with_log_names) (rule e; simp add: n)
  assume "open_args fl o' = Some (mode, passed)"
  then show "\<exists>l'. open64_w (with_log E R) p fl o' (v, l) =
      Ok (fst (c_open64 R v p fl passed), (snd (c_open64 R v p fl passed), l')) \<and> one_line out ''open64'' l l'"
    unfolding open64_w_def d by (simp only: fst_conv snd_conv option.case with_log_names) (rule e; simp add: n)
qed

lemma fd_lines:
  assumes "lib_ok R out"
  shows "\<exists>l'. close (with_log E R) 2 (v, l) = Ok (0, (v, l')) \<and> one_line out ''close'' l l'"
    "fd \<noteq> 2 \<Longrightarrow> \<exists>l'. close (with_log E R) fd (v, l) = Ok (fst (c_close R v fd), (snd (c_close R v fd), l')) \<and> one_line out ''close'' l l'"
    "fst (FILE2name R v f) \<noteq> None \<Longrightarrow>
      \<exists>l'. fclose (with_log E R) f (v, l) = Ok (fst (c_fclose R v f), (snd (c_fclose R v f), l')) \<and> one_line out ''fclose'' l l'"
proof -
  note e = emit_line [OF assms] and d = with_log_calls with_log_names lift1_def Let_def case_prod_unfold
  note n = line_simps no_newline_names [OF assms]
  have nm: "\<exists>t. fst (fd2name R v fd) = Some t" for fd using assms by (simp add: lib_ok_def)
  from nm [of 2] show "\<exists>l'. close (with_log E R) 2 (v, l) = Ok (0, (v, l')) \<and> one_line out ''close'' l l'"
    unfolding close_def d by clarify (simp only: fst_conv snd_conv option.case simp_thms if_False, rule e; simp add: n)
  from nm [of fd] show "fd \<noteq> 2 \<Longrightarrow> \<exists>l'. close (with_log E R) fd (v, l) = Ok (fst (c_close R v fd), (snd (c_close R v fd), l')) \<and> one_line out ''close'' l l'"
    unfolding close_def d by clarify (simp only: fst_conv snd_conv option.case simp_thms if_True, rule e; simp add: n)
  assume "fst (FILE2name R v f) \<noteq> None"
  then show "\<exists>l'. fclose (with_log E R) f (v, l) = Ok (fst (c_fclose R v f), (snd (c_fclose R v f), l')) \<and> one_line out ''fclose'' l l'"
    unfolding fclose_def d by clarify (simp only: fst_conv snd_conv option.case, rule e; simp add: n)
qed

lemma lib_ok_bounds:
  assumes "lib_ok R out"
  shows "unat c \<le> n \<Longrightarrow> nat (sint (fst (c_write R v fd b c))) \<le> n"
    "unat c \<le> length b \<Longrightarrow> nat (sint (fst (c_read R v fd b c))) \<le> length (fst (snd (c_read R v fd b c)))"
    "unat c \<le> n \<Longrightarrow> unat (fst (c_fwrite R v b z c f)) \<le> n"
    "unat c \<le> length b \<Longrightarrow> unat (fst (c_fread R v b z c f)) \<le> length (fst (snd (c_fread R v b z c f)))"
proof -
  have b: "nat (sint (fst (c_write R v fd b c))) \<le> unat c" "nat (sint (fst (c_read R v fd b c))) \<le> unat c"
    "length (fst (snd (c_read R v fd b c))) = length b" "unat (fst (c_fwrite R v b z c f)) \<le> unat c"
    "unat (fst (c_fread R v b z c f)) \<le> unat c" "length (fst (snd (c_fread R v b z c f))) = length b"
    using assms unfolding lib_ok_def by blast+
  show "unat c \<le> n \<Longrightarrow> nat (sint (fst (c_write R v fd b c))) \<le> n" by (rule le_trans [OF b(1)])
  show "unat c \<le> length b \<Longrightarrow> nat (sint (fst (c_read R v fd b c))) \<le> length (fst (snd (c_read R v fd b c)))"
    unfolding b(3) by (rule le_trans [OF b(2)])
  show "unat c \<le> n \<Longrightarrow> unat (fst (c_fwrite R v b z c f)) \<le> n" by (rule le_trans [OF b(4)])
  show "unat c \<le> length b \<Longrightarrow> unat (fst (c_fread R v b z c f)) \<le> length (fst (snd (c_fread R v b z c f)))"
    unfolding b(6) by (rule le_trans [OF b(5)])
qed

text \<open>The transfers: what the real call gives, and the line.\<close>

lemma line_in:
  assumes "m = Some (Ok (r, w'))" "fst w' = x" "snd (snd w') out = snd l out @ t" "logged_as func t"
  shows "\<exists>l'. m = Some (Ok (r, (x, l'))) \<and> one_line out func l l'"
  using assms by (cases w') (auto intro: one_lineI)

lemma transfer_lines:
  assumes "lib_ok R out"
  shows "unat c \<le> length b \<Longrightarrow> \<exists>l'. write_w (with_log E R) fd b c (v, l) =
      Some (Ok (fst (c_write R v fd b c), (snd (c_write R v fd b c), l'))) \<and> one_line out ''write'' l l'" (is "_ \<Longrightarrow> ?put")
    "unat c \<le> length b \<Longrightarrow> \<exists>l'. read_w (with_log E R) fd b c (v, l) =
      Some (Ok ((fst (c_read R v fd b c), fst (snd (c_read R v fd b c))), (snd (snd (c_read R v fd b c)), l'))) \<and>
      one_line out ''read'' l l'" (is "_ \<Longrightarrow> ?get")
    "unat c \<le> length b \<Longrightarrow> fst (FILE2name R (snd (c_fwrite R v b 1 c f)) f) \<noteq> None \<Longrightarrow> \<exists>l'. fwrite (with_log E R) b 1 c f (v, l) =
      Some (Ok (fst (c_fwrite R v b 1 c f), (snd (c_fwrite R v b 1 c f), l'))) \<and> one_line out ''fwrite'' l l'" (is "_ \<Longrightarrow> _ \<Longrightarrow> ?fwrite")
    "unat c \<le> length b \<Longrightarrow> fst (FILE2name R (snd (snd (c_fread R v b 1 c f))) f) \<noteq> None \<Longrightarrow>
      \<exists>l'. fread_w (with_log E R) b 1 c f (v, l) =
      Some (Ok ((fst (c_fread R v b 1 c f), fst (snd (c_fread R v b 1 c f))), (snd (snd (c_fread R v b 1 c f)), l'))) \<and>
      one_line out ''fread'' l l'" (is "_ \<Longrightarrow> _ \<Longrightarrow> ?fread")
proof -
  have out: "log_out (with_log E R) w = Some out" for w using assms by (simp add: lib_ok_def)
  have nm: "\<exists>t. fst (fd2name (with_log E R) w fd) = Some t \<and> CHR 0x0A \<notin> set t" for w fd
  proof -
    have "fst (fd2name R (fst w) fd) \<noteq> None" using assms by (simp add: lib_ok_def)
    then show ?thesis using no_newline_names(2) [OF assms, of "fst w" fd] by auto
  qed
  note d = with_log_calls lift1_def lift2_def case_prod_unfold Let_def fst_conv snd_conv
  note la = logged_as_def Let_def butlast_append line_simps
  show ?put if c: "unat c \<le> length b"
  proof -
    let ?n = "fst (c_write R v fd b c)" and ?v = "snd (c_write R v fd b c)"
    have call: "c_write (with_log E R) (v, l) fd b c = (?n, (?v, l))" by (simp add: d)
    have "nat (sint ?n) \<le> length b" by (rule lib_ok_bounds [OF assms c])
    with nm [of "(?v, l)" fd] logged.write_line [OF call _ out] obtain w' t where t: "CHR 0x0A \<notin> set t" and w:
      "write_w (with_log E R) fd b c (v, l) = Some (Ok (?n, w'))" "fst w' = fst (?v, l)"
      "snd (snd w') out = snd (snd (?v, l)) out @ ''[logger] write('' @ t @ '', '' @
        quoted (map ascii_of (take (min 32 (min (unat c) (nat (sint ?n)))) b)) @ '', '' @
        show_dec (sint c) @ '') = '' @ show_dec (sint ?n) @ [newline]" by blast
    from w show ?thesis unfolding fst_conv snd_conv by (rule line_in) (simp add: la t)
  qed
  show ?get if c: "unat c \<le> length b"
  proof -
    let ?n = "fst (c_read R v fd b c)" and ?b = "fst (snd (c_read R v fd b c))" and ?v = "snd (snd (c_read R v fd b c))"
    have call: "c_read (with_log E R) (v, l) fd b c = (?n, ?b, (?v, l))" by (simp add: d)
    have "nat (sint ?n) \<le> length ?b" by (rule lib_ok_bounds [OF assms c])
    with nm [of "(?v, l)" fd] logged.read_line [OF call _ out] obtain w' t where t: "CHR 0x0A \<notin> set t" and w:
      "read_w (with_log E R) fd b c (v, l) = Some (Ok ((?n, ?b), w'))" "fst w' = fst (?v, l)"
      "snd (snd w') out = snd (snd (?v, l)) out @ ''[logger] read('' @ t @ '', '' @
        quoted (map ascii_of (take (min 32 (min (unat c) (nat (sint ?n)))) ?b)) @ '', '' @
        show_dec (sint c) @ '') = '' @ show_dec (sint ?n) @ [newline]" by blast
    from w show ?thesis unfolding fst_conv snd_conv by (rule line_in) (simp add: la t)
  qed
  show ?fwrite if c: "unat c \<le> length b" and f: "fst (FILE2name R (snd (c_fwrite R v b 1 c f)) f) \<noteq> None"
  proof -
    let ?n = "fst (c_fwrite R v b 1 c f)" and ?v = "snd (c_fwrite R v b 1 c f)"
    have call: "c_fwrite (with_log E R) (v, l) b 1 c f = (?n, (?v, l))" by (simp add: d)
    obtain t where t: "fst (FILE2name (with_log E R) (?v, l) f) = Some t" "CHR 0x0A \<notin> set t"
      using f no_newline_names(3) [OF assms, of ?v f] by auto
    have "unat ?n \<le> length b" by (rule lib_ok_bounds [OF assms c])
    from logged.fwrite_line [OF call t(1) out this] obtain w' where
      "fwrite (with_log E R) b 1 c f (v, l) = Some (Ok (?n, w'))" "fst w' = fst (?v, l)"
      "snd (snd w') out = snd (snd (?v, l)) out @ ''[logger] fwrite('' @
        quoted (shown (unat (1 :: u64)) (min 32 (min (unat (1 * c)) (unat ?n))) b) @ '', '' @ show_dec (sint (1 :: u64)) @ '', '' @
        show_dec (sint c) @ '', '' @ quoted t @ '') = '' @ show_dec (sint ?n) @ [newline]" by auto
    then show ?thesis unfolding fst_conv snd_conv by (rule line_in) (simp add: la t)
  qed
  show ?fread if c: "unat c \<le> length b" and f: "fst (FILE2name R (snd (snd (c_fread R v b 1 c f))) f) \<noteq> None"
  proof -
    let ?n = "fst (c_fread R v b 1 c f)" and ?b = "fst (snd (c_fread R v b 1 c f))" and ?v = "snd (snd (c_fread R v b 1 c f))"
    have call: "c_fread (with_log E R) (v, l) b 1 c f = (?n, ?b, (?v, l))" by (simp add: d)
    obtain t where t: "fst (FILE2name (with_log E R) (?v, l) f) = Some t" "CHR 0x0A \<notin> set t"
      using f no_newline_names(3) [OF assms, of ?v f] by auto
    have "unat ?n \<le> length ?b" by (rule lib_ok_bounds [OF assms c])
    from logged.fread_line [OF call t(1) out this] obtain w' where
      "fread_w (with_log E R) b 1 c f (v, l) = Some (Ok ((?n, ?b), w'))" "fst w' = fst (?v, l)"
      "snd (snd w') out = snd (snd (?v, l)) out @ ''[logger] fread('' @
        quoted (map ascii_of (take (min 32 (min (unat (1 * c)) (unat ?n))) ?b)) @ '', '' @ show_dec (sint (1 :: u64)) @ '', '' @
        show_dec (sint c) @ '', '' @ quoted t @ '') = '' @ show_dec (sint ?n) @ [newline]" by auto
    then show ?thesis unfolding fst_conv snd_conv by (rule line_in) (simp add: la t)
  qed
qed

subsection \<open>The run\<close>

definition lines_to :: "int \<Rightarrow> string list \<Rightarrow> int \<times> (int \<Rightarrow> string) \<Rightarrow> int \<times> (int \<Rightarrow> string) \<Rightarrow> bool" where
  "lines_to out funcs l l' \<longleftrightarrow> (\<exists>lines. list_all2 logged_as funcs lines \<and> snd l' out = snd l out @ concat lines)"

lemma lines_Nil: "lines_to out [] l l"
  by (simp add: lines_to_def)

lemma lines_Cons: "one_line out f l l1 \<Longrightarrow> lines_to out fs l1 l2 \<Longrightarrow> lines_to out (f # fs) l l2"
  by (auto simp: one_line_def lines_to_def list_all2_Cons1 append_assoc intro: exI [of _ "_ # _"])

lemma data_step:
  assumes "\<exists>l1. m = Some (Ok (r, (v1, l1))) \<and> one_line out f l l1"
    "\<And>l1. \<exists>l2. g r (v1, l1) = Some (Ok (x, (v2, l2))) \<and> lines_to out fs l1 l2"
  shows "\<exists>l2. next_call m g = Some (Ok (x, (v2, l2))) \<and> lines_to out (f # fs) l l2"
  using assms lines_Cons by fastforce

lemma call_step:
  assumes "\<exists>l1. m = Ok (r, (v1, l1)) \<and> one_line out f l l1"
    "\<And>l1. \<exists>l2. g r (v1, l1) = Some (Ok (x, (v2, l2))) \<and> lines_to out fs l1 l2"
  shows "\<exists>l2. next_call (Some m) g = Some (Ok (x, (v2, l2))) \<and> lines_to out (f # fs) l l2"
proof (rule data_step)
  show "\<exists>l1. Some m = Some (Ok (r, (v1, l1))) \<and> one_line out f l l1" using assms(1) by simp
qed (rule assms(2))

lemma some_if: "(if c then None else y) = Some x \<longleftrightarrow> \<not> c \<and> y = Some x"
  by simp

definition test_calls :: "string list" where
  "test_calls =
    [''close'', ''creat64'', ''chmod'', ''chown'', ''rename'', ''open64'', ''write'', ''close'', ''open64'', ''read'', ''close'',
     ''tmpfile64'', ''fwrite'', ''fclose'', ''fopen64'', ''fread'', ''fclose'', ''remove'']"

lemma test_open_args: "open_args (O_CREAT OR O_RDWR) (Some m) = Some (m, Some m)" "open_args O_RDONLY None = Some (0, None)"
  by (simp_all add: open_args_def O_CREAT_def O_RDWR_def O_RDONLY_def O_TMPFILE_def)

lemma test_runs:
  assumes "lib_ok R out" "length buf1 = 1024" "length buf2 = 1024" "plain_main R buf1 buf2 v = Some v'"
  shows "\<exists>l'. test_main (with_log E R) buf1 buf2 (v, l) = Some (Ok (0, (v', l'))) \<and> lines_to out test_calls l l'"
proof -
  note path = path_lines [OF assms(1)] and fd = fd_lines [OF assms(1)] and data = transfer_lines [OF assms(1)]
  have fd2: "fst (c_open64 R v p fl m) \<noteq> 2" for v p fl m using assms(1) unfolding lib_ok_def by blast
  have len: "unat (5 :: u64) \<le> length cccc" "unat (100 :: u64) \<le> length buf1" "unat (100 :: u64) \<le> length buf2"
    using assms(2,3) by (simp_all add: cccc_def)
  show ?thesis
    using assms(4)
    unfolding test_main_def test_calls_def plain_main_def Let_def case_prod_unfold
    apply (simp only: some_if option.inject)
    apply (elim conjE)
    apply (rule call_step, rule fd(1))
    apply (rule call_step, rule path(3))
    apply (rule call_step, rule path(1))
    apply (rule call_step, rule path(2))
    apply (rule call_step, rule path(5))
    apply (rule call_step, rule path(8), rule test_open_args)
    apply (rule data_step, rule data(1), rule len)
    apply (rule call_step, rule fd(2), rule fd2)
    apply (rule call_step, rule path(8), rule test_open_args)
    apply (rule data_step, rule data(2), rule len)
    apply (rule call_step, rule fd(2), rule fd2)
    apply (rule call_step, rule path(7))
    apply (rule data_step, rule data(3), rule len, assumption)
    apply (rule call_step, rule fd(3), assumption)
    apply (rule call_step, rule path(4), simp add: newline_char)
    apply (rule data_step, rule data(4), rule len, assumption)
    apply (rule call_step, rule fd(3), assumption)
    apply (rule call_step, rule path(6))
    apply (simp add: lines_Nil)
    done
qed

text \<open>A library whose file holds five bytes and whose transfers are as large as the buffer allows.\<close>

definition some_bytes :: "u8 list \<Rightarrow> u64 \<Rightarrow> nat" where
  "some_bytes b c = min 5 (min (unat c) (length b))"

definition test_libc :: "nat libc" where
  "test_libc = demo_libc\<lparr>
     c_read := (\<lambda>w fd b c. (of_nat (some_bytes b c), take (some_bytes b c) cccc @ drop (some_bytes b c) b, w + 1)),
     c_fread := (\<lambda>w b z c f. (of_nat (some_bytes b c), take (some_bytes b c) cccc @ drop (some_bytes b c) b, w + 1))\<rparr>"

lemma sint_le_unat: "nat (sint (c :: u64)) \<le> unat c"
proof -
  have "take_bit 64 (uint c) \<le> uint c" by (simp add: take_bit_int_less_eq_self_iff)
  then have "sint c \<le> uint c" by (auto simp: sint_uint signed_take_bit_eq_take_bit_minus)
  then have "nat (sint c) \<le> nat (uint c)" by (rule nat_mono)
  then show ?thesis by (simp only: unat_eq_nat_uint)
qed

lemma test_libc_ok: "lib_ok test_libc 2"
proof -
  have k: "nat (sint (of_nat (some_bytes b c) :: u64)) \<le> unat c" "unat (of_nat (some_bytes b c) :: u64) \<le> unat c"
    "length (take (some_bytes b c) cccc) = some_bytes b c" "some_bytes b c \<le> length b" for b c
    using sint_small [of "some_bytes b c"] unat_small [of "some_bytes b c"] by (simp_all add: some_bytes_def cccc_def)
  have "atoi ''2'' = 2" by code_simp
  then show ?thesis
    using k sint_le_unat
    by (simp add: lib_ok_def test_libc_def demo_libc_def log_out_def fd2name_def BUFMAX_def newline_char)
qed

end
