(* ===== verification/Launcher.thy ===== *)
theory Launcher
  imports Wrap
begin

text \<open>
  \<open>project2/logger.cpp\<close>, the program that prepares the environment and runs the command: its argument
  loop, the copies it makes of the arguments, and the vector it hands to \<open>execvp\<close>. Lemmas: every
  command line of the usage runs its command with the environment its options ask for.
\<close>

subsection \<open>The calls and the state\<close>

text \<open>
  \<open>l_usable n\<close> is the size of the block \<open>malloc(n)\<close> gives (at least \<open>n\<close>); \<open>l_open\<close> the real \<open>open\<close>
  with the flags and mode of the source; \<open>l_exec\<close> whether \<open>execvp\<close> of the file replaces the process.
\<close>

record 'w launch_calls =
  l_usable :: "nat \<Rightarrow> nat"
  l_open :: "'w \<Rightarrow> string \<Rightarrow> int \<times> 'w"
  l_exec :: "'w \<Rightarrow> string \<Rightarrow> bool"

record 'w launch =
  ld_preload :: string
  logger_out :: string
  l_stdout :: string
  l_w :: 'w

datatype 'w launched =
    Execd string "string list" "'w launch"
  | Exited int "'w launch"
  | Crashed

text \<open>
  \<open>malloc(sizeof(char)*strlen(s))\<close> followed by \<open>strcpy\<close>: the terminator needs one byte more than was
  asked for, so the copy is inside the block only when the block is larger than the request.
\<close>

definition copy_fits :: "'w launch_calls \<Rightarrow> string \<Rightarrow> bool" where
  "copy_fits C s \<longleftrightarrow> length s < l_usable C (length s)"

definition usage :: string where
  "usage = ''usage: ./logger [-o file] [-p sopath] [--] cmd [cmd args ...]'' @ [newline] @
     ''        -p: set the path to logger.so, default = ./logger.so'' @ [newline] @
     ''        -o: print output to file, print to '' @ quoted ''stderr'' @ '' if no file specified'' @ [newline] @
     ''        --: separate the arguments for logger and for the command'' @ [newline]"

text \<open>
  The command: copies of the name and of the arguments, then \<open>execvp\<close>. When that fails the index is
  past the end and the loop is over.
\<close>

definition exec_cmd :: "'w launch_calls \<Rightarrow> string \<Rightarrow> string list \<Rightarrow> 'w launch \<Rightarrow> 'w launched" where
  "exec_cmd C cmd args st =
     (if \<not> list_all (copy_fits C) (cmd # args) then Crashed
      else if l_exec C (l_w st) cmd then Execd cmd (cmd # args) st
      else Exited 0 st)"

text \<open>The argument loop on \<open>argv[i], \<dots>\<close>; \<open>argv[argc]\<close> is a null pointer.\<close>

fun launch_args :: "'w launch_calls \<Rightarrow> string list \<Rightarrow> 'w launch \<Rightarrow> 'w launched" where
  "launch_args C [] st = Exited 0 st"
| "launch_args C (a # as) st =
     (if a = ''-o'' then
        (case as of
           [] \<Rightarrow> Crashed
         | f # as' \<Rightarrow>
             if \<not> copy_fits C f then Crashed
             else (case l_open C (l_w st) f of (fd, w) \<Rightarrow>
               if 10 \<le> length (show_dec fd) then Crashed
               else launch_args C as' (st\<lparr>l_w := w, logger_out := show_dec fd\<rparr>)))
      else if a = ''-p'' then
        (case as of
           [] \<Rightarrow> Crashed
         | p # as' \<Rightarrow> if \<not> copy_fits C p then Crashed else launch_args C as' (st\<lparr>ld_preload := p\<rparr>))
      else if a = ''--'' then
        (case as of [] \<Rightarrow> Crashed | c # args \<Rightarrow> exec_cmd C c args st)
      else if a = [] \<or> hd a \<noteq> CHR ''-'' then exec_cmd C a as st
      else (case fst (strtok ''-'' a) of
              None \<Rightarrow> Crashed
            | Some pch \<Rightarrow>
                Exited 1 (st\<lparr>l_stdout := l_stdout st @ ''./logger: invalid option -- '' @ [CHR 0x27] @ pch @
                  [CHR 0x27, newline] @ usage\<rparr>)))"

text \<open>\<open>main\<close> on the arguments after the program name.\<close>

definition launch_main :: "'w launch_calls \<Rightarrow> string list \<Rightarrow> 'w \<Rightarrow> 'w launched" where
  "launch_main C args w =
     (if args = [] then
        Exited 1 \<lparr>ld_preload = [], logger_out = [], l_stdout = ''no command given.'' @ [newline], l_w = w\<rparr>
      else launch_args C args \<lparr>ld_preload = ''./logger.so'', logger_out = ''2'', l_stdout = [], l_w = w\<rparr>)"

subsection \<open>The command lines of the usage\<close>

datatype option_arg = Out_file string | So_path string

fun render :: "option_arg \<Rightarrow> string list" where
  "render (Out_file f) = [''-o'', f]"
| "render (So_path p) = [''-p'', p]"

fun apply_arg :: "'w launch_calls \<Rightarrow> option_arg \<Rightarrow> 'w launch \<Rightarrow> 'w launch" where
  "apply_arg C (Out_file f) st = (case l_open C (l_w st) f of (fd, w) \<Rightarrow> st\<lparr>l_w := w, logger_out := show_dec fd\<rparr>)"
| "apply_arg C (So_path p) st = st\<lparr>ld_preload := p\<rparr>"

fun arg_text :: "option_arg \<Rightarrow> string" where
  "arg_text (Out_file f) = f"
| "arg_text (So_path p) = p"

text \<open>Descriptors of at most nine characters, as the text buffer of the source holds.\<close>

definition small_fds :: "'w launch_calls \<Rightarrow> bool" where
  "small_fds C \<longleftrightarrow> (\<forall>w f. length (show_dec (fst (l_open C w f))) < 10)"

lemma launch_args_options:
  assumes "small_fds C" "list_all (\<lambda>x. copy_fits C (arg_text x)) xs"
  shows "launch_args C (concat (map render xs) @ rest) st = launch_args C rest (fold (apply_arg C) xs st)"
  using assms(2)
proof (induction xs arbitrary: st)
  case (Cons x xs)
  show ?case
  proof (cases x)
    case (Out_file f)
    have "length (show_dec (fst (l_open C (l_w st) f))) < 10" using assms(1) unfolding small_fds_def by blast
    with Cons Out_file show ?thesis by (cases "l_open C (l_w st) f") simp
  qed (use Cons in simp)
qed simp

lemma launch_args_cmd:
  assumes "list_all (copy_fits C) (cmd # args)" "l_exec C (l_w st) cmd"
  shows "launch_args C (''--'' # cmd # args) st = Execd cmd (cmd # args) st"
    and "cmd = [] \<or> hd cmd \<noteq> CHR ''-'' \<Longrightarrow> launch_args C (cmd # args) st = Execd cmd (cmd # args) st"
  using assms by (auto simp: exec_cmd_def)

lemma launch_line:
  assumes "small_fds C" "list_all (\<lambda>x. copy_fits C (arg_text x)) xs" "list_all (copy_fits C) (cmd # args)"
    "st = fold (apply_arg C) xs \<lparr>ld_preload = ''./logger.so'', logger_out = ''2'', l_stdout = [], l_w = w\<rparr>"
    "l_exec C (l_w st) cmd"
  shows "launch_main C (concat (map render xs) @ ''--'' # cmd # args) w = Execd cmd (cmd # args) st"
    and "cmd = [] \<or> hd cmd \<noteq> CHR ''-'' \<Longrightarrow>
      launch_main C (concat (map render xs) @ cmd # args) w = Execd cmd (cmd # args) st"
proof -
  let ?st = "\<lparr>ld_preload = ''./logger.so'', logger_out = ''2'', l_stdout = [], l_w = w\<rparr>"
  note o = launch_args_options [OF assms(1,2), of _ ?st, folded assms(4)]
  show "launch_main C (concat (map render xs) @ ''--'' # cmd # args) w = Execd cmd (cmd # args) st"
    using o [of "''--'' # cmd # args"] launch_args_cmd(1) [OF assms(3,5)]
    by (simp only: launch_main_def) simp
  show "launch_main C (concat (map render xs) @ cmd # args) w = Execd cmd (cmd # args) st"
    if "cmd = [] \<or> hd cmd \<noteq> CHR ''-''"
    using o [of "cmd # args"] launch_args_cmd(2) [OF assms(3,5) that]
    by (simp only: launch_main_def) simp
qed

text \<open>An argument of the command whose block has no room for the terminator.\<close>

lemma launch_long:
  assumes "small_fds C" "list_all (\<lambda>x. copy_fits C (arg_text x)) xs" "\<not> copy_fits C t"
  shows "launch_main C (concat (map render xs) @ ''--'' # cmd # args @ t # ts) w = Crashed"
proof -
  have "exec_cmd C cmd (args @ t # ts) st = Crashed" for st using assms(3) by (simp add: exec_cmd_def)
  then show ?thesis using launch_args_options [OF assms(1,2)] by (simp only: launch_main_def) simp
qed

lemma launch_overflow:
  assumes "l_usable C (length f) = length f"
  shows "launch_args C (''-o'' # f # as) st = Crashed" "launch_args C (''-p'' # f # as) st = Crashed"
    "launch_args C (''--'' # f # as) st = Crashed"
  using assms by (simp_all add: copy_fits_def exec_cmd_def)

text \<open>
  The block sizes of the GNU C library: a header of eight bytes, rounded up to sixteen, and at least 24 bytes
  for the program. A copy fits but for lengths such as 24 and 40.
\<close>

definition demo_calls :: "unit launch_calls" where
  "demo_calls = \<lparr>l_usable = (\<lambda>n. max 24 ((n + 23) div 16 * 16 - 8)), l_open = (\<lambda>w f. (3, w)), l_exec = (\<lambda>w f. True)\<rparr>"

lemma demo_calls_ok: "length s < 24 \<Longrightarrow> copy_fits demo_calls s" "small_fds demo_calls" "l_exec demo_calls w c"
proof -
  have "length (show_dec 3) < 10" by code_simp
  then show "length s < 24 \<Longrightarrow> copy_fits demo_calls s" "small_fds demo_calls" "l_exec demo_calls w c"
    by (simp_all add: demo_calls_def copy_fits_def small_fds_def)
qed

end
