(* ===== verification/Lsof.thy ===== *)
theory Lsof
  imports Ostream
begin

text \<open>
  \<open>project1/hw1.cpp\<close>, which lists the open files of every process: the walk over \<open>/proc\<close>, the four
  finders, the filters and the table. The calls that look at \<open>/proc\<close> are a record of functions; each
  gives \<open>Inl errno\<close> when it fails.
\<close>

subsection \<open>What \<open>/proc\<close> answers\<close>

record stat_t =
  st_mode :: u32
  st_ino :: u64
  st_uid :: u32

text \<open>
  \<open>p_junk\<close> is what the uninitialised path buffer of a finder holds when it is called on a path, and
  \<open>p_getline_errno\<close> the error number in force when the first line of a file cannot be read.
\<close>

record procfs =
  p_opendir :: "string \<Rightarrow> int + string list"
  p_readlink :: "string \<Rightarrow> int + string"
  p_stat :: "string \<Rightarrow> int + stat_t"
  p_fopen :: "string \<Rightarrow> int + string"
  p_getline_errno :: "string \<Rightarrow> int"
  p_access :: "string \<Rightarrow> u32 \<Rightarrow> bool"
  p_getpwuid :: "u32 \<Rightarrow> int + string"
  p_close :: "string \<Rightarrow> int option"
  p_strerror :: "int \<Rightarrow> string"
  p_junk :: "string \<Rightarrow> string"

definition ENOENT :: int where "ENOENT = 2"
definition EACCES :: int where "EACCES = 13"
definition R_OK :: u32 where "R_OK = 4"
definition W_OK :: u32 where "W_OK = 2"
definition PATH_MAX :: nat where "PATH_MAX = 4096"

record proc_info =
  pi_cmd :: string
  pi_pid :: string
  pi_usr :: string

record lsof =
  ls_out :: ostream
  ls_err :: string

definition lsof0 :: lsof where
  "lsof0 = \<lparr>ls_out = fresh_stream, ls_err = []\<rparr>"

subsection \<open>Rows and errors\<close>

definition ls_say :: "(ostream \<Rightarrow> ostream) list \<Rightarrow> lsof \<Rightarrow> lsof" where
  "ls_say fs s = s\<lparr>ls_out := chain fs (ls_out s)\<rparr>"

definition ls_error :: "procfs \<Rightarrow> string \<Rightarrow> int \<Rightarrow> lsof \<Rightarrow> lsof outcome" where
  "ls_error P str error_no s =
     Exit 1 (s\<lparr>ls_err := ls_err s @ ''Fail to '' @ str @ '', '' @ p_strerror P error_no @ [newline]\<rparr>)"

definition print_row :: "proc_info \<Rightarrow> string \<Rightarrow> string \<Rightarrow> string \<Rightarrow> string \<Rightarrow> lsof \<Rightarrow> lsof" where
  "print_row proc fd ty node name =
     ls_say [set_left, put_w 20 (pi_cmd proc), set_left, put_w 10 (pi_pid proc), set_left, put_w 20 (pi_usr proc),
             set_left, put_w 10 fd, set_left, put_w 10 ty, set_left, put_w 10 node,
             set_left, put_w 15 name, put [newline]]"

definition print_head :: "lsof \<Rightarrow> lsof" where
  "print_head =
     ls_say [set_left, put_w 20 ''COMMAND'', set_left, put_w 10 ''PID'', set_left, put_w 20 ''USER'',
             set_left, put_w 10 ''FD'', set_left, put_w 10 ''TYPE'', set_left, put_w 10 ''NODE'',
             set_left, put_w 15 ''NAME'', put [newline]]"

subsection \<open>Types, names and filters\<close>

definition file_type :: "u32 \<Rightarrow> string" where
  "file_type mode =
     (let f = mode AND 0xf000 in
      if f = 0x4000 then ''DIR'' else if f = 0x8000 then ''REG'' else if f = 0x2000 then ''CHR''
      else if f = 0x1000 then ''FIFO'' else if f = 0xc000 then ''SOCK'' else ''unknown'')"

text \<open>
  \<open>readlink\<close> into the path buffer: it writes the target and no terminator. The C string in the
  buffer, and \<open>dirname\<close>, which cuts that string in place unless it answers with a constant \<open>"."\<close>.
\<close>

definition put_link :: "string \<Rightarrow> string \<Rightarrow> string" where
  "put_link t buf = take PATH_MAX t @ drop (length (take PATH_MAX t)) buf"

definition c_string :: "string \<Rightarrow> string option" where
  "c_string buf = (if CHR 0x00 \<in> set buf then Some (takeWhile (\<lambda>c. c \<noteq> CHR 0x00) buf) else None)"

definition dirname_cut :: "string \<Rightarrow> nat option" where
  "dirname_cut s =
     (let slash = (\<lambda>c. c = CHR ''/'');
          body = dropWhile slash (rev s);
          upto = dropWhile (\<lambda>c. \<not> slash c) body;
          root = (\<lambda>n. if n = 2 then 2 else 1)
      in if body = [] then (if s = [] then None else Some (root (length s)))
         else if upto = [] then None
         else if dropWhile slash upto = [] then Some (root (length upto))
         else Some (length (dropWhile slash upto)))"

definition dirname :: "string \<Rightarrow> (string \<times> string) option" where
  "dirname buf =
     (case c_string buf of
        None \<Rightarrow> None
      | Some s \<Rightarrow>
          (case dirname_cut s of
             None \<Rightarrow> Some (''.'', buf)
           | Some n \<Rightarrow> Some (take n s, buf[n := CHR 0x00])))"

definition matches :: "string \<Rightarrow> string \<Rightarrow> bool" where
  "matches regex name \<longleftrightarrow> find_sub regex name \<noteq> None"

text \<open>The name of a row: a pipe or socket by its node, anything else by \<open>dirname\<close> of the link.\<close>

definition row_name :: "string \<Rightarrow> u64 \<Rightarrow> string \<Rightarrow> (string \<times> string) option" where
  "row_name ty node buf =
     (if ty = ''FIFO'' then Some (''pipe:['' @ show_nat 10 (unat node) @ '']'', buf)
      else if ty = ''SOCK'' then Some (''socket:['' @ show_nat 10 (unat node) @ '']'', buf)
      else dirname buf)"

subsection \<open>\<open>FindUsr\<close> and \<open>CheckCmd\<close>\<close>

definition FindUsr :: "procfs \<Rightarrow> string \<Rightarrow> lsof \<Rightarrow> (lsof \<times> string) outcome" where
  "FindUsr P dir s =
     (case p_stat P dir of
        Inl e \<Rightarrow> andthen (ls_error P ''stat'' e s) (\<lambda>s. Ok (s, [])) (\<lambda>s. (s, []))
      | Inr st \<Rightarrow>
          (case p_getpwuid P (st_uid st) of
             Inl e \<Rightarrow> andthen (ls_error P ''getpwuid'' e s) (\<lambda>s. Ok (s, [])) (\<lambda>s. (s, []))
           | Inr name \<Rightarrow> Ok (s, name)))"

text \<open>
  The command name is handed in and out: it changes only when the line has a newline.
\<close>

definition CheckCmd :: "procfs \<Rightarrow> string \<Rightarrow> string \<Rightarrow> string \<Rightarrow> lsof \<Rightarrow> (lsof \<times> bool \<times> string) outcome" where
  "CheckCmd P dir regex cmd s =
     (let fail = (\<lambda>f e. andthen (ls_error P f e s) (\<lambda>s. Ok (s, False, cmd)) (\<lambda>s. (s, False, cmd))) in
      case p_fopen P dir of
        Inl e \<Rightarrow> if e = ENOENT \<or> e = EACCES then Ok (s, False, cmd) else fail ''fopen'' e
      | Inr f \<Rightarrow>
          (case file_lines f of
             [] \<Rightarrow> fail ''getline'' (p_getline_errno P dir)
           | l # _ \<Rightarrow>
               (case p_close P dir of
                  Some e \<Rightarrow> fail ''fclose'' e
                | None \<Rightarrow>
                    let line = takeWhile (\<lambda>c. c \<noteq> CHR 0x00) l in
                    if matches regex line then
                      Ok (s, True, (case find_sub [newline] line of
                                      None \<Rightarrow> cmd
                                    | Some pos \<Rightarrow> take pos line @ drop (pos + (pos + 1)) line))
                    else Ok (s, False, cmd))))"

subsection \<open>The finders\<close>

definition FindCwdRoot :: "procfs \<Rightarrow> string \<Rightarrow> proc_info \<Rightarrow> string \<Rightarrow> string \<Rightarrow> string \<Rightarrow> lsof \<Rightarrow> lsof outcome" where
  "FindCwdRoot P dir proc fd regex type_regex s =
     (case p_readlink P dir of
        Inl e \<Rightarrow>
          if e = EACCES then Ok (print_row proc fd ''unknown'' [] (dir @ '' (readlink: Permission denied)'') s)
          else if e = ENOENT then Ok s
          else ls_error P ''readlink'' e s
      | Inr t \<Rightarrow>
          (case p_stat P dir of
             Inl e \<Rightarrow> ls_error P ''lstat'' e s
           | Inr st \<Rightarrow>
               (case dirname (put_link t (p_junk P dir)) of
                  None \<Rightarrow> Undef
                | Some (name, _) \<Rightarrow>
                    if matches regex name \<and> matches type_regex ''DIR''
                    then Ok (print_row proc fd ''DIR'' (show_nat 10 (unat (st_ino st))) name s)
                    else Ok s)))"

definition FindExe :: "procfs \<Rightarrow> string \<Rightarrow> proc_info \<Rightarrow> string \<Rightarrow> string \<Rightarrow> lsof \<Rightarrow> lsof outcome" where
  "FindExe P dir proc regex type_regex s =
     (case p_readlink P dir of
        Inl e \<Rightarrow>
          if e = EACCES then Ok (print_row proc ''exe'' ''unknown'' [] (dir @ '' (readlink: Permission denied)'') s)
          else if e = ENOENT then Ok s
          else ls_error P ''readlink'' e s
      | Inr t \<Rightarrow>
          (case p_stat P dir of
             Inl e \<Rightarrow> ls_error P ''stat'' e s
           | Inr st \<Rightarrow>
               let ty = file_type (st_mode st) in
               (case row_name ty (st_ino st) (put_link t (p_junk P dir)) of
                  None \<Rightarrow> Undef
                | Some (name, _) \<Rightarrow>
                    if matches regex name \<and> matches type_regex ty
                    then Ok (print_row proc ''exe'' ty (show_nat 10 (unat (st_ino st))) name s)
                    else Ok s)))"

text \<open>
  One line of the maps file. The four fields before the inode are only assigned; the inode, the name
  and the descriptor column are carried from line to line.
\<close>

record mem_vars =
  mv_node :: string
  mv_name :: string
  mv_fd :: string

definition mem_line :: "proc_info \<Rightarrow> string \<Rightarrow> string \<Rightarrow> string \<Rightarrow> string \<Rightarrow> mem_vars \<Rightarrow> lsof \<Rightarrow> mem_vars \<times> lsof" where
  "mem_line proc ty regex type_regex line v s =
     (let (addr, r1) = strtok '' '' line;
          (perm, r2) = strtok '' '' r1;
          (offset, r3) = strtok '' '' r2;
          (device, r4) = strtok '' '' r3;
          (node, r5) = strtok '' '' r4
      in if (case node of None \<Rightarrow> False | Some n \<Rightarrow> mv_node v = n \<or> n = ''0'') then (v, s)
         else
           let v = (case node of None \<Rightarrow> v | Some n \<Rightarrow> v\<lparr>mv_node := n\<rparr>);
               (name, r6) = strtok '' '' r5;
               v = (case name of None \<Rightarrow> v | Some n \<Rightarrow> v\<lparr>mv_name := n\<rparr>);
               v = (case find_sub [newline] (mv_name v) of
                      None \<Rightarrow> v
                    | Some pos \<Rightarrow> v\<lparr>mv_name := take pos (mv_name v) @ drop (pos + (pos + 1)) (mv_name v)\<rparr>);
               v = (if find_sub ''(deleted)'' (mv_name v) \<noteq> None
                    then v\<lparr>mv_fd := ''del'', mv_name := mv_name v @ '' (deleted)''\<rparr> else v)
           in (v, if matches regex (mv_name v) \<and> matches type_regex ty
                  then print_row proc (mv_fd v) ty (mv_node v) (mv_name v) s else s))"

fun mem_lines :: "proc_info \<Rightarrow> string \<Rightarrow> string \<Rightarrow> string \<Rightarrow> string list \<Rightarrow> mem_vars \<Rightarrow> lsof \<Rightarrow> lsof" where
  "mem_lines proc ty regex type_regex [] v s = s"
| "mem_lines proc ty regex type_regex (l # ls) v s =
     (case mem_line proc ty regex type_regex l v s of (v, s) \<Rightarrow> mem_lines proc ty regex type_regex ls v s)"

definition FindMem :: "procfs \<Rightarrow> string \<Rightarrow> proc_info \<Rightarrow> string \<Rightarrow> string \<Rightarrow> lsof \<Rightarrow> lsof outcome" where
  "FindMem P dir proc regex type_regex s =
     (case p_fopen P dir of
        Inl e \<Rightarrow> if e = ENOENT \<or> e = EACCES then Ok s else ls_error P ''fopen'' e s
      | Inr f \<Rightarrow>
          (case p_stat P dir of
             Inl e \<Rightarrow> ls_error P ''stat'' e s
           | Inr st \<Rightarrow>
               let s = mem_lines proc (file_type (st_mode st)) regex type_regex (file_lines f)
                         \<lparr>mv_node = [], mv_name = [], mv_fd = ''mem''\<rparr> s
               in (case p_close P dir of Some e \<Rightarrow> ls_error P ''fclose'' e s | None \<Rightarrow> Ok s)))"

definition fd_mode :: "procfs \<Rightarrow> string \<Rightarrow> string" where
  "fd_mode P path =
     (if p_access P path (R_OK AND W_OK) then ''u''
      else if p_access P path R_OK then ''r''
      else if p_access P path W_OK then ''w''
      else [])"

text \<open>
  The entries of the descriptor directory, with the path buffer carried from one to the next; a link
  that is gone ends the walk, without closing the directory.
\<close>

fun fd_entries :: "procfs \<Rightarrow> string \<Rightarrow> proc_info \<Rightarrow> string \<Rightarrow> string \<Rightarrow> string list \<Rightarrow> string \<Rightarrow> lsof \<Rightarrow> lsof outcome" where
  "fd_entries P dir proc regex type_regex [] buf s =
     (case p_close P dir of Some e \<Rightarrow> ls_error P ''closedir'' e s | None \<Rightarrow> Ok s)"
| "fd_entries P dir proc regex type_regex (d # ds) buf s =
     (if d = [] \<or> \<not> is_digit (hd d) then fd_entries P dir proc regex type_regex ds buf s
      else
        let path = dir @ ''/'' @ d in
        case p_readlink P path of
          Inl e \<Rightarrow> if e = ENOENT then Ok s else ls_error P ''readlink'' e s
        | Inr t \<Rightarrow>
            let buf = put_link t buf in
            (case p_stat P path of
               Inl e \<Rightarrow> ls_error P ''lstat'' e s
             | Inr st \<Rightarrow>
                 let ty = file_type (st_mode st) in
                 (case row_name ty (st_ino st) buf of
                    None \<Rightarrow> Undef
                  | Some (name, buf) \<Rightarrow>
                      let s = (if matches regex name \<and> matches type_regex ty
                               then print_row proc (d @ fd_mode P path) ty (show_nat 10 (unat (st_ino st))) name s
                               else s)
                      in fd_entries P dir proc regex type_regex ds buf s)))"

definition FindFd :: "procfs \<Rightarrow> string \<Rightarrow> proc_info \<Rightarrow> string \<Rightarrow> string \<Rightarrow> lsof \<Rightarrow> lsof outcome" where
  "FindFd P dir proc regex type_regex s =
     (case p_opendir P dir of
        Inl e \<Rightarrow>
          if e = EACCES then Ok (print_row proc ''NOFD'' [] [] (dir @ '' (opendir: Permission denied)'') s)
          else ls_error P ''opendir'' e s
      | Inr ds \<Rightarrow> fd_entries P dir proc regex type_regex ds (p_junk P dir) s)"

subsection \<open>\<open>main\<close>\<close>

record filters =
  f_file :: string
  f_type :: string
  f_cmd :: string

text \<open>The argument loop takes the arguments two by two; a missing value is a null pointer.\<close>

fun lsof_args :: "string list \<Rightarrow> filters \<Rightarrow> lsof \<Rightarrow> (lsof \<times> filters) outcome" where
  "lsof_args [] f s = Ok (s, f)"
| "lsof_args (a # as) f s =
     (if a = ''-c'' then
        (case as of [] \<Rightarrow> Undef | x # as' \<Rightarrow> lsof_args as' (f\<lparr>f_cmd := x\<rparr>) s)
      else if a = ''-t'' then
        (case as of
           [] \<Rightarrow> Undef
         | x # as' \<Rightarrow>
             if x \<noteq> ''REG'' \<and> x \<noteq> ''CHR'' \<and> x \<noteq> ''DIR'' \<and> x \<noteq> ''FIFO'' \<and> x \<noteq> ''SOCK'' \<and> x \<noteq> ''unknown''
             then Exit 1 (s\<lparr>ls_err := ls_err s @ ''Invalid TYPE option.'' @ [newline]\<rparr>, f\<lparr>f_type := x\<rparr>)
             else lsof_args as' (f\<lparr>f_type := x\<rparr>) s)
      else if a = ''-f'' then
        (case as of [] \<Rightarrow> Undef | x # as' \<Rightarrow> lsof_args as' (f\<lparr>f_file := x\<rparr>) s)
      else lsof_args (drop 1 as) f s)"

definition proc_rows :: "procfs \<Rightarrow> filters \<Rightarrow> string \<Rightarrow> string \<Rightarrow> lsof \<Rightarrow> lsof outcome" where
  "proc_rows P f d cmd s =
     (let base = ''/proc/'' @ d in
      andthen (FindUsr P (base @ ''/comm'') s)
        (\<lambda>(s, usr).
           let proc = \<lparr>pi_cmd = cmd, pi_pid = d, pi_usr = usr\<rparr> in
           seq (FindCwdRoot P (base @ ''/cwd'') proc ''cwd'' (f_file f) (f_type f) s) (\<lambda>s.
           seq (FindCwdRoot P (base @ ''/root'') proc ''root'' (f_file f) (f_type f) s) (\<lambda>s.
           seq (FindExe P (base @ ''/exe'') proc (f_file f) (f_type f) s) (\<lambda>s.
           seq (FindMem P (base @ ''/maps'') proc (f_file f) (f_type f) s) (\<lambda>s.
           FindFd P (base @ ''/fd'') proc (f_file f) (f_type f) s)))))
        fst)"

fun proc_entries :: "procfs \<Rightarrow> filters \<Rightarrow> string list \<Rightarrow> string \<Rightarrow> lsof \<Rightarrow> lsof outcome" where
  "proc_entries P f [] cmd s = Ok s"
| "proc_entries P f (d # ds) cmd s =
     (if d \<noteq> [] \<and> \<not> is_alpha (hd d) \<and> is_digit (hd d) then
        andthen (CheckCmd P (''/proc/'' @ d @ ''/comm'') (f_cmd f) cmd s)
          (\<lambda>(s, found, cmd).
             if found then seq (proc_rows P f d cmd s) (proc_entries P f ds cmd)
             else proc_entries P f ds cmd s)
          fst
      else proc_entries P f ds cmd s)"

definition lsof_main :: "procfs \<Rightarrow> string list \<Rightarrow> lsof \<Rightarrow> lsof outcome" where
  "lsof_main P args s =
     andthen (lsof_args args \<lparr>f_file = [], f_type = [], f_cmd = []\<rparr> s)
       (\<lambda>(s, f).
          case p_opendir P ''/proc/'' of
            Inl e \<Rightarrow> ls_error P ''opendir'' e s
          | Inr ds \<Rightarrow>
              seq (proc_entries P f ds [] (print_head s))
                (\<lambda>s. case p_close P ''/proc/'' of Some e \<Rightarrow> ls_error P ''closedir'' e s | None \<Rightarrow> Ok s))
       fst"

end
