(* ===== verification/Lsof_Facts.thy ===== *)
theory Lsof_Facts
  imports Lsof
begin

text \<open>
  What the lister of \<open>project1/hw1.cpp\<close> prints: the filters select rows and change nothing else, rows
  are aligned, names and modes are what the calls give; and where they are not what they should be.
\<close>

subsection \<open>Filters and rows\<close>

lemma matches_iff: "matches regex name \<longleftrightarrow> sublist regex name"
  unfolding matches_def by (rule find_sub_iff)

type_synonym row = "string \<times> string \<times> string \<times> string"

definition row_passes :: "string \<Rightarrow> string \<Rightarrow> row \<Rightarrow> bool" where
  "row_passes regex type_regex = (\<lambda>(fd, ty, node, name). sublist regex name \<and> sublist type_regex ty)"

definition print_rows :: "proc_info \<Rightarrow> row list \<Rightarrow> lsof \<Rightarrow> lsof" where
  "print_rows proc rows s = fold (\<lambda>(fd, ty, node, name). print_row proc fd ty node name) rows s"

lemma print_rows_simps [simp]:
  "print_rows proc [] s = s"
  "print_rows proc ((fd, ty, node, name) # rows) s = print_rows proc rows (print_row proc fd ty node name s)"
  by (simp_all add: print_rows_def)

text \<open>The rows of a descriptor directory with no filter; \<open>None\<close> when a call fails.\<close>

fun fd_table :: "procfs \<Rightarrow> string \<Rightarrow> string list \<Rightarrow> string \<Rightarrow> row list option" where
  "fd_table P dir [] buf = Some []"
| "fd_table P dir (d # ds) buf =
     (if d = [] \<or> \<not> is_digit (hd d) then fd_table P dir ds buf
      else case (p_readlink P (dir @ ''/'' @ d), p_stat P (dir @ ''/'' @ d)) of
        (Inr t, Inr st) \<Rightarrow>
          (case row_name (file_type (st_mode st)) (st_ino st) (put_link t buf) of
             None \<Rightarrow> None
           | Some (name, buf) \<Rightarrow>
               map_option (\<lambda>rows. (d @ fd_mode P (dir @ ''/'' @ d), file_type (st_mode st),
                 show_nat 10 (unat (st_ino st)), name) # rows) (fd_table P dir ds buf))
      | _ \<Rightarrow> None)"

lemma fd_entries_table:
  assumes "fd_table P dir ds buf = Some rows" "p_close P dir = None"
  shows "fd_entries P dir proc regex type_regex ds buf s =
    Ok (print_rows proc (filter (row_passes regex type_regex) rows) s)"
  using assms(1)
proof (induction ds arbitrary: buf rows s)
  case Nil
  then show ?case using assms(2) by simp
next
  case (Cons d ds)
  show ?case
  proof (cases "d = [] \<or> \<not> is_digit (hd d)")
    case True
    with Cons show ?thesis by auto
  next
    case False
    let ?path = "dir @ ''/'' @ d"
    from False Cons.prems obtain t st where t: "p_readlink P ?path = Inr t" and st: "p_stat P ?path = Inr st"
      by (auto split: sum.splits)
    let ?ty = "file_type (st_mode st)"
    from False Cons.prems t st obtain name buf' rows' where
      n: "row_name ?ty (st_ino st) (put_link t buf) = Some (name, buf')" and
      tab: "fd_table P dir ds buf' = Some rows'" and
      rows: "rows = (d @ fd_mode P ?path, ?ty, show_nat 10 (unat (st_ino st)), name) # rows'"
      by (auto split: option.splits)
    have "fd_entries P dir proc regex type_regex (d # ds) buf s =
        fd_entries P dir proc regex type_regex ds buf'
          (if matches regex name \<and> matches type_regex ?ty
           then print_row proc (d @ fd_mode P ?path) ?ty (show_nat 10 (unat (st_ino st))) name s else s)"
      using False t st n by (simp add: Let_def)
    then show ?thesis using Cons.IH [OF tab] rows by (simp add: matches_iff row_passes_def)
  qed
qed

text \<open>The text of a row: seven cells, each padded on the right.\<close>

definition cell :: "nat \<Rightarrow> string \<Rightarrow> string" where
  "cell w t = t @ replicate (w - length t) CHR '' ''"

definition row_text :: "proc_info \<Rightarrow> row \<Rightarrow> string" where
  "row_text proc = (\<lambda>(fd, ty, node, name).
     cell 20 (pi_cmd proc) @ cell 10 (pi_pid proc) @ cell 20 (pi_usr proc) @ cell 10 fd @ cell 10 ty @
     cell 10 node @ cell 15 name @ [newline])"

lemma print_row_text:
  assumes "os_fill (ls_out s) = CHR '' ''"
  shows "os_text (ls_out (print_row proc fd ty node name s)) = os_text (ls_out s) @ row_text proc (fd, ty, node, name)"
    and "os_fill (ls_out (print_row proc fd ty node name s)) = CHR '' ''"
  using assms by (simp_all add: print_row_def ls_say_def row_text_def cell_def pad_def)

lemma print_rows_text:
  assumes "os_fill (ls_out s) = CHR '' ''"
  shows "os_text (ls_out (print_rows proc rows s)) = os_text (ls_out s) @ concat (map (row_text proc) rows)"
  using assms
proof (induction rows arbitrary: s)
  case (Cons r rows)
  obtain fd ty node name where "r = (fd, ty, node, name)" by (cases r) auto
  with Cons print_row_text [OF Cons.prems] show ?case by simp
qed simp

lemma cell_length: "length (cell w t) = max w (length t)"
  by (simp add: cell_def max_def)

subsection \<open>Modes\<close>

lemma r_and_w: "R_OK AND W_OK = 0"
  by code_simp

lemma fd_mode_u: "p_access P path 0 \<Longrightarrow> fd_mode P path = ''u''"
  by (simp add: fd_mode_def r_and_w)

subsection \<open>Command names\<close>

lemma newline_not_nul: "newline \<noteq> CHR 0x00"
  by code_simp

lemma find_newline: "newline \<notin> set n \<Longrightarrow> find_sub [newline] (n @ newline # rest) = Some (length n)"
  by (induction n) (auto simp: find_sub.simps [of _ "_ # _"])

lemma file_lines_one: "newline \<notin> set n \<Longrightarrow> file_lines (n @ [newline]) = [n @ [newline]]"
proof -
  assume n: "newline \<notin> set n"
  have "takeWhile (\<lambda>c. c \<noteq> newline) (n @ [newline]) = n" "dropWhile (\<lambda>c. c \<noteq> newline) (n @ [newline]) = [newline]"
    using n by (auto intro: takeWhile_append_stop dropWhile_append_stop)
  then show ?thesis by (subst file_lines.simps) (simp add: file_lines.simps [of "[]"])
qed

lemma CheckCmd_comm:
  assumes "p_fopen P dir = Inr (n @ [newline])" "newline \<notin> set n" "CHR 0x00 \<notin> set n" "p_close P dir = None"
  shows "CheckCmd P dir regex cmd s =
    Ok (s, sublist regex (n @ [newline]), if sublist regex (n @ [newline]) then n else cmd)"
proof -
  have "takeWhile (\<lambda>c. c \<noteq> CHR 0x00) (n @ [newline]) = n @ [newline]" using assms(3) newline_not_nul by auto
  then show ?thesis using assms find_newline [OF assms(2), of "[]"] file_lines_one [OF assms(2)]
    by (simp add: CheckCmd_def Let_def matches_iff )
qed

subsection \<open>Names\<close>

text \<open>What the buffer holds after a link is put into it: the target and what was left behind it.\<close>

lemma c_string_link:
  assumes "CHR 0x00 \<notin> set t" "length t < PATH_MAX" "CHR 0x00 \<in> set (drop (length t) buf)"
  shows "c_string (put_link t buf) = Some (t @ takeWhile (\<lambda>c. c \<noteq> CHR 0x00) (drop (length t) buf))"
proof -
  have p: "put_link t buf = t @ drop (length t) buf" using assms(2) by (simp add: put_link_def)
  have "takeWhile (\<lambda>c. c \<noteq> CHR 0x00) (t @ drop (length t) buf) = t @ takeWhile (\<lambda>c. c \<noteq> CHR 0x00) (drop (length t) buf)"
    using assms(1) by (intro takeWhile_append2) auto
  with assms(3) show ?thesis by (simp add: c_string_def p)
qed

lemma dirname_cut_path:
  assumes "d \<noteq> []" "last d \<noteq> CHR ''/''" "b \<noteq> []" "CHR ''/'' \<notin> set b"
  shows "dirname_cut (d @ CHR ''/'' # b) = Some (length d)"
proof -
  obtain e c where d: "d = e @ [c]" "c \<noteq> CHR ''/''" using assms(1,2) by (cases d rule: rev_cases) auto
  let ?slash = "\<lambda>c. c = CHR ''/''"
  have b: "dropWhile ?slash (rev b @ CHR ''/'' # rev d) = rev b @ CHR ''/'' # rev d"
    using assms(3,4) by (cases b rule: rev_cases) auto
  have u: "dropWhile (\<lambda>c. \<not> ?slash c) (rev b @ CHR ''/'' # rev d) = CHR ''/'' # rev d"
    using assms(4) by (intro dropWhile_append_stop) auto
  have r: "dropWhile ?slash (CHR ''/'' # rev d) = rev d"
    using d by simp
  have "rev (d @ CHR ''/'' # b) = rev b @ CHR ''/'' # rev d" by simp
  then show ?thesis unfolding dirname_cut_def Let_def by (simp only: b u r) (simp add: assms(1))
qed

text \<open>
  On a buffer of zeros the name of an executable is the directory of the link's target, not the
  target.
\<close>

lemma dirname_link:
  assumes "d \<noteq> []" "last d \<noteq> CHR ''/''" "b \<noteq> []" "CHR ''/'' \<notin> set b" "CHR 0x00 \<notin> set (d @ b)"
    "length (d @ CHR ''/'' # b) < PATH_MAX" "length (d @ CHR ''/'' # b) < length buf"
    "buf ! length (d @ CHR ''/'' # b) = CHR 0x00"
  shows "\<exists>buf'. dirname (put_link (d @ CHR ''/'' # b) buf) = Some (d, buf')"
proof -
  let ?t = "d @ CHR ''/'' # b"
  have dr: "drop (length ?t) buf = CHR 0x00 # drop (Suc (length ?t)) buf"
    using assms(7,8) by (metis Cons_nth_drop_Suc)
  have "c_string (put_link ?t buf) = Some (?t @ takeWhile (\<lambda>c. c \<noteq> CHR 0x00) (drop (length ?t) buf))"
    using assms(5,6) dr by (intro c_string_link) auto
  then have "c_string (put_link ?t buf) = Some ?t" by (simp only: dr) simp
  with dirname_cut_path [OF assms(1-4)] show ?thesis by (simp add: dirname_def)
qed

text \<open>The name shown for an executable is the directory it is in.\<close>

lemma FindExe_names_directory:
  assumes "d \<noteq> []" "last d \<noteq> CHR ''/''" "b \<noteq> []" "CHR ''/'' \<notin> set b" "CHR 0x00 \<notin> set (d @ b)"
    "length (d @ CHR ''/'' # b) < PATH_MAX" "length (d @ CHR ''/'' # b) < length (p_junk P dir)"
    "p_junk P dir ! length (d @ CHR ''/'' # b) = CHR 0x00"
    "p_readlink P dir = Inr (d @ CHR ''/'' # b)" "p_stat P dir = Inr st" "file_type (st_mode st) = ''REG''"
    "sublist regex d" "sublist type_regex ''REG''"
  shows "FindExe P dir proc regex type_regex s =
    Ok (print_row proc ''exe'' ''REG'' (show_nat 10 (unat (st_ino st))) d s)"
  using dirname_link [OF assms(1-8)] assms(9-13)
  by (auto simp: FindExe_def Let_def row_name_def matches_iff)

subsection \<open>Deleted mappings\<close>

text \<open>
  A line of a maps file: four fields and the inode, each with its blanks after it (one more than the
  number), and the path with or without the mark of a deleted file. A mapping of no file has inode 0.
\<close>

record maps_entry =
  me_head :: "(string \<times> nat) list"
  me_node :: "string \<times> nat"
  me_path :: "string option"
  me_gone :: bool

definition padded :: "string \<times> nat \<Rightarrow> string" where
  "padded = (\<lambda>(w, n). w @ replicate (Suc n) CHR '' '')"

definition maps_text :: "maps_entry \<Rightarrow> string" where
  "maps_text e = concat (map padded (me_head e)) @ padded (me_node e) @
     (case me_path e of None \<Rightarrow> [] | Some p \<Rightarrow> p @ (if me_gone e then '' (deleted)'' else []))"

definition word_in :: "string \<Rightarrow> bool" where
  "word_in w \<longleftrightarrow> w \<noteq> [] \<and> CHR '' '' \<notin> set w \<and> newline \<notin> set w"

definition entry_ok :: "maps_entry \<Rightarrow> bool" where
  "entry_ok e \<longleftrightarrow> length (me_head e) = 4 \<and> list_all (\<lambda>f. word_in (fst f)) (me_node e # me_head e) \<and>
     (case me_path e of None \<Rightarrow> fst (me_node e) = ''0'' | Some p \<Rightarrow> word_in p \<and> \<not> sublist ''(deleted)'' p)"

text \<open>
  The table of a maps file: a row for each run of lines with one inode, of the descriptor column \<open>mem\<close>,
  whether the file is deleted or not, and the bare path.
\<close>

fun mem_table :: "string \<Rightarrow> maps_entry list \<Rightarrow> string \<Rightarrow> row list" where
  "mem_table ty [] prev = []"
| "mem_table ty (e # es) prev =
     (if fst (me_node e) \<in> {prev, ''0''} then mem_table ty es prev
      else (''mem'', ty, fst (me_node e), the (me_path e)) # mem_table ty es (fst (me_node e)))"

lemma mem_table_mem: "r \<in> set (mem_table ty es prev) \<Longrightarrow> fst r = ''mem''"
  by (induction es arbitrary: prev) (auto split: if_splits)

lemma mem_table_gone: "mem_table ty (map (\<lambda>e. e\<lparr>me_gone := g\<rparr>) es) prev = mem_table ty es prev"
  by (induction es arbitrary: prev) simp_all

lemma strtok_padded:
  assumes "word_in w"
  shows "strtok '' '' (replicate m CHR '' '' @ padded (w, n) @ r) = (Some w, replicate n CHR '' '' @ r)"
proof -
  have "strtok '' '' (replicate m CHR '' '' @ t) = strtok '' '' t" for t
    by (induction m) (simp_all add: strtok_skip)
  moreover have "strtok '' '' (w @ CHR '' '' # replicate n CHR '' '' @ r) = (Some w, replicate n CHR '' '' @ r)"
    using assms by (intro strtok_token) (auto simp: word_in_def)
  ultimately show ?thesis by (simp add: padded_def)
qed

lemma strtok_path:
  assumes "word_in p"
  shows "strtok '' '' (replicate m CHR '' '' @ p @ '' (deleted)'' @ [newline]) = (Some p, ''(deleted)'' @ [newline])"
    "strtok '' '' (replicate m CHR '' '' @ p @ [newline]) = (Some (p @ [newline]), [])"
proof -
  have b: "strtok '' '' (replicate m CHR '' '' @ t) = strtok '' '' t" for t
    by (induction m) (simp_all add: strtok_skip)
  have "newline \<noteq> CHR '' ''" by code_simp
  then show "strtok '' '' (replicate m CHR '' '' @ p @ [newline]) = (Some (p @ [newline]), [])"
    unfolding b using assms by (intro strtok_last) (auto simp: word_in_def)
  have "strtok '' '' (p @ CHR '' '' # (''(deleted)'' @ [newline])) = (Some p, ''(deleted)'' @ [newline])"
    using assms by (intro strtok_token) (auto simp: word_in_def)
  then show "strtok '' '' (replicate m CHR '' '' @ p @ '' (deleted)'' @ [newline]) = (Some p, ''(deleted)'' @ [newline])"
    unfolding b by simp
qed

lemma mem_line_entry:
  assumes "entry_ok e"
  shows "mem_line proc ty regex type_regex (maps_text e @ [newline]) v s =
    (if fst (me_node e) \<in> {mv_node v, ''0''} then (v, s)
     else let p = the (me_path e) in
       (v\<lparr>mv_node := fst (me_node e), mv_name := p\<rparr>,
        if sublist regex p \<and> sublist type_regex ty then print_row proc (mv_fd v) ty (fst (me_node e)) p s else s))"
proof -
  obtain a b c d where h: "me_head e = [a, b, c, d]"
    using assms by (auto simp: entry_ok_def length_Suc_conv eval_nat_numeral)
  obtain node k where n: "me_node e = (node, k)" by (cases "me_node e")
  define r where "r = (case me_path e of None \<Rightarrow> [] | Some p \<Rightarrow> p @ (if me_gone e then '' (deleted)'' else [])) @ [newline]"
  have t: "maps_text e @ [newline] = replicate 0 CHR '' '' @ padded a @ padded b @ padded c @ padded d @ padded (node, k) @ r"
    by (simp add: maps_text_def h n r_def)
  have w: "word_in (fst a)" "word_in (fst b)" "word_in (fst c)" "word_in (fst d)" "word_in node"
    using assms by (simp_all add: entry_ok_def h n)
  have k: "strtok '' '' (replicate m CHR '' '' @ padded f @ x) = (Some (fst f), replicate (snd f) CHR '' '' @ x)"
    if "word_in (fst f)" for m f x
    using strtok_padded [OF that, of m "snd f" x] by simp
  note split = t k [OF w(1)] k [OF w(2)] k [OF w(3)] k [OF w(4)] strtok_padded [OF w(5)]
  show ?thesis
  proof (cases "node \<in> {mv_node v, ''0''}")
    case True
    then show ?thesis by (auto simp: mem_line_def split n Let_def simp del: replicate.simps append_Nil)
  next
    case False
    then obtain p where p: "me_path e = Some p" "word_in p" "\<not> sublist ''(deleted)'' p"
      using assms by (auto simp: entry_ok_def n split: option.splits)
    have nl: "find_sub [newline] p = None"
      using find_sub_iff [of "[newline]" p] p(2) by (auto simp: sublist_def word_in_def)
    have del: "find_sub ''(deleted)'' p = None"
      using find_sub_iff [of "''(deleted)''" p] p(3) by simp
    have nl1: "find_sub [newline] (p @ [newline]) = Some (length p)"
      using find_newline [of p "[]"] p(2) by (simp add: word_in_def)
    have ne: "mv_node v \<noteq> node" using False by auto
    show ?thesis
      using False ne nl del nl1 strtok_path [OF p(2)] p(1)
      by (cases "me_gone e")
        (simp_all add: mem_line_def split n r_def Let_def matches_iff del: replicate.simps append_Nil)
  qed
qed

lemma mem_lines_table:
  assumes "list_all entry_ok es" "mv_fd v = ''mem''"
  shows "mem_lines proc ty regex type_regex (map (\<lambda>e. maps_text e @ [newline]) es) v s =
    print_rows proc (filter (row_passes regex type_regex) (mem_table ty es (mv_node v))) s"
  using assms
proof (induction es arbitrary: v s)
  case (Cons e es)
  then show ?case
    by (auto simp: mem_line_entry Let_def row_passes_def)
qed simp

lemma file_lines_map:
  "list_all (\<lambda>l. newline \<notin> set l) ls \<Longrightarrow>
   file_lines (concat (map (\<lambda>l. l @ [newline]) ls)) = map (\<lambda>l. l @ [newline]) ls"
proof (induction ls)
  case (Cons l ls)
  let ?r = "concat (map (\<lambda>l. l @ [newline]) ls)"
  have "takeWhile (\<lambda>c. c \<noteq> newline) (l @ newline # ?r) = l" "dropWhile (\<lambda>c. c \<noteq> newline) (l @ newline # ?r) = newline # ?r"
    using Cons.prems by (auto intro!: takeWhile_append_stop dropWhile_append_stop)
  then show ?case using Cons by (simp add: file_lines.simps [of "l @ newline # ?r"])
qed (simp add: file_lines.simps)

lemma entry_no_newline: "entry_ok e \<Longrightarrow> newline \<notin> set (maps_text e)"
proof -
  assume e: "entry_ok e"
  have b: "newline \<noteq> CHR '' ''" "newline \<notin> set '' (deleted)''" by code_simp+
  have f: "newline \<notin> set (padded f)" if "word_in (fst f)" for f
    using that b(1) by (cases f) (simp add: padded_def word_in_def)
  have "newline \<notin> set (concat (map padded (me_head e)))" "newline \<notin> set (padded (me_node e))"
    using e f by (simp_all add: entry_ok_def list_all_iff)
  moreover have "newline \<notin> set (case me_path e of None \<Rightarrow> [] | Some p \<Rightarrow> p @ (if me_gone e then '' (deleted)'' else []))"
    using e b(2)
    by (cases "me_path e") (auto simp only: entry_ok_def word_in_def option.case set_append list.set Un_iff empty_iff split: if_split_asm)
  ultimately show ?thesis by (simp only: maps_text_def set_append Un_iff simp_thms)
qed

lemma FindMem_table:
  assumes "p_fopen P dir = Inr (concat (map (\<lambda>e. maps_text e @ [newline]) es))" "list_all entry_ok es"
    "p_stat P dir = Inr st" "p_close P dir = None"
  shows "FindMem P dir proc regex type_regex s =
    Ok (print_rows proc (filter (row_passes regex type_regex) (mem_table (file_type (st_mode st)) es [])) s)"
proof -
  have "file_lines (concat (map (\<lambda>e. maps_text e @ [newline]) es)) = map (\<lambda>e. maps_text e @ [newline]) es"
    using file_lines_map [of "map maps_text es"] assms(2) entry_no_newline by (simp add: list_all_iff comp_def)
  then show ?thesis using assms mem_lines_table [OF assms(2)] by (simp add: FindMem_def Let_def)
qed

end
