(* ===== verification/Lsof_Demo.thy ===== *)
theory Lsof_Demo
  imports Lsof_Facts "HOL-Library.Code_Target_Numeral"
begin

text \<open>A concrete \<open>/proc\<close> for the witnesses: one process with one descriptor, whose links end in \<open>/usr/bin/bash\<close>.\<close>

definition demo_proc :: procfs where
  "demo_proc = \<lparr>p_opendir = (\<lambda>d. Inr [''.'', ''255'']), p_readlink = (\<lambda>d. Inr ''/usr/bin/bash''),
     p_stat = (\<lambda>d. Inr \<lparr>st_mode = 0x81ed, st_ino = 1179741, st_uid = 1000\<rparr>),
     p_fopen = (\<lambda>d. Inr (''bash'' @ [newline])), p_getline_errno = (\<lambda>d. 0), p_access = (\<lambda>d m. m = 0 \<or> m = 4),
     p_getpwuid = (\<lambda>u. Inr ''ta''), p_close = (\<lambda>d. None), p_strerror = (\<lambda>e. ''error''),
     p_junk = (\<lambda>d. replicate PATH_MAX CHR 0x00)\<rparr>"

definition demo_bash :: proc_info where
  "demo_bash = \<lparr>pi_cmd = ''bash'', pi_pid = ''26884'', pi_usr = ''ta''\<rparr>"

lemma demo_opendir: "p_opendir demo_proc d = Inr [''.'', ''255'']"
  by (simp add: demo_proc_def)

lemma demo_close: "p_close demo_proc d = None"
  by (simp add: demo_proc_def)

lemma demo_exe: "file_type 0x81ed = ''REG''" "show_nat 10 1179741 = ''1179741''"
  by code_simp+

lemma demo_path_max: "13 < PATH_MAX"
  by (simp add: PATH_MAX_def)

lemma demo_link: "\<exists>buf. dirname (put_link ''/usr/bin/bash'' (replicate PATH_MAX CHR 0x00)) = Some (''/usr/bin'', buf)"
  using dirname_link [of "''/usr/bin''" "''bash''" "replicate PATH_MAX CHR 0x00"] demo_path_max by simp

lemma demo_table:
  "fd_table demo_proc d [''.'', ''255''] (p_junk demo_proc d) = Some [(''255u'', ''REG'', ''1179741'', ''/usr/bin'')]"
proof -
  obtain buf where b: "dirname (put_link ''/usr/bin/bash'' (replicate PATH_MAX CHR 0x00)) = Some (''/usr/bin'', buf)"
    using demo_link by blast
  have d: "\<not> is_digit CHR ''.''" "is_digit CHR ''2''" by code_simp+
  show ?thesis using b d demo_exe
    by (simp add: demo_proc_def row_name_def fd_mode_def r_and_w)
qed

lemma demo_row: "row_passes ''bin'' ''REG'' (''255u'', ''REG'', ''1179741'', ''/usr/bin'')"
  by code_simp

text \<open>A process with one mapping, of a deleted file.\<close>

definition demo_gone :: maps_entry where
  "demo_gone = \<lparr>me_head = [(''40-41'', 0), (''r-xp'', 0), (''0'', 0), (''08:02'', 0)], me_node = (''26'', 2),
     me_path = Some ''/tmp/b'', me_gone = True\<rparr>"

definition demo_maps :: procfs where
  "demo_maps = demo_proc\<lparr>p_fopen := (\<lambda>d. Inr (''40-41 r-xp 0 08:02 26   /tmp/b (deleted)'' @ [newline]))\<rparr>"

lemma demo_gone_text: "maps_text demo_gone = ''40-41 r-xp 0 08:02 26   /tmp/b (deleted)''"
  by code_simp

lemma demo_gone_ok: "entry_ok demo_gone"
proof -
  have "newline = CHR 0x0A" by code_simp
  moreover have "\<not> sublist ''(deleted)'' ''/tmp/b''" by code_simp
  ultimately show ?thesis by (simp add: entry_ok_def demo_gone_def word_in_def)
qed

lemma demo_maps_calls:
  "p_fopen demo_maps d = Inr (concat (map (\<lambda>e. maps_text e @ [newline]) [demo_gone]))"
  "p_stat demo_maps d = Inr \<lparr>st_mode = 0x81ed, st_ino = 1179741, st_uid = 1000\<rparr>" "p_close demo_maps d = None"
  unfolding list.map concat.simps demo_gone_text by (simp_all add: demo_maps_def demo_proc_def)

lemma demo_gone_rows: "filter (row_passes [] []) (mem_table (file_type 0x81ed) [demo_gone] []) = [(''mem'', ''REG'', ''26'', ''/tmp/b'')]"
  by code_simp

lemma demo_bash_chars: "newline \<notin> set ''bash''"
  by code_simp

end
