(* ===== verification/Mini_Mem.thy ===== *)
theory Mini_Mem
  imports Kernel
begin

text \<open>
  The process that \<open>project3\<close>'s C library runs in: byte memory with unmapped addresses, the system call
  the library is built on, and the ways a function of the library may not return. The kernel is the
  parameter \<open>sysc\<close>: it may change memory and its own state in any way, or not return. Lemmas: reads after
  writes of four and eight bytes, at the same address and at addresses apart.
\<close>

subsection \<open>Stops and sequencing\<close>

text \<open>
  An access to unmapped memory, a system call that does not return, undefined behaviour of the C source,
  and, for assembly, a jump to code outside the library.
\<close>

datatype mini_stop = Segv | Gone | Ub | Elsewhere

fun bnd :: "'e + 'a \<Rightarrow> ('a \<Rightarrow> 'e + 'b) \<Rightarrow> 'e + 'b" where
  "bnd (Inl e) f = Inl e"
| "bnd (Inr x) f = f x"

lemma bnd_cong [fundef_cong]:
  "m = m' \<Longrightarrow> (\<And>x. m' = Inr x \<Longrightarrow> f x = f' x) \<Longrightarrow> bnd m f = bnd m' f'"
  by (cases m') simp_all

lemma bnd_assoc: "bnd (bnd m f) g = bnd m (\<lambda>x. bnd (f x) g)"
  by (cases m) simp_all

lemma bnd_Inr_iff: "bnd m f = Inr y \<longleftrightarrow> (\<exists>x. m = Inr x \<and> f x = Inr y)"
  by (cases m) simp_all

lemma unat_pred_less: "n \<noteq> 0 \<Longrightarrow> unat (n - 1) < unat (n :: u64)"
  by (simp add: unat_minus_one unat_gt_0)

subsection \<open>Memory of the process\<close>

record 'w proc =
  p_mem :: memory
  p_os :: 'w

text \<open>Loads and stores of one, four and eight bytes.\<close>

definition ld1 :: "u64 \<Rightarrow> 'w proc \<Rightarrow> mini_stop + u8" where
  "ld1 a p = (case p_mem p a of None \<Rightarrow> Inl Segv | Some b \<Rightarrow> Inr b)"

definition st1 :: "u64 \<Rightarrow> u8 \<Rightarrow> 'w proc \<Rightarrow> mini_stop + 'w proc" where
  "st1 a b p = (if p_mem p a = None then Inl Segv else Inr (p\<lparr>p_mem := (p_mem p)(a \<mapsto> b)\<rparr>))"

definition ld8 :: "u64 \<Rightarrow> 'w proc \<Rightarrow> mini_stop + u64" where
  "ld8 a p = (case peek_mem (p_mem p) a of None \<Rightarrow> Inl Segv | Some v \<Rightarrow> Inr v)"

definition st8 :: "u64 \<Rightarrow> u64 \<Rightarrow> 'w proc \<Rightarrow> mini_stop + 'w proc" where
  "st8 a v p = (if readable (p_mem p) a then Inr (p\<lparr>p_mem := poke_mem (p_mem p) a v\<rparr>) else Inl Segv)"

definition peek4 :: "memory \<Rightarrow> u64 \<Rightarrow> u32 option" where
  "peek4 m a =
     (if list_all (\<lambda>i. m (a + of_nat i) \<noteq> None) [0..<4]
      then Some (of_nat (le_val (map (\<lambda>i. the (m (a + of_nat i))) [0..<4]))) else None)"

definition poke4 :: "memory \<Rightarrow> u64 \<Rightarrow> u32 \<Rightarrow> memory" where
  "poke4 m a v = (\<lambda>x. if unat (x - a) < 4 then Some (byte_of (ucast v) (unat (x - a))) else m x)"

definition ld4 :: "u64 \<Rightarrow> 'w proc \<Rightarrow> mini_stop + u32" where
  "ld4 a p = (case peek4 (p_mem p) a of None \<Rightarrow> Inl Segv | Some v \<Rightarrow> Inr v)"

definition st4 :: "u64 \<Rightarrow> u32 \<Rightarrow> 'w proc \<Rightarrow> mini_stop + 'w proc" where
  "st4 a v p =
     (if peek4 (p_mem p) a = None then Inl Segv else Inr (p\<lparr>p_mem := poke4 (p_mem p) a v\<rparr>))"

subsection \<open>The system call and the link-time addresses\<close>

text \<open>
  \<open>sysc n args\<close> is the \<open>syscall\<close> instruction with number \<open>n\<close>: its result and the process afterwards,
  signal handlers that ran meanwhile included, or \<open>None\<close> when it does not return. \<open>errno_at\<close> and
  \<open>myrt_at\<close> are where the linker put \<open>errno\<close> and \<open>__myrt\<close>, \<open>lit\<close> where it put a string literal.
\<close>

record 'w unix =
  sysc :: "u64 \<Rightarrow> u64 list \<Rightarrow> 'w proc \<Rightarrow> (u64 \<times> 'w proc) option"
  errno_at :: u64
  myrt_at :: u64
  lit :: "string \<Rightarrow> u64"

text \<open>
  The \<open>gensys\<close> lines, names and numbers, and the number of parameters that the prototype of \<open>sys_<name>\<close>
  in \<open>libmini.h\<close> has (the variable argument of \<open>open\<close> counted).
\<close>

definition gensys_table :: "(string \<times> u64) list" where
  "gensys_table =
    [(''read'', 0), (''write'', 1), (''open'', 2), (''close'', 3), (''mmap'', 9), (''mprotect'', 10),
     (''munmap'', 11), (''pipe'', 22), (''dup'', 32), (''dup2'', 33), (''pause'', 34), (''nanosleep'', 35),
     (''fork'', 57), (''exit'', 60), (''getcwd'', 79), (''chdir'', 80), (''rename'', 82), (''mkdir'', 83),
     (''rmdir'', 84), (''creat'', 85), (''link'', 86), (''unlink'', 88), (''readlink'', 89), (''chmod'', 90),
     (''chown'', 92), (''umask'', 95), (''gettimeofday'', 96), (''getuid'', 102), (''getgid'', 104),
     (''setuid'', 105), (''setgid'', 106), (''geteuid'', 107), (''getegid'', 108), (''alarm'', 37),
     (''rt_sigprocmask'', 14), (''rt_sigpending'', 127), (''rt_sigaction'', 13)]"

definition sys_params :: "(string \<times> nat) list" where
  "sys_params =
    [(''read'', 3), (''write'', 3), (''open'', 3), (''close'', 1), (''mmap'', 6), (''mprotect'', 3),
     (''munmap'', 2), (''pipe'', 1), (''dup'', 1), (''dup2'', 2), (''pause'', 0), (''nanosleep'', 2),
     (''fork'', 0), (''exit'', 1), (''getcwd'', 2), (''chdir'', 1), (''rename'', 2), (''mkdir'', 2),
     (''rmdir'', 1), (''creat'', 2), (''link'', 2), (''unlink'', 1), (''readlink'', 3), (''chmod'', 2),
     (''chown'', 3), (''umask'', 1), (''gettimeofday'', 2), (''getuid'', 0), (''getgid'', 0), (''setuid'', 1),
     (''setgid'', 1), (''geteuid'', 0), (''getegid'', 0), (''alarm'', 1), (''rt_sigprocmask'', 4),
     (''rt_sigpending'', 2), (''rt_sigaction'', 4)]"

definition sysno :: "string \<Rightarrow> u64" where
  "sysno name = the (map_of gensys_table name)"

definition sys_arity :: "u64 \<Rightarrow> nat" where
  "sys_arity n = (case find (\<lambda>(name, k). k = n) gensys_table of
     None \<Rightarrow> 0
   | Some (name, k) \<Rightarrow> (case map_of sys_params name of None \<Rightarrow> 0 | Some a \<Rightarrow> a))"

text \<open>A call of \<open>sys_<name>\<close> from C.\<close>

definition sys :: "'w unix \<Rightarrow> string \<Rightarrow> u64 list \<Rightarrow> 'w proc \<Rightarrow> mini_stop + u64 \<times> 'w proc" where
  "sys L name args p = (case sysc L (sysno name) args p of None \<Rightarrow> Inl Gone | Some x \<Rightarrow> Inr x)"

subsection \<open>Reads after writes\<close>

text \<open>Two words apart: neither starts within the eight bytes of the other.\<close>

definition apart8 :: "u64 \<Rightarrow> u64 \<Rightarrow> bool" where
  "apart8 a b \<longleftrightarrow> 8 \<le> b - a \<and> 8 \<le> a - b"

lemma apart8_sym: "apart8 a b \<longleftrightarrow> apart8 b a"
  by (auto simp: apart8_def)

lemma apart8_same_base:
  "apart8 (x + c) (x + d) \<longleftrightarrow> 8 \<le> d - c \<and> 8 \<le> c - d"
  "apart8 x (x + d) \<longleftrightarrow> 8 \<le> d \<and> 8 \<le> - d"
  "apart8 (x + c) x \<longleftrightarrow> 8 \<le> - c \<and> 8 \<le> c"
  "apart8 (x - c) (x - d) \<longleftrightarrow> 8 \<le> c - d \<and> 8 \<le> d - c"
  "apart8 x (x - d) \<longleftrightarrow> 8 \<le> - d \<and> 8 \<le> d"
  "apart8 (x - c) x \<longleftrightarrow> 8 \<le> c \<and> 8 \<le> - c"
  by (simp_all add: apart8_def)

lemma apart8_bytes:
  assumes "apart8 a b" "i < 8"
  shows "\<not> unat (b + of_nat i - a) < 8"
proof
  assume "unat (b + of_nat i - a) < 8"
  then obtain j where j: "j < 8" "b + of_nat i = a + of_nat j" using in_word_iff by blast
  then have "b - a = of_nat j - of_nat i \<and> a - b = of_nat i - of_nat j" by (simp add: algebra_simps)
  moreover have "of_nat j - of_nat i < (8 :: u64) \<or> of_nat i - of_nat j < (8 :: u64)"
  proof -
    have "(of_nat (j - i) :: u64) < 8" "(of_nat (i - j) :: u64) < 8"
      using j(1) assms(2) by (simp_all add: word_less_nat_alt unat_of_nat)
    then show ?thesis by (cases "i \<le> j") (simp_all add: of_nat_diff)
  qed
  ultimately show False using assms(1) unfolding apart8_def by (metis not_le)
qed

lemma peek_poke_same [simp]: "peek_mem (poke_mem m a v) a = Some v"
  by (rule peek_mem_holds [OF holds_word_poke])

lemma poke_apart: "apart8 a b \<Longrightarrow> i < 8 \<Longrightarrow> poke_mem m a v (b + of_nat i) = m (b + of_nat i)"
  using apart8_bytes by (simp add: poke_mem_def)

lemma peek_poke_apart [simp]: "apart8 a b \<Longrightarrow> peek_mem (poke_mem m a v) b = peek_mem m b"
proof -
  assume a: "apart8 a b"
  have "map (\<lambda>i. the (poke_mem m a v (b + of_nat i))) [0..<8] = map (\<lambda>i. the (m (b + of_nat i))) [0..<8]"
    by (rule map_cong) (simp_all add: poke_apart [OF a])
  moreover have "readable (poke_mem m a v) b \<longleftrightarrow> readable m b"
    by (simp add: readable_iff poke_apart [OF a])
  ultimately show ?thesis by (simp only: peek_mem_def)
qed

lemma readable_poke_keep: "readable m b \<Longrightarrow> readable (poke_mem m a v) b"
  by (simp add: readable_iff poke_mem_def)

lemma peek_readable: "peek_mem m a = Some v \<Longrightarrow> readable m a"
  by (simp add: peek_mem_def split: if_splits)

lemma poke_commute:
  assumes "apart8 a b"
  shows "poke_mem (poke_mem m a v) b w = poke_mem (poke_mem m b w) a v"
proof
  fix x
  have "\<not> (unat (x - a) < 8 \<and> unat (x - b) < 8)"
  proof
    assume "unat (x - a) < 8 \<and> unat (x - b) < 8"
    then obtain i where "i < 8" "x = b + of_nat i" "unat (x - a) < 8" using in_word_iff by blast
    with apart8_bytes [OF assms] show False by blast
  qed
  then show "poke_mem (poke_mem m a v) b w x = poke_mem (poke_mem m b w) a v x"
    by (auto simp: poke_mem_def)
qed

text \<open>Four bytes, read back after they are written and unaffected by words apart.\<close>

lemma le_val_byte_of: "le_val (map (byte_of w) [0..<k]) = unat w mod 256 ^ k"
proof (induction k arbitrary: w)
  case (Suc k)
  have "map (byte_of w) [0..<Suc k] = byte_of w 0 # map (byte_of (drop_bit 8 w)) [0..<k]"
    unfolding upt_conv_Cons [OF zero_less_Suc] map_Suc_upt [symmetric] list.map map_map
    by (simp add: byte_of_def comp_def drop_bit_drop_bit add.commute)
  moreover have "unat (byte_of w 0) = unat w mod 256"
    by (simp add: byte_of_def unsigned_ucast_eq take_bit_eq_mod)
  moreover have "unat (drop_bit 8 w) = unat w div 256"
    by (simp add: unat_div drop_bit_eq_div)
  ultimately show ?case using Suc.IH [of "drop_bit 8 w"] by (simp add: mod_mult2_eq)
qed simp

lemma poke4_at: "i < 4 \<Longrightarrow> poke4 m a v (a + of_nat i) = Some (byte_of (ucast v) i)"
  by (simp add: poke4_def unat_of_nat)

lemma peek4_poke4 [simp]: "peek4 (poke4 m a v) a = Some v"
proof -
  have "map (\<lambda>i. the (poke4 m a v (a + of_nat i))) [0..<4] = map (byte_of (ucast v)) [0..<4]"
    by (rule map_cong) (simp_all add: poke4_at)
  moreover have "unat (ucast v :: u64) mod 256 ^ 4 = unat v"
    using unsigned_less [of v, where 'a = nat] by (simp add: unsigned_ucast_eq take_bit_nat_eq_self)
  moreover have "list_all (\<lambda>i. poke4 m a v (a + of_nat i) \<noteq> None) [0..<4]"
    by (simp add: list_all_iff poke4_at)
  ultimately show ?thesis by (simp only: peek4_def le_val_byte_of if_True) simp
qed

lemma poke4_apart: "apart8 a b \<Longrightarrow> i < 8 \<Longrightarrow> poke4 m a v (b + of_nat i) = m (b + of_nat i)"
  using apart8_bytes [of a b i] by (simp add: poke4_def)

lemma peek_poke4_apart [simp]: "apart8 a b \<Longrightarrow> peek_mem (poke4 m a v) b = peek_mem m b"
proof -
  assume a: "apart8 a b"
  have "map (\<lambda>i. the (poke4 m a v (b + of_nat i))) [0..<8] = map (\<lambda>i. the (m (b + of_nat i))) [0..<8]"
    by (rule map_cong) (simp_all add: poke4_apart [OF a])
  moreover have "readable (poke4 m a v) b \<longleftrightarrow> readable m b"
    by (simp add: readable_iff poke4_apart [OF a])
  ultimately show ?thesis by (simp only: peek_mem_def)
qed

lemma peek4_poke_apart [simp]: "apart8 a b \<Longrightarrow> peek4 (poke_mem m a v) b = peek4 m b"
proof -
  assume a: "apart8 a b"
  have "map (\<lambda>i. the (poke_mem m a v (b + of_nat i))) [0..<4] = map (\<lambda>i. the (m (b + of_nat i))) [0..<4]"
    by (rule map_cong) (simp_all add: poke_apart [OF a])
  moreover have "list_all (\<lambda>i. poke_mem m a v (b + of_nat i) \<noteq> None) [0..<4] \<longleftrightarrow>
      list_all (\<lambda>i. m (b + of_nat i) \<noteq> None) [0..<4]"
    by (rule list.pred_cong) (simp_all add: poke_apart [OF a])
  ultimately show ?thesis by (simp only: peek4_def)
qed

lemma readable_poke4_keep: "readable m b \<Longrightarrow> readable (poke4 m a v) b"
  by (simp add: readable_iff poke4_def)

lemma readable_peek4: "readable m a \<Longrightarrow> \<exists>v. peek4 m a = Some v"
  by (simp add: peek4_def readable_iff list_all_iff)

end
