(* ===== verification/Mini.thy ===== *)
theory Mini
  imports Mini_Mem
begin

text \<open>
  \<open>project3/libmini.c\<close> with the types and constants of \<open>libmini.h\<close>: the system call wrappers and
  their \<open>errno\<close> contract, the signal functions, the memory functions and \<open>perror\<close>. Pointers are
  addresses in the memory of the process; \<open>errno\<close> is the \<open>long\<close> at \<open>errno_at\<close>. An \<open>int\<close> argument is
  passed in the low half of its register; the upper half, which the kernel does not read, is zero here.
\<close>

type_synonym ('a, 'w) call = "'w proc \<Rightarrow> mini_stop + 'a \<times> 'w proc"

subsection \<open>The \<open>errno\<close> contract\<close>

text \<open>\<open>WRAPPER_RETval(type)\<close> at the width of \<open>type\<close>, and \<open>WRAPPER_RETptr(type)\<close>.\<close>

definition retval :: "'w unix \<Rightarrow> u64 \<times> 'w proc \<Rightarrow> mini_stop + 'r::len word \<times> 'w proc" where
  "retval L = (\<lambda>(ret, p).
     bnd (st8 (errno_at L) 0 p) (\<lambda>p.
       if sint ret < 0 then bnd (st8 (errno_at L) (- ret) p) (\<lambda>p. Inr (- 1, p))
       else Inr (ucast ret, p)))"

definition retptr :: "'w unix \<Rightarrow> u64 \<times> 'w proc \<Rightarrow> mini_stop + u64 \<times> 'w proc" where
  "retptr L = (\<lambda>(ret, p).
     bnd (st8 (errno_at L) 0 p) (\<lambda>p.
       if sint ret < 0 then bnd (st8 (errno_at L) (- ret) p) (\<lambda>p. Inr (0, p))
       else Inr (ret, p)))"

subsection \<open>System call wrappers\<close>

definition mini_read :: "'w unix \<Rightarrow> u32 \<Rightarrow> u64 \<Rightarrow> u64 \<Rightarrow> (u64, 'w) call" where
  "mini_read L fd buf count p = bnd (sys L ''read'' [ucast fd, buf, count] p) (retval L)"

definition mini_write :: "'w unix \<Rightarrow> u32 \<Rightarrow> u64 \<Rightarrow> u64 \<Rightarrow> (u64, 'w) call" where
  "mini_write L fd buf count p = bnd (sys L ''write'' [ucast fd, buf, count] p) (retval L)"

definition mini_close :: "'w unix \<Rightarrow> u32 \<Rightarrow> (u32, 'w) call" where
  "mini_close L fd p = bnd (sys L ''close'' [ucast fd] p) (retval L)"

definition mini_mmap :: "'w unix \<Rightarrow> u64 \<Rightarrow> u64 \<Rightarrow> u32 \<Rightarrow> u32 \<Rightarrow> u32 \<Rightarrow> u64 \<Rightarrow> (u64, 'w) call" where
  "mini_mmap L addr n prot flags fd off p =
     bnd (sys L ''mmap'' [addr, n, ucast prot, ucast flags, ucast fd, off] p) (retptr L)"

definition mini_mprotect :: "'w unix \<Rightarrow> u64 \<Rightarrow> u64 \<Rightarrow> u32 \<Rightarrow> (u32, 'w) call" where
  "mini_mprotect L addr n prot p = bnd (sys L ''mprotect'' [addr, n, ucast prot] p) (retval L)"

definition mini_munmap :: "'w unix \<Rightarrow> u64 \<Rightarrow> u64 \<Rightarrow> (u32, 'w) call" where
  "mini_munmap L addr n p = bnd (sys L ''munmap'' [addr, n] p) (retval L)"

definition mini_pipe :: "'w unix \<Rightarrow> u64 \<Rightarrow> (u32, 'w) call" where
  "mini_pipe L filedes p = bnd (sys L ''pipe'' [filedes] p) (retval L)"

definition mini_dup :: "'w unix \<Rightarrow> u32 \<Rightarrow> (u32, 'w) call" where
  "mini_dup L filedes p = bnd (sys L ''dup'' [ucast filedes] p) (retval L)"

definition mini_dup2 :: "'w unix \<Rightarrow> u32 \<Rightarrow> u32 \<Rightarrow> (u32, 'w) call" where
  "mini_dup2 L oldfd newfd p = bnd (sys L ''dup2'' [ucast oldfd, ucast newfd] p) (retval L)"

definition mini_pause :: "'w unix \<Rightarrow> (u32, 'w) call" where
  "mini_pause L p = bnd (sys L ''pause'' [] p) (retval L)"

definition mini_nanosleep :: "'w unix \<Rightarrow> u64 \<Rightarrow> u64 \<Rightarrow> (u32, 'w) call" where
  "mini_nanosleep L rqtp rmtp p = bnd (sys L ''nanosleep'' [rqtp, rmtp] p) (retval L)"

definition mini_fork :: "'w unix \<Rightarrow> (u32, 'w) call" where
  "mini_fork L p = bnd (sys L ''fork'' [] p) (retval L)"

definition mini_getcwd :: "'w unix \<Rightarrow> u64 \<Rightarrow> u64 \<Rightarrow> (u64, 'w) call" where
  "mini_getcwd L buf n p = bnd (sys L ''getcwd'' [buf, n] p) (retptr L)"

definition mini_chdir :: "'w unix \<Rightarrow> u64 \<Rightarrow> (u32, 'w) call" where
  "mini_chdir L pathname p = bnd (sys L ''chdir'' [pathname] p) (retval L)"

definition mini_rename :: "'w unix \<Rightarrow> u64 \<Rightarrow> u64 \<Rightarrow> (u32, 'w) call" where
  "mini_rename L oldname newname p = bnd (sys L ''rename'' [oldname, newname] p) (retval L)"

definition mini_mkdir :: "'w unix \<Rightarrow> u64 \<Rightarrow> u32 \<Rightarrow> (u32, 'w) call" where
  "mini_mkdir L pathname mode p = bnd (sys L ''mkdir'' [pathname, ucast mode] p) (retval L)"

definition mini_rmdir :: "'w unix \<Rightarrow> u64 \<Rightarrow> (u32, 'w) call" where
  "mini_rmdir L pathname p = bnd (sys L ''rmdir'' [pathname] p) (retval L)"

definition mini_creat :: "'w unix \<Rightarrow> u64 \<Rightarrow> u32 \<Rightarrow> (u32, 'w) call" where
  "mini_creat L pathname mode p = bnd (sys L ''creat'' [pathname, ucast mode] p) (retval L)"

definition mini_link :: "'w unix \<Rightarrow> u64 \<Rightarrow> u64 \<Rightarrow> (u32, 'w) call" where
  "mini_link L oldname newname p = bnd (sys L ''link'' [oldname, newname] p) (retval L)"

definition mini_unlink :: "'w unix \<Rightarrow> u64 \<Rightarrow> (u32, 'w) call" where
  "mini_unlink L pathname p = bnd (sys L ''unlink'' [pathname] p) (retval L)"

definition mini_readlink :: "'w unix \<Rightarrow> u64 \<Rightarrow> u64 \<Rightarrow> u64 \<Rightarrow> (u64, 'w) call" where
  "mini_readlink L path buf bufsz p = bnd (sys L ''readlink'' [path, buf, bufsz] p) (retval L)"

definition mini_chmod :: "'w unix \<Rightarrow> u64 \<Rightarrow> u32 \<Rightarrow> (u32, 'w) call" where
  "mini_chmod L filename mode p = bnd (sys L ''chmod'' [filename, ucast mode] p) (retval L)"

definition mini_chown :: "'w unix \<Rightarrow> u64 \<Rightarrow> u32 \<Rightarrow> u32 \<Rightarrow> (u32, 'w) call" where
  "mini_chown L filename user grp p = bnd (sys L ''chown'' [filename, ucast user, ucast grp] p) (retval L)"

definition mini_umask :: "'w unix \<Rightarrow> u32 \<Rightarrow> (u32, 'w) call" where
  "mini_umask L msk p = bnd (sys L ''umask'' [ucast msk] p) (retval L)"

definition mini_gettimeofday :: "'w unix \<Rightarrow> u64 \<Rightarrow> u64 \<Rightarrow> (u32, 'w) call" where
  "mini_gettimeofday L tv tz p = bnd (sys L ''gettimeofday'' [tv, tz] p) (retval L)"

definition mini_getuid :: "'w unix \<Rightarrow> (u32, 'w) call" where
  "mini_getuid L p = bnd (sys L ''getuid'' [] p) (retval L)"

definition mini_getgid :: "'w unix \<Rightarrow> (u32, 'w) call" where
  "mini_getgid L p = bnd (sys L ''getgid'' [] p) (retval L)"

definition mini_setuid :: "'w unix \<Rightarrow> u32 \<Rightarrow> (u32, 'w) call" where
  "mini_setuid L uid p = bnd (sys L ''setuid'' [ucast uid] p) (retval L)"

definition mini_setgid :: "'w unix \<Rightarrow> u32 \<Rightarrow> (u32, 'w) call" where
  "mini_setgid L gid p = bnd (sys L ''setgid'' [ucast gid] p) (retval L)"

definition mini_geteuid :: "'w unix \<Rightarrow> (u32, 'w) call" where
  "mini_geteuid L p = bnd (sys L ''geteuid'' [] p) (retval L)"

definition mini_getegid :: "'w unix \<Rightarrow> (u32, 'w) call" where
  "mini_getegid L p = bnd (sys L ''getegid'' [] p) (retval L)"

definition mini_alarm :: "'w unix \<Rightarrow> u32 \<Rightarrow> (u32, 'w) call" where
  "mini_alarm L seconds p = bnd (sys L ''alarm'' [ucast seconds] p) (retval L)"

definition mini_sigprocmask :: "'w unix \<Rightarrow> u32 \<Rightarrow> u64 \<Rightarrow> u64 \<Rightarrow> (u32, 'w) call" where
  "mini_sigprocmask L how nset oldset p =
     bnd (sys L ''rt_sigprocmask'' [ucast how, nset, oldset, 8] p) (retval L)"

definition mini_sigpending :: "'w unix \<Rightarrow> u64 \<Rightarrow> (u32, 'w) call" where
  "mini_sigpending L nset p = bnd (sys L ''rt_sigpending'' [nset, 8] p) (retval L)"

text \<open>\<open>exit\<close> does not return when \<open>sys_exit\<close> does not.\<close>

definition mini_exit :: "'w unix \<Rightarrow> u32 \<Rightarrow> 'w proc \<Rightarrow> mini_stop + 'w proc" where
  "mini_exit L error_code p = bnd (sys L ''exit'' [ucast error_code] p) (\<lambda>(ret, p). Inr p)"

subsection \<open>Memory and strings\<close>

text \<open>\<open>while(n--) *src++ = c\<close>: the count is tested against zero, so a negative one runs on.\<close>

function mini_memset_loop :: "u64 \<Rightarrow> u8 \<Rightarrow> u64 \<Rightarrow> 'w proc \<Rightarrow> mini_stop + 'w proc" where
  "mini_memset_loop src c n p =
     (if n = 0 then Inr p else bnd (st1 src c p) (mini_memset_loop (src + 1) c (n - 1)))"
  by pat_completeness auto
termination by (relation "measure (\<lambda>(src, c, n, p). unat n)") (simp_all add: unat_pred_less)

declare mini_memset_loop.simps [simp del]

definition mini_memset :: "u64 \<Rightarrow> u32 \<Rightarrow> u64 \<Rightarrow> (u64, 'w) call" where
  "mini_memset s c n p = bnd (mini_memset_loop s (ucast c) n p) (\<lambda>p. Inr (s, p))"

text \<open>\<open>while(size-- > 0) *ptr++ = 0\<close>: a negative size, which \<open>size_t\<close> admits here, writes nothing.\<close>

function mini_bzero :: "u64 \<Rightarrow> u64 \<Rightarrow> 'w proc \<Rightarrow> mini_stop + 'w proc" where
  "mini_bzero ptr n p =
     (if sint n \<le> 0 then Inr p else bnd (st1 ptr 0 p) (mini_bzero (ptr + 1) (n - 1)))"
  by pat_completeness auto
termination
proof (relation "measure (\<lambda>(ptr, n, p). unat n)", goal_cases)
  case (2 ptr n p x)
  then have "n \<noteq> 0" by auto
  then show ?case by (simp add: unat_pred_less)
qed simp

declare mini_bzero.simps [simp del]

text \<open>\<open>while(*s++) count++\<close>; the count is signed, and overflows only after \<open>2 ^ 63\<close> bytes.\<close>

function strlen_loop :: "u64 \<Rightarrow> u64 \<Rightarrow> 'w proc \<Rightarrow> mini_stop + u64" where
  "strlen_loop s count p =
     bnd (ld1 s p) (\<lambda>b.
       if b = 0 then Inr count else if count = 0x7fffffffffffffff then Inl Ub
       else strlen_loop (s + 1) (count + 1) p)"
  by pat_completeness auto
termination
proof (relation "measure (\<lambda>(s, count, p). unat (0x7fffffffffffffff - count :: u64))", goal_cases)
  case (2 s count p b)
  then have "0x7fffffffffffffff - count \<noteq> 0" by auto
  from unat_pred_less [OF this] show ?case by (simp add: algebra_simps)
qed simp

declare strlen_loop.simps [simp del]

definition mini_strlen :: "u64 \<Rightarrow> 'w proc \<Rightarrow> mini_stop + u64" where
  "mini_strlen s p = strlen_loop s 0 p"

subsection \<open>\<open>sleep\<close> in C\<close>

text \<open>
  The C function the source keeps under \<open>#if 0\<close> as the description of the assembly one: \<open>req\<close> and \<open>rem\<close>
  are the 32 bytes at \<open>frame\<close>, two fields of eight bytes each.
\<close>

definition EINTR :: u64 where "EINTR = 4"

definition sleep_c :: "'w unix \<Rightarrow> u64 \<Rightarrow> u32 \<Rightarrow> (u32, 'w) call" where
  "sleep_c L frame seconds p =
     (let req = frame; rem = frame + 16 in
      bnd (st8 req (ucast seconds) p) (\<lambda>p.
      bnd (st8 (req + 8) 0 p) (\<lambda>p.
      bnd (sys L ''nanosleep'' [req, rem] p) (\<lambda>(ret, p).
        if 0 \<le> sint ret then Inr (ucast ret, p)
        else if ret = - EINTR then bnd (ld8 rem p) (\<lambda>v. Inr (ucast v, p))
        else Inr (0, p)))))"

end
