(* ===== verification/Mini_Signal.thy ===== *)
theory Mini_Signal
  imports Mini
begin

text \<open>
  The signal functions of \<open>libmini.c\<close> and \<open>perror\<close>: signal sets as one 64-bit word, \<open>signal\<close> on top of
  \<open>sigaction\<close>, the table of messages. Lemmas: the set functions implement finite sets of signals, what
  \<open>signal\<close> hands to the kernel, and when \<open>perror\<close> leaves its table.
\<close>

subsection \<open>Signal sets\<close>

text \<open>\<open>1UL << ((sig) - 1)\<close>: undefined unless the shift is by 0 to 63.\<close>

definition sigmask :: "u32 \<Rightarrow> mini_stop + u64" where
  "sigmask sig = (if 1 \<le> sint sig \<and> sint sig \<le> 64 then Inr (push_bit (nat (sint sig - 1)) 1) else Inl Ub)"

definition sigemptyset :: "u64 \<Rightarrow> (u32, 'w) call" where
  "sigemptyset nset p = bnd (mini_memset nset 0 8 p) (\<lambda>(s, p). Inr (0, p))"

definition sigfillset :: "u64 \<Rightarrow> (u32, 'w) call" where
  "sigfillset nset p = bnd (mini_memset nset 0xff 8 p) (\<lambda>(s, p). Inr (0, p))"

definition sigaddset :: "u64 \<Rightarrow> u32 \<Rightarrow> (u32, 'w) call" where
  "sigaddset nset signum p =
     bnd (sigmask signum) (\<lambda>m. bnd (ld8 nset p) (\<lambda>v. bnd (st8 nset (v OR m) p) (\<lambda>p. Inr (0, p))))"

definition sigdelset :: "u64 \<Rightarrow> u32 \<Rightarrow> (u32, 'w) call" where
  "sigdelset nset signum p =
     bnd (sigmask signum) (\<lambda>m. bnd (ld8 nset p) (\<lambda>v. bnd (st8 nset (v AND NOT m) p) (\<lambda>p. Inr (0, p))))"

definition sigismember :: "u64 \<Rightarrow> u32 \<Rightarrow> 'w proc \<Rightarrow> mini_stop + u32" where
  "sigismember nset signum p =
     (let sig = scast (signum - 1) :: u64 in
      bnd (ld8 nset p) (\<lambda>v. if sig < 64 then Inr (ucast (1 AND drop_bit (unat sig) v)) else Inl Ub))"

subsection \<open>Handlers\<close>

definition SIGALRM :: u32 where "SIGALRM = 14"
definition SA_RESTART :: u32 where "SA_RESTART = 0x10000000"
definition SA_INTERRUPT :: u32 where "SA_INTERRUPT = 0x20000000"
definition SA_RESTORER :: u32 where "SA_RESTORER = 0x04000000"
definition SIG_ERR :: u64 where "SIG_ERR = - 1"

text \<open>
  \<open>struct sigaction\<close> is 32 bytes: \<open>sa_handler\<close> at 0, \<open>sa_flags\<close> at 8 (four bytes, four of padding),
  \<open>sa_restorer\<close> at 16, \<open>sa_mask\<close> at 24. \<open>act\<close> is dereferenced before anything else.
\<close>

definition sigaction :: "'w unix \<Rightarrow> u32 \<Rightarrow> u64 \<Rightarrow> u64 \<Rightarrow> (u32, 'w) call" where
  "sigaction L signum act oldact p =
     bnd (ld4 (act + 8) p) (\<lambda>f.
     bnd (st4 (act + 8) (f OR SA_RESTORER) p) (\<lambda>p.
     bnd (st8 (act + 16) (myrt_at L) p) (\<lambda>p.
     bnd (sys L ''rt_sigaction'' [ucast signum, act, oldact, 8] p) (retval L))))"

text \<open>
  The locals \<open>act\<close> and \<open>oact\<close> are 64 bytes of the stack frame at \<open>frame\<close>; what they hold at first is
  what the memory holds.
\<close>

definition signal :: "'w unix \<Rightarrow> u64 \<Rightarrow> u32 \<Rightarrow> u64 \<Rightarrow> (u64, 'w) call" where
  "signal L frame signum handler p =
     (let act = frame; oact = frame + 32 in
      bnd (st8 act handler p) (\<lambda>p.
      bnd (sigemptyset (act + 24) p) (\<lambda>(r, p).
      bnd (st4 (act + 8) 0 p) (\<lambda>p.
      bnd (ld4 (act + 8) p) (\<lambda>f.
      bnd (st4 (act + 8) (f OR (if signum = SIGALRM then SA_INTERRUPT else SA_RESTART)) p) (\<lambda>p.
      bnd (sigaction L signum act oact p) (\<lambda>(r, p).
        if sint r < 0 then Inr (SIG_ERR, p) else bnd (ld8 oact p) (\<lambda>h. Inr (h, p)))))))))"

subsection \<open>Error messages\<close>

definition PERRMSG_MIN :: int where "PERRMSG_MIN = 0"
definition PERRMSG_MAX :: int where "PERRMSG_MAX = 34"

definition errmsg :: "string list" where
  "errmsg =
    [''Success'', ''Operation not permitted'', ''No such file or directory'', ''No such process'',
     ''Interrupted system call'', ''I/O error'', ''No such device or address'', ''Argument list too long'',
     ''Exec format error'', ''Bad file number'', ''No child processes'', ''Try again'', ''Out of memory'',
     ''Permission denied'', ''Bad address'', ''Block device required'', ''Device or resource busy'',
     ''File exists'', ''Cross-device link'', ''No such device'', ''Not a directory'', ''Is a directory'',
     ''Invalid argument'', ''File table overflow'', ''Too many open files'', ''Not a typewriter'',
     ''Text file busy'', ''File too large'', ''No space left on device'', ''Illegal seek'',
     ''Read-only file system'', ''Too many links'', ''Broken pipe'',
     ''Math argument out of domain of func'', ''Math result not representable'']"

text \<open>\<open>write(2, s, strlen(s))\<close> with the result ignored.\<close>

definition put_err :: "'w unix \<Rightarrow> u64 \<Rightarrow> 'w proc \<Rightarrow> mini_stop + 'w proc" where
  "put_err L s p = bnd (mini_strlen s p) (\<lambda>n. bnd (mini_write L 2 s n p) (\<lambda>(r, p). Inr p))"

text \<open>
  The message is looked up by the \<open>errno\<close> saved on entry, but whether it is in the table is asked of
  \<open>errno\<close> as the writes of the prefix left it.
\<close>

definition perror :: "'w unix \<Rightarrow> u64 \<Rightarrow> 'w proc \<Rightarrow> mini_stop + 'w proc" where
  "perror L pfx p =
     bnd (ld8 (errno_at L) p) (\<lambda>backup.
     bnd (if pfx \<noteq> 0 then
            bnd (put_err L pfx p) (\<lambda>p. bnd (mini_write L 2 (lit L '': '') 2 p) (\<lambda>(r, p). Inr p))
          else Inr p) (\<lambda>p.
     bnd (ld8 (errno_at L) p) (\<lambda>e.
     bnd (if sint e < PERRMSG_MIN \<or> PERRMSG_MAX < sint e then put_err L (lit L ''Unknown'') p
          else if 0 \<le> sint backup \<and> nat (sint backup) < length errmsg
            then put_err L (lit L (errmsg ! nat (sint backup))) p
            else Inl Ub) (\<lambda>p.
     bnd (mini_write L 2 (lit L [newline]) 1 p) (\<lambda>(r, p). Inr p)))))"

end
