(* ===== verification/Mini_Sets.thy ===== *)
theory Mini_Sets
  imports Mini_Signal
begin

text \<open>
  The signal functions of \<open>libmini.c\<close> against what they stand for: a stored word as a set of the signals
  1 to 64, the set functions as operations on such sets, and the request \<open>signal\<close> makes of the kernel.
\<close>

subsection \<open>\<open>memset\<close>\<close>

text \<open>The \<open>n\<close> bytes from \<open>a\<close>, as offsets below \<open>n\<close>.\<close>

lemma offset_step: "n \<noteq> 0 \<Longrightarrow> d - 1 < n - 1 \<or> d = 0 \<longleftrightarrow> d < (n :: u64)"
proof (cases "d = 0")
  case False
  then have "0 < unat d" by (simp add: unat_gt_0)
  then show "n \<noteq> 0 \<Longrightarrow> ?thesis" using False by (auto simp: word_less_nat_alt unat_minus_one)
qed (simp add: word_gt_0)

lemma memset_loop_fills:
  assumes "\<And>x. x - a < n \<Longrightarrow> p_mem p x \<noteq> None"
  shows "mini_memset_loop a c n p = Inr (p\<lparr>p_mem := (\<lambda>x. if x - a < n then Some c else p_mem p x)\<rparr>)"
  using assms
proof (induction a c n p rule: mini_memset_loop.induct)
  case (1 a c n p)
  show ?case
  proof (cases "n = 0")
    case True
    then show ?thesis by (simp add: mini_memset_loop.simps)
  next
    case False
    let ?p = "p\<lparr>p_mem := (p_mem p)(a \<mapsto> c)\<rparr>"
    have pos: "0 < n" using False by (simp add: word_gt_0)
    have step: "x - (a + 1) < n - 1 \<or> x = a \<longleftrightarrow> x - a < n" for x
      using offset_step [OF False, of "x - a"] by (simp add: diff_diff_eq)
    have "p_mem p a \<noteq> None" using 1(2) [of a] False by (simp add: word_gt_0)
    then have st: "st1 a c p = Inr ?p" by (simp add: st1_def)
    have "p_mem ?p x \<noteq> None" if "x - (a + 1) < n - 1" for x
      using 1(2) [of x] step [of x] that by simp
    note rest = 1(1) [OF False st, OF this]
    have "mini_memset_loop a c n p = mini_memset_loop (a + 1) c (n - 1) ?p"
      using False by (simp add: mini_memset_loop.simps [of a c n p] st)
    also note rest
    also have "?p\<lparr>p_mem := (\<lambda>x. if x - (a + 1) < n - 1 then Some c else p_mem ?p x)\<rparr> =
        p\<lparr>p_mem := (\<lambda>x. if x - (a + 1) < n - 1 then Some c else ((p_mem p)(a \<mapsto> c)) x)\<rparr>"
      by (simp cong: if_cong)
    also have "(\<lambda>x. if x - (a + 1) < n - 1 then Some c else ((p_mem p)(a \<mapsto> c)) x) =
        (\<lambda>x. if x - a < n then Some c else p_mem p x)"
      using step pos by (auto simp: fun_eq_iff)
    finally show ?thesis .
  qed
qed

lemma memset_word:
  assumes "readable (p_mem p) a" "\<And>i. i < 8 \<Longrightarrow> byte_of v i = ucast c"
  shows "mini_memset a c 8 p = Inr (a, p\<lparr>p_mem := poke_mem (p_mem p) a v\<rparr>)"
proof -
  have lt: "x - a < 8 \<longleftrightarrow> unat (x - a) < 8" for x by (simp add: word_less_nat_alt)
  have "p_mem p x \<noteq> None" if "x - a < 8" for x
    using that assms(1) in_word_iff [of x a] by (auto simp: lt readable_iff)
  then have "mini_memset_loop a (ucast c) 8 p =
      Inr (p\<lparr>p_mem := (\<lambda>x. if x - a < 8 then Some (ucast c) else p_mem p x)\<rparr>)"
    by (rule memset_loop_fills)
  moreover have "(\<lambda>x. if x - a < 8 then Some (ucast c) else p_mem p x) = poke_mem (p_mem p) a v"
    using assms(2) by (auto simp: fun_eq_iff lt poke_mem_def)
  ultimately show ?thesis by (simp add: mini_memset_def)
qed

subsection \<open>Signal sets\<close>

definition sigs :: "u64 \<Rightarrow> nat set" where
  "sigs v = {i. 1 \<le> i \<and> i \<le> 64 \<and> bit v (i - 1)}"

definition sigset_at :: "'w proc \<Rightarrow> u64 \<Rightarrow> nat set option" where
  "sigset_at p a = map_option sigs (peek_mem (p_mem p) a)"

lemma sigs_0: "sigs 0 = {}"
  by (simp add: sigs_def)

lemma sigs_full: "sigs (- 1) = {1..64}"
  by (auto simp: sigs_def bit_minus_1_iff)

lemma bit_sigmask:
  "1 \<le> k \<Longrightarrow> k \<le> 64 \<Longrightarrow> n < 64 \<Longrightarrow> bit (push_bit (k - 1) 1 :: u64) n \<longleftrightarrow> n = k - 1"
  by (auto simp: bit_exp_iff possible_bit_word)

lemma sigs_add: "1 \<le> k \<Longrightarrow> k \<le> 64 \<Longrightarrow> sigs (v OR push_bit (k - 1) 1) = insert k (sigs v)"
  by (auto simp: sigs_def bit_or_iff bit_exp_iff possible_bit_word)

lemma sigs_del: "1 \<le> k \<Longrightarrow> k \<le> 64 \<Longrightarrow> sigs (v AND NOT (push_bit (k - 1) 1)) = sigs v - {k}"
  by (auto simp: sigs_def bit_and_iff bit_not_iff bit_exp_iff possible_bit_word)

lemma signal_number:
  assumes "k \<le> 64"
  shows "sint (of_nat k :: u32) = int k" "1 \<le> k \<Longrightarrow> unat (scast (of_nat k - 1 :: u32) :: u64) = k - 1"
proof -
  have n: "unat (of_nat n :: u32) = n" "unat (of_nat n :: u64) = n" if "n \<le> 64" for n
    using that by (simp_all add: unat_of_nat)
  show "sint (of_nat k :: u32) = int k"
    using assms by (subst sint_lt31) (simp_all only: n, simp)
  have k: "k - 1 \<le> 64" using assms by simp
  have m: "unat (of_nat (k - 1) :: u32) = k - 1" by (rule n(1) [OF k])
  have "unat (of_nat (k - 1) :: u32) < 2 ^ 31" unfolding m using k by simp
  from scast_lt31 [OF this] have "scast (of_nat (k - 1) :: u32) = (of_nat (k - 1) :: u64)" unfolding m .
  moreover assume "1 \<le> k"
  then have "of_nat k - 1 = (of_nat (k - 1) :: u32)" by (simp add: of_nat_diff)
  ultimately show "unat (scast (of_nat k - 1 :: u32) :: u64) = k - 1"
    by (simp only: n(2) [OF k])
qed

lemma sigmask_number: "1 \<le> k \<Longrightarrow> k \<le> 64 \<Longrightarrow> sigmask (of_nat k) = Inr (push_bit (k - 1) 1)"
  by (simp add: sigmask_def signal_number nat_diff_distrib)

text \<open>A client's calls on one set, and the same calls on a finite set of signals.\<close>

datatype set_call = Empty | Fill | Add nat | Del nat

fun call_ok :: "set_call \<Rightarrow> bool" where
  "call_ok (Add k) \<longleftrightarrow> 1 \<le> k \<and> k \<le> 64"
| "call_ok (Del k) \<longleftrightarrow> 1 \<le> k \<and> k \<le> 64"
| "call_ok c \<longleftrightarrow> True"

fun run_call :: "u64 \<Rightarrow> set_call \<Rightarrow> (u32, 'w) call" where
  "run_call a Empty p = sigemptyset a p"
| "run_call a Fill p = sigfillset a p"
| "run_call a (Add k) p = sigaddset a (of_nat k) p"
| "run_call a (Del k) p = sigdelset a (of_nat k) p"

fun abs_call :: "set_call \<Rightarrow> nat set \<Rightarrow> nat set" where
  "abs_call Empty S = {}"
| "abs_call Fill S = {1..64}"
| "abs_call (Add k) S = insert k S"
| "abs_call (Del k) S = S - {k}"

fun set_calls :: "u64 \<Rightarrow> set_call list \<Rightarrow> 'w proc \<Rightarrow> mini_stop + 'w proc" where
  "set_calls a [] p = Inr p"
| "set_calls a (c # cs) p = bnd (run_call a c p) (\<lambda>(r, p). if r = 0 then set_calls a cs p else Inl Ub)"

lemma byte_of_0: "byte_of 0 i = 0"
  by (simp add: byte_of_def)

lemma byte_of_full: "i < 8 \<Longrightarrow> byte_of (- 1) i = 0xff"
proof -
  assume i: "i < 8"
  have "(0xff :: u8) = - 1" by simp
  moreover have "byte_of (- 1) i = - 1"
    by (rule bit_word_eqI) (use i in \<open>simp add: bit_byte_of bit_minus_1_iff\<close>)
  ultimately show ?thesis by (simp only:)
qed

lemma run_call_pokes:
  assumes "peek_mem (p_mem p) a = Some v" "call_ok c"
  shows "\<exists>v'. run_call a c p = Inr (0, p\<lparr>p_mem := poke_mem (p_mem p) a v'\<rparr>) \<and> sigs v' = abs_call c (sigs v)"
proof (cases c)
  case Empty
  have "sigemptyset a p = Inr (0, p\<lparr>p_mem := poke_mem (p_mem p) a 0\<rparr>)"
    using memset_word [OF peek_readable [OF assms(1)], where v = 0 and c = 0] by (simp add: sigemptyset_def byte_of_0)
  with Empty show ?thesis by (auto simp: sigs_0)
next
  case Fill
  have "sigfillset a p = Inr (0, p\<lparr>p_mem := poke_mem (p_mem p) a (- 1)\<rparr>)"
    using memset_word [OF peek_readable [OF assms(1)], where v = "- 1" and c = "0xff"] by (simp add: sigfillset_def byte_of_full)
  with Fill show ?thesis using sigs_full by auto
next
  case (Add k)
  then have k: "1 \<le> k" "k \<le> 64" using assms(2) by simp_all
  then have "run_call a c p = Inr (0, p\<lparr>p_mem := poke_mem (p_mem p) a (v OR push_bit (k - 1) 1)\<rparr>)"
    using assms(1) Add by (simp add: sigaddset_def sigmask_number ld8_def st8_def peek_readable)
  with Add show ?thesis using sigs_add [OF k] by auto
next
  case (Del k)
  then have k: "1 \<le> k" "k \<le> 64" using assms(2) by simp_all
  then have "run_call a c p = Inr (0, p\<lparr>p_mem := poke_mem (p_mem p) a (v AND NOT (push_bit (k - 1) 1))\<rparr>)"
    using assms(1) Del by (simp add: sigdelset_def sigmask_number ld8_def st8_def peek_readable)
  with Del show ?thesis using sigs_del [OF k] by auto
qed

lemma set_calls_refine:
  assumes "sigset_at p a = Some S" "list_all call_ok cs"
  shows "\<exists>q. set_calls a cs p = Inr q \<and> sigset_at q a = Some (fold abs_call cs S) \<and> p_os q = p_os p \<and>
    (\<forall>x. 8 \<le> unat (x - a) \<longrightarrow> p_mem q x = p_mem p x)"
  using assms
proof (induction cs arbitrary: p S)
  case (Cons c cs)
  from Cons.prems obtain v where v: "peek_mem (p_mem p) a = Some v" "S = sigs v"
    by (auto simp: sigset_at_def)
  from run_call_pokes [OF v(1), of c] Cons.prems obtain v'
    where c: "run_call a c p = Inr (0, p\<lparr>p_mem := poke_mem (p_mem p) a v'\<rparr>)" "sigs v' = abs_call c (sigs v)"
    by auto
  let ?p = "p\<lparr>p_mem := poke_mem (p_mem p) a v'\<rparr>"
  have "sigset_at ?p a = Some (abs_call c S)" by (simp add: sigset_at_def c(2) v(2))
  from Cons.IH [OF this] Cons.prems obtain q where q: "set_calls a cs ?p = Inr q"
    "sigset_at q a = Some (fold abs_call cs (abs_call c S))" "p_os q = p_os p"
    "\<forall>x. 8 \<le> unat (x - a) \<longrightarrow> p_mem q x = poke_mem (p_mem p) a v' x"
    by auto
  then show ?case by (simp add: c(1) poke_mem_other)
qed simp

lemma sigismember_number:
  assumes "sigset_at p a = Some S" "1 \<le> k" "k \<le> 64"
  shows "sigismember a (of_nat k) p = Inr (if k \<in> S then 1 else 0)"
proof -
  from assms(1) obtain v where v: "peek_mem (p_mem p) a = Some v" "S = sigs v" by (auto simp: sigset_at_def)
  have n: "unat (scast (of_nat k - 1 :: u32) :: u64) = k - 1" by (rule signal_number(2) [OF assms(3,2)])
  then have "scast (of_nat k - 1 :: u32) < (64 :: u64)" using assms(3) by (simp add: word_less_nat_alt)
  moreover have "(1 :: u64) AND drop_bit (k - 1) v = (if bit v (k - 1) then 1 else 0)"
    by (simp add: one_and_eq bit_iff_odd_drop_bit mod_2_eq_odd)
  ultimately show ?thesis
    using assms(2,3) by (simp add: sigismember_def Let_def ld8_def v n sigs_def)
qed

subsection \<open>The \<open>errno\<close> contract\<close>

lemma retval_nonneg:
  assumes "readable (p_mem p) (errno_at L)" "0 \<le> sint ret"
  shows "retval L (ret, p) = Inr (ucast ret, p\<lparr>p_mem := poke_mem (p_mem p) (errno_at L) 0\<rparr>)"
  using assms by (simp add: retval_def st8_def)

lemma retval_neg:
  assumes "readable (p_mem p) (errno_at L)" "sint ret < 0"
  shows "retval L (ret, p) = Inr (- 1, p\<lparr>p_mem := poke_mem (p_mem p) (errno_at L) (- ret)\<rparr>)"
  using assms by (simp add: retval_def st8_def readable_poke_keep poke_mem_twice)

text \<open>A 64-bit result other than \<open>-1\<close> leaves \<open>errno\<close> at 0.\<close>

lemma retval_cleared:
  assumes "retval L x = Inr (r :: u64, p)" "r \<noteq> - 1"
  shows "ld8 (errno_at L) p = Inr 0"
  using assms by (cases x) (auto simp: retval_def st8_def ld8_def bnd_Inr_iff split: if_splits)

lemma write_cleared: "mini_write L fd b n p = Inr (r, q) \<Longrightarrow> r \<noteq> - 1 \<Longrightarrow> ld8 (errno_at L) q = Inr 0"
  by (auto simp: mini_write_def bnd_Inr_iff intro: retval_cleared)

text \<open>\<open>getcwd\<close> hands on what the kernel returns, the length of the name, as a pointer.\<close>

lemma getcwd_returns_length:
  assumes "sysc L 79 [buf, n] p = Some (k, q)" "0 \<le> sint k" "readable (p_mem q) (errno_at L)"
  shows "mini_getcwd L buf n p = Inr (k, q\<lparr>p_mem := poke_mem (p_mem q) (errno_at L) 0\<rparr>)"
proof -
  have "sysno ''getcwd'' = 79" by code_simp
  with assms show ?thesis by (simp add: mini_getcwd_def sys_def retptr_def st8_def)
qed

subsection \<open>\<open>perror\<close>\<close>

text \<open>
  With a prefix, once its two writes have gone through: \<open>errno\<close> is 0 and so in the table whatever it was
  on entry, and the message is the entry of the saved one, which is past the table for 35 and above.
\<close>

lemma perror_prefixed:
  assumes "ld8 (errno_at L) p = Inr e" "pfx \<noteq> 0" "put_err L pfx p = Inr p1"
    "mini_write L 2 (lit L '': '') 2 p1 = Inr (2, p2)"
  shows "perror L pfx p =
    (if 0 \<le> sint e \<and> sint e \<le> 34
     then bnd (put_err L (lit L (errmsg ! nat (sint e))) p2) (\<lambda>p. bnd (mini_write L 2 (lit L [newline]) 1 p) (\<lambda>(r, p). Inr p))
     else Inl Ub)"
proof -
  have "ld8 (errno_at L) p2 = Inr 0" using write_cleared [OF assms(4)] by simp
  moreover have "length errmsg = 35" by code_simp
  moreover have "nat (sint e) < 35 \<longleftrightarrow> sint e \<le> 34" if "0 \<le> sint e" using that by arith
  ultimately show ?thesis
    using assms by (auto simp: perror_def PERRMSG_MIN_def PERRMSG_MAX_def)
qed

subsection \<open>\<open>sigaction\<close>\<close>

text \<open>A null \<open>act\<close>, with which the standard asks for the current action only, is dereferenced.\<close>

lemma sigaction_null: "p_mem p 8 = None \<Longrightarrow> sigaction L signum 0 oldact p = Inl Segv"
proof -
  assume "p_mem p 8 = None"
  then have "\<not> list_all (\<lambda>i. p_mem p (8 + of_nat i) \<noteq> None) [0..<4]"
    by (auto simp: list_all_iff intro!: bexI [of _ 0])
  then have "peek4 (p_mem p) 8 = None" by (simp only: peek4_def if_False)
  then show ?thesis by (simp add: sigaction_def ld4_def)
qed

text \<open>
  \<open>signal\<close> asks for the handler with an empty mask, with calls to be restarted except for the alarm, and
  returns what the kernel wrote to the second structure.
\<close>

definition signal_flags :: "u32 \<Rightarrow> u32" where
  "signal_flags signum = (if signum = SIGALRM then SA_INTERRUPT else SA_RESTART) OR SA_RESTORER"

lemma signal_request:
  assumes "list_all (\<lambda>d. readable (p_mem p) (frame + d)) [0, 8, 16, 24, 32]"
  shows "\<exists>q. p_os q = p_os p \<and> (\<forall>x. p_mem p x \<noteq> None \<longrightarrow> p_mem q x \<noteq> None) \<and> peek_mem (p_mem q) frame = Some handler \<and>
    peek4 (p_mem q) (frame + 8) = Some (signal_flags signum) \<and>
    peek_mem (p_mem q) (frame + 16) = Some (myrt_at L) \<and> sigset_at q (frame + 24) = Some {} \<and>
    peek_mem (p_mem q) (frame + 32) = peek_mem (p_mem p) (frame + 32) \<and>
    signal L frame signum handler p =
      bnd (bnd (sys L ''rt_sigaction'' [ucast signum, frame, frame + 32, 8] q) (retval L))
        (\<lambda>(r, p). if sint (r :: u32) < 0 then Inr (SIG_ERR, p) else bnd (ld8 (frame + 32) p) (\<lambda>h. Inr (h, p)))"
proof -
  let ?m1 = "poke_mem (p_mem p) frame handler"
  let ?m2 = "poke_mem ?m1 (frame + 24) 0"
  let ?f = "if signum = SIGALRM then SA_INTERRUPT else SA_RESTART"
  let ?m3 = "poke4 (poke4 (poke4 ?m2 (frame + 8) 0) (frame + 8) ?f) (frame + 8) (?f OR SA_RESTORER)"
  let ?q = "p\<lparr>p_mem := poke_mem ?m3 (frame + 16) (myrt_at L)\<rparr>"
  have rd: "readable (p_mem p) frame" "readable (p_mem p) (frame + 8)" "readable (p_mem p) (frame + 16)"
    "readable (p_mem p) (frame + 24)"
    using assms by simp_all
  have st: "st8 frame handler p = Inr (p\<lparr>p_mem := ?m1\<rparr>)" using rd by (simp add: st8_def)
  have em: "sigemptyset (frame + 24) (p\<lparr>p_mem := ?m1\<rparr>) = Inr (0, p\<lparr>p_mem := ?m2\<rparr>)"
    using memset_word [of "p\<lparr>p_mem := ?m1\<rparr>" "frame + 24" 0 0] rd
    by (simp add: sigemptyset_def byte_of_0 readable_poke_keep)
  have some: "\<exists>v. peek4 ?m2 (frame + 8) = Some v"
    by (rule readable_peek4) (simp add: rd readable_poke_keep)
  have "signal L frame signum handler p =
      bnd (bnd (sys L ''rt_sigaction'' [ucast signum, frame, frame + 32, 8] ?q) (retval L))
        (\<lambda>(r, p). if sint (r :: u32) < 0 then Inr (SIG_ERR, p) else bnd (ld8 (frame + 32) p) (\<lambda>h. Inr (h, p)))"
    using some rd
    by (auto simp: signal_def sigaction_def Let_def st em st4_def ld4_def st8_def readable_poke_keep readable_poke4_keep)
  moreover have "\<forall>x. p_mem p x \<noteq> None \<longrightarrow> p_mem ?q x \<noteq> None" by (simp add: poke_mem_def poke4_def)
  moreover have "sigset_at ?q (frame + 24) = Some {}"
    by (simp add: sigset_at_def apart8_same_base word_le_nat_alt sigs_0)
  ultimately show ?thesis
    by (intro exI [of _ ?q]) (simp add: apart8_same_base word_le_nat_alt signal_flags_def)
qed

end
