(* ===== verification/Mini_Consts.thy ===== *)
theory Mini_Consts
  imports Mini_Sets
begin

text \<open>
  The numbers of \<open>libmini.h\<close>: the error numbers with the comments that explain them, the signals, the
  \<open>open\<close> flags and the requests of \<open>sigprocmask\<close>. Lemmas: the table of messages in \<open>libmini.c\<close> is the
  list of those comments, every named signal is a legal argument of the set functions, and the
  flags after the access modes are fourteen consecutive bits.
\<close>

subsection \<open>The lists\<close>

definition errno_table :: "(string \<times> int \<times> string) list" where
  "errno_table =
    [(''EPERM'', 1, ''Operation not permitted''), (''ENOENT'', 2, ''No such file or directory''),
     (''ESRCH'', 3, ''No such process''), (''EINTR'', 4, ''Interrupted system call''), (''EIO'', 5, ''I/O error''),
     (''ENXIO'', 6, ''No such device or address''), (''E2BIG'', 7, ''Argument list too long''),
     (''ENOEXEC'', 8, ''Exec format error''), (''EBADF'', 9, ''Bad file number''), (''ECHILD'', 10, ''No child processes''),
     (''EAGAIN'', 11, ''Try again''), (''ENOMEM'', 12, ''Out of memory''), (''EACCES'', 13, ''Permission denied''),
     (''EFAULT'', 14, ''Bad address''), (''ENOTBLK'', 15, ''Block device required''),
     (''EBUSY'', 16, ''Device or resource busy''), (''EEXIST'', 17, ''File exists''), (''EXDEV'', 18, ''Cross-device link''),
     (''ENODEV'', 19, ''No such device''), (''ENOTDIR'', 20, ''Not a directory''), (''EISDIR'', 21, ''Is a directory''),
     (''EINVAL'', 22, ''Invalid argument''), (''ENFILE'', 23, ''File table overflow''), (''EMFILE'', 24, ''Too many open files''),
     (''ENOTTY'', 25, ''Not a typewriter''), (''ETXTBSY'', 26, ''Text file busy''), (''EFBIG'', 27, ''File too large''),
     (''ENOSPC'', 28, ''No space left on device''), (''ESPIPE'', 29, ''Illegal seek''), (''EROFS'', 30, ''Read-only file system''),
     (''EMLINK'', 31, ''Too many links''), (''EPIPE'', 32, ''Broken pipe''), (''EDOM'', 33, ''Math argument out of domain of func''),
     (''ERANGE'', 34, ''Math result not representable'')]"

definition signal_table :: "(string \<times> nat) list" where
  "signal_table =
    [(''SIGHUP'', 1), (''SIGINT'', 2), (''SIGQUIT'', 3), (''SIGILL'', 4), (''SIGTRAP'', 5), (''SIGABRT'', 6), (''SIGIOT'', 6),
     (''SIGBUS'', 7), (''SIGFPE'', 8), (''SIGKILL'', 9), (''SIGUSR1'', 10), (''SIGSEGV'', 11), (''SIGUSR2'', 12), (''SIGPIPE'', 13),
     (''SIGALRM'', 14), (''SIGTERM'', 15), (''SIGSTKFLT'', 16), (''SIGCHLD'', 17), (''SIGCONT'', 18), (''SIGSTOP'', 19),
     (''SIGTSTP'', 20), (''SIGTTIN'', 21), (''SIGTTOU'', 22), (''SIGURG'', 23), (''SIGXCPU'', 24), (''SIGXFSZ'', 25),
     (''SIGVTALRM'', 26), (''SIGPROF'', 27), (''SIGWINCH'', 28), (''SIGIO'', 29), (''SIGPOLL'', 29), (''SIGPWR'', 30),
     (''SIGSYS'', 31)]"

definition open_flags :: "(string \<times> u32) list" where
  "open_flags =
    [(''O_ACCMODE'', 0x3), (''O_RDONLY'', 0x0), (''O_WRONLY'', 0x1), (''O_RDWR'', 0x2), (''O_CREAT'', 0x40), (''O_EXCL'', 0x80),
     (''O_NOCTTY'', 0x100), (''O_TRUNC'', 0x200), (''O_APPEND'', 0x400), (''O_NONBLOCK'', 0x800), (''O_DSYNC'', 0x1000),
     (''FASYNC'', 0x2000), (''O_DIRECT'', 0x4000), (''O_LARGEFILE'', 0x8000), (''O_DIRECTORY'', 0x10000),
     (''O_NOFOLLOW'', 0x20000), (''O_NOATIME'', 0x40000), (''O_CLOEXEC'', 0x80000)]"

definition SIGINT :: u32 where "SIGINT = 2"
definition SIG_BLOCK :: u32 where "SIG_BLOCK = 0"
definition SIG_UNBLOCK :: u32 where "SIG_UNBLOCK = 1"
definition SIG_SETMASK :: u32 where "SIG_SETMASK = 2"
definition SIG_DFL :: u64 where "SIG_DFL = 0"
definition SIG_IGN :: u64 where "SIG_IGN = 1"

subsection \<open>What they agree on\<close>

lemma errno_numbers: "map (\<lambda>(name, k, msg). k) errno_table = [1..34]"
  by (simp add: errno_table_def upto_rec1)

lemma errmsg_comments: "errmsg = ''Success'' # map (\<lambda>(name, k, msg). msg) errno_table"
  by (simp add: errmsg_def errno_table_def)

lemma signals_in_set: "(name, k) \<in> set signal_table \<Longrightarrow> 1 \<le> k \<and> k \<le> 31"
proof -
  have "list_all (\<lambda>(name, k). 1 \<le> k \<and> k \<le> 31) signal_table" by (simp add: signal_table_def)
  then show "(name, k) \<in> set signal_table \<Longrightarrow> ?thesis" by (auto simp: list_all_iff)
qed

lemma signal_masks: "(name, k) \<in> set signal_table \<Longrightarrow> sigmask (of_nat k) = Inr (push_bit (k - 1) 1)"
  using signals_in_set [of name k] by (intro sigmask_number) auto

lemma flags_are_bits: "map snd (drop 4 open_flags) = map (\<lambda>i. push_bit i 1) [6..<20]"
  by (simp add: open_flags_def upt_rec)

end
