(* ===== verification/Mini_Text.thy ===== *)
theory Mini_Text
  imports Mini_Consts
begin

text \<open>
  Text in the memory of a process and what \<open>write\<close> makes of it: a kernel that takes what is written to a
  descriptor, \<open>strlen\<close> of a terminated string, and the lines \<open>perror\<close> prints.
\<close>

subsection \<open>Bytes in memory\<close>

definition holds_bytes :: "memory \<Rightarrow> u64 \<Rightarrow> u8 list \<Rightarrow> bool" where
  "holds_bytes m a bs \<longleftrightarrow> list_all (\<lambda>i. m (a + of_nat i) = Some (bs ! i)) [0..<length bs]"

text \<open>A C string, which has no zero byte of its own and is not longer than an \<open>int\<close> can say.\<close>

definition c_str_at :: "memory \<Rightarrow> u64 \<Rightarrow> string \<Rightarrow> bool" where
  "c_str_at m a s \<longleftrightarrow> holds_bytes m a (map byte_of_char s @ [0]) \<and> CHR 0x00 \<notin> set s \<and> length s < 2 ^ 31 - 1"

text \<open>The \<open>n\<close> bytes at \<open>a\<close> are apart from the word at \<open>e\<close>.\<close>

definition off_word :: "u64 \<Rightarrow> u64 \<Rightarrow> nat \<Rightarrow> bool" where
  "off_word e a n \<longleftrightarrow> list_all (\<lambda>i. 8 \<le> unat (a + of_nat i - e)) [0..<n]"

lemma holds_bytes_iff: "holds_bytes m a bs \<longleftrightarrow> (\<forall>i<length bs. m (a + of_nat i) = Some (bs ! i))"
  by (auto simp: holds_bytes_def list_all_iff)

lemma off_word_range:
  assumes "unat a + n \<le> unat e \<or> unat e + 8 \<le> unat a" "unat a + n < 2 ^ 64" "unat e + 8 \<le> 2 ^ 64"
  shows "off_word e a n"
proof -
  have "8 \<le> unat (a + of_nat i - e)" if "i < n" for i
  proof -
    have "unat (a + of_nat i) = unat a + i" using assms(2) that by (intro unat_plus_small) simp
    then show ?thesis using assms that by (simp only: unat_sub_if') auto
  qed
  then show ?thesis by (simp add: off_word_def list_all_iff)
qed

lemma holds_bytes_Nil [simp]: "holds_bytes m a []"
  by (simp add: holds_bytes_iff)

lemma holds_bytes_Cons: "holds_bytes m a (b # bs) \<longleftrightarrow> m a = Some b \<and> holds_bytes m (a + 1) bs"
  by (auto simp: holds_bytes_iff nth_Cons add.assoc less_Suc_eq_0_disj split: nat.split)

lemma holds_bytes_append:
  "holds_bytes m a (xs @ ys) \<longleftrightarrow> holds_bytes m a xs \<and> holds_bytes m (a + of_nat (length xs)) ys"
  by (induction xs arbitrary: a) (simp_all add: holds_bytes_Cons add.assoc add.commute)

lemma holds_bytes_poke: "holds_bytes m a bs \<Longrightarrow> off_word e a (length bs) \<Longrightarrow> holds_bytes (poke_mem m e v) a bs"
  by (simp add: holds_bytes_iff off_word_def list_all_iff poke_mem_other)

lemma c_str_bytes: "c_str_at m a s \<Longrightarrow> holds_bytes m a (map byte_of_char s)"
  by (simp add: c_str_at_def holds_bytes_append)

lemma c_str_poke: "c_str_at m a s \<Longrightarrow> off_word e a (length s + 1) \<Longrightarrow> c_str_at (poke_mem m e v) a s"
  by (simp add: c_str_at_def holds_bytes_poke)

subsection \<open>\<open>strlen\<close>\<close>

lemma byte_of_char_0: "byte_of_char c = 0 \<longleftrightarrow> c = CHR 0x00"
  using byte_of_char_inj [of c "CHR 0x00"] by (simp add: byte_of_char_def)

lemma strlen_loop_counts:
  assumes "holds_bytes (p_mem p) a (map byte_of_char s @ [0])" "CHR 0x00 \<notin> set s" "k + length s < 2 ^ 63"
  shows "strlen_loop a (of_nat k) p = Inr (of_nat (k + length s))"
  using assms
proof (induction s arbitrary: a k)
  case Nil
  then show ?case by (simp add: strlen_loop.simps [of a] ld1_def holds_bytes_Cons)
next
  case (Cons c s)
  have "of_nat k \<noteq> (0x7fffffffffffffff :: u64)"
  proof
    assume "of_nat k = (0x7fffffffffffffff :: u64)"
    then have "unat (of_nat k :: u64) = 0x7fffffffffffffff" by simp
    moreover have "unat (of_nat k :: u64) = k" by (rule unat_small) (use Cons.prems(3) in simp)
    ultimately show False using Cons.prems(3) by simp
  qed
  moreover have "strlen_loop (a + 1) (of_nat (Suc k)) p = Inr (of_nat (Suc k + length s))"
    by (rule Cons.IH) (use Cons.prems in \<open>simp_all add: holds_bytes_Cons\<close>)
  ultimately show ?case
    using Cons.prems
    by (auto simp: strlen_loop.simps [of a] ld1_def holds_bytes_Cons byte_of_char_0 add.commute)
qed

lemma strlen_text: "c_str_at (p_mem p) a s \<Longrightarrow> mini_strlen a p = Inr (of_nat (length s))"
  using strlen_loop_counts [of p a s 0] by (simp add: c_str_at_def mini_strlen_def)

subsection \<open>A kernel that takes what is written\<close>

text \<open>
  \<open>write(2)\<close> to a descriptor that takes everything, such as a terminal: it returns the count and changes
  nothing but what has been written there. \<open>put_out\<close> adds the bytes.
\<close>

locale console_kernel =
  fixes K :: "'w unix" and takes :: "'w \<Rightarrow> u64 \<Rightarrow> bool" and out_of :: "'w \<Rightarrow> u64 \<Rightarrow> u8 list"
    and put_out :: "u64 \<Rightarrow> u8 list \<Rightarrow> 'w \<Rightarrow> 'w"
  assumes write_all: "takes (p_os p) fd \<Longrightarrow> holds_bytes (p_mem p) buf bs \<Longrightarrow> length bs < 2 ^ 31 \<Longrightarrow>
      sysc K 1 [fd, buf, of_nat (length bs)] p = Some (of_nat (length bs), p\<lparr>p_os := put_out fd bs (p_os p)\<rparr>)"
    and out_put: "out_of (put_out fd bs w) = (out_of w)(fd := out_of w fd @ bs)"
    and takes_put: "takes (put_out fd bs w) = takes w"
begin

lemma write_run:
  assumes "takes (p_os p) (ucast fd)" "holds_bytes (p_mem p) a bs" "length bs < 2 ^ 31" "readable (p_mem p) (errno_at K)"
  shows "mini_write K fd a (of_nat (length bs)) p = Inr (of_nat (length bs),
    \<lparr>p_mem = poke_mem (p_mem p) (errno_at K) 0, p_os = put_out (ucast fd) bs (p_os p)\<rparr>)"
proof -
  have n: "sysno ''write'' = 1" by code_simp
  have "0 \<le> sint (of_nat (length bs) :: u64)" using sint_small [of "length bs"] assms(3) by simp
  from retval_nonneg [OF _ this, where L = K and p = "p\<lparr>p_os := put_out (ucast fd) bs (p_os p)\<rparr>" and ?'b = 64]
  have "retval K (of_nat (length bs), p\<lparr>p_os := put_out (ucast fd) bs (p_os p)\<rparr>) =
      Inr (of_nat (length bs) :: u64, \<lparr>p_mem = poke_mem (p_mem p) (errno_at K) 0, p_os = put_out (ucast fd) bs (p_os p)\<rparr>)"
    using assms(4) by (cases p) simp
  then show ?thesis
    using write_all [OF assms(1-3)] by (simp add: mini_write_def sys_def n)
qed

text \<open>A string written with its \<open>strlen\<close>, to any descriptor and to the one for errors.\<close>

lemma put_err_run:
  assumes "takes (p_os p) 2" "c_str_at (p_mem p) a s" "readable (p_mem p) (errno_at K)"
  shows "put_err K a p = Inr \<lparr>p_mem = poke_mem (p_mem p) (errno_at K) 0, p_os = put_out 2 (map byte_of_char s) (p_os p)\<rparr>"
  using write_run [of p 2 a "map byte_of_char s"] assms strlen_text [OF assms(2)] c_str_bytes [OF assms(2)]
  by (simp add: put_err_def c_str_at_def)

end

subsection \<open>\<open>perror\<close>\<close>

text \<open>The literals \<open>ss\<close> are in memory, apart from \<open>errno\<close>.\<close>

definition lits_at :: "'w unix \<Rightarrow> memory \<Rightarrow> string list \<Rightarrow> bool" where
  "lits_at K m ss \<longleftrightarrow> list_all (\<lambda>s. c_str_at m (lit K s) s \<and> off_word (errno_at K) (lit K s) (length s + 1)) ss"

lemma lits_poke: "lits_at K m ss \<Longrightarrow> lits_at K (poke_mem m (errno_at K) v) ss"
  by (simp add: lits_at_def list_all_iff c_str_poke)

lemma lits_str: "lits_at K m ss \<Longrightarrow> s \<in> set ss \<Longrightarrow> c_str_at m (lit K s) s"
  by (simp add: lits_at_def list_all_iff)

definition perror_lits :: "string list" where
  "perror_lits = errmsg @ [''Unknown'', '': '', [newline]]"

text \<open>The message for an error number.\<close>

definition message :: "u64 \<Rightarrow> string" where
  "message e = (if 0 \<le> sint e \<and> sint e \<le> 34 then errmsg ! nat (sint e) else ''Unknown'')"

lemma length_errmsg: "length errmsg = 35"
  by code_simp

lemma message_lit: "message e \<in> set perror_lits"
  by (auto simp: message_def perror_lits_def length_errmsg intro!: nth_mem)

context console_kernel
begin

text \<open>The end of \<open>perror\<close>, with \<open>errno\<close> at \<open>e\<close> again: the message and the newline.\<close>

lemma message_run:
  assumes "takes (p_os p) 2" "lits_at K (p_mem p) perror_lits" "readable (p_mem p) (errno_at K)" "s \<in> set perror_lits"
  shows "bnd (put_err K (lit K s) p) (\<lambda>p. bnd (mini_write K 2 (lit K [newline]) 1 p) (\<lambda>(r, p). Inr p)) =
    Inr \<lparr>p_mem = poke_mem (p_mem p) (errno_at K) 0,
      p_os = put_out 2 [byte_of_char newline] (put_out 2 (map byte_of_char s) (p_os p))\<rparr>"
proof -
  let ?p = "\<lparr>p_mem = poke_mem (p_mem p) (errno_at K) 0, p_os = put_out 2 (map byte_of_char s) (p_os p)\<rparr>"
  have "holds_bytes (p_mem ?p) (lit K [newline]) [byte_of_char newline]"
    using c_str_bytes [OF lits_str [OF lits_poke [OF assms(2)]]] by (force simp: perror_lits_def)
  from write_run [of ?p 2, OF _ this] show ?thesis
    using put_err_run [OF assms(1) lits_str [OF assms(2,4)] assms(3)] assms(1,3)
    by (simp add: takes_put readable_poke_keep poke_mem_twice)
qed

lemma perror_plain:
  assumes "takes (p_os p) 2" "lits_at K (p_mem p) perror_lits" "peek_mem (p_mem p) (errno_at K) = Some e"
  shows "perror K 0 p = Inr \<lparr>p_mem = poke_mem (p_mem p) (errno_at K) 0,
      p_os = put_out 2 [byte_of_char newline] (put_out 2 (map byte_of_char (message e)) (p_os p))\<rparr>"
proof -
  have "nat (sint e) < 35 \<longleftrightarrow> sint e \<le> 34" if "0 \<le> sint e" using that by arith
  then show ?thesis
    using message_run [OF assms(1,2) peek_readable [OF assms(3)] message_lit [of e]] assms(3)
    by (auto simp: perror_def ld8_def PERRMSG_MIN_def PERRMSG_MAX_def message_def length_errmsg)
qed

lemma prefix_runs:
  assumes "takes (p_os p) 2" "lits_at K (p_mem p) perror_lits" "readable (p_mem p) (errno_at K)" "c_str_at (p_mem p) pfx s"
  defines "p1 \<equiv> \<lparr>p_mem = poke_mem (p_mem p) (errno_at K) 0, p_os = put_out 2 (map byte_of_char s) (p_os p)\<rparr>"
  shows "put_err K pfx p = Inr p1"
    "mini_write K 2 (lit K '': '') 2 p1 = Inr (2, p1\<lparr>p_os := put_out 2 (map byte_of_char '': '') (p_os p1)\<rparr>)"
proof -
  show "put_err K pfx p = Inr p1" unfolding p1_def by (rule put_err_run [OF assms(1,4,3)])
  have "c_str_at (p_mem p1) (lit K '': '') '': ''"
    using lits_str [OF lits_poke [OF assms(2)]] by (simp add: perror_lits_def p1_def)
  then have "holds_bytes (p_mem p1) (lit K '': '') (map byte_of_char '': '')" using c_str_bytes by fastforce
  from write_run [of p1 2, OF _ this]
  show "mini_write K 2 (lit K '': '') 2 p1 = Inr (2, p1\<lparr>p_os := put_out 2 (map byte_of_char '': '') (p_os p1)\<rparr>)"
    using assms(1,3) by (simp add: p1_def takes_put readable_poke_keep poke_mem_twice)
qed

lemma perror_with_prefix:
  assumes "takes (p_os p) 2" "lits_at K (p_mem p) perror_lits" "peek_mem (p_mem p) (errno_at K) = Some e"
    "pfx \<noteq> 0" "c_str_at (p_mem p) pfx s"
  shows "perror K pfx p = (if 0 \<le> sint e \<and> sint e \<le> 34 then
    Inr \<lparr>p_mem = poke_mem (p_mem p) (errno_at K) 0,
      p_os = put_out 2 [byte_of_char newline] (put_out 2 (map byte_of_char (message e))
        (put_out 2 (map byte_of_char '': '') (put_out 2 (map byte_of_char s) (p_os p))))\<rparr>
    else Inl Ub)"
proof -
  let ?p1 = "\<lparr>p_mem = poke_mem (p_mem p) (errno_at K) 0, p_os = put_out 2 (map byte_of_char s) (p_os p)\<rparr>"
  let ?p2 = "?p1\<lparr>p_os := put_out 2 (map byte_of_char '': '') (p_os ?p1)\<rparr>"
  note r = peek_readable [OF assms(3)]
  note pre = prefix_runs [OF assms(1,2) r assms(5)]
  have "bnd (put_err K (lit K (message e)) ?p2) (\<lambda>p. bnd (mini_write K 2 (lit K [newline]) 1 p) (\<lambda>(r, p). Inr p)) =
      Inr \<lparr>p_mem = poke_mem (p_mem ?p2) (errno_at K) 0,
        p_os = put_out 2 [byte_of_char newline] (put_out 2 (map byte_of_char (message e)) (p_os ?p2))\<rparr>"
    by (rule message_run) (use assms(1,2) r message_lit in \<open>simp_all add: takes_put lits_poke readable_poke_keep\<close>)
  note run = this
  note pp = perror_prefixed [OF _ assms(4) pre, of e]
  show ?thesis
  proof (cases "0 \<le> sint e \<and> sint e \<le> 34")
    case True
    then have "message e = errmsg ! nat (sint e)" by (simp add: message_def)
    then show ?thesis using pp run True assms(3) by (simp add: ld8_def poke_mem_twice)
  next
    case False
    with pp assms(3) show ?thesis by (simp add: ld8_def)
  qed
qed

end

end
