(* ===== verification/Mini_Kernel.thy ===== *)
theory Mini_Kernel
  imports Mini_Text
begin

text \<open>
  A kernel with signals and a timer, as the manual pages describe it to one process: what is blocked,
  pending and done about each signal, when the timer runs out and what other processes will send. Time
  passes only in calls that wait. Lemmas: how far a wait gets when no signal can end it.
\<close>

subsection \<open>Signals and time\<close>

text \<open>
  Times are milliseconds from one origin; \<open>sg_sent\<close> is what others send, in the order of its times. An
  action is the address of a handler, \<open>SIG_DFL\<close> or \<open>SIG_IGN\<close>.
\<close>

record sig_state =
  sg_blocked :: "nat set"
  sg_pending :: "nat set"
  sg_action :: "nat \<Rightarrow> u64"
  sg_timer :: "nat option"
  sg_sent :: "(nat \<times> nat) list"
  sg_clock :: nat

text \<open>Signals whose default is to be ignored or to stop; the default of any other ends the process.\<close>

definition default_ignored :: "nat set" where "default_ignored = {17, 18, 23, 28}"
definition default_stops :: "nat set" where "default_stops = {19, 20, 21, 22}"

text \<open>A signal that neither the mask nor its action keeps from the process.\<close>

definition reaches :: "nat \<Rightarrow> sig_state \<Rightarrow> bool" where
  "reaches k st \<longleftrightarrow> k \<notin> sg_blocked st \<and> sg_action st k \<noteq> SIG_IGN \<and>
     \<not> (sg_action st k = SIG_DFL \<and> k \<in> default_ignored)"

text \<open>One that does not: it stays pending when it is blocked (Linux keeps an ignored one too), and is dropped else.\<close>

definition hold :: "nat \<Rightarrow> sig_state \<Rightarrow> sig_state" where
  "hold k st = (if k \<in> sg_blocked st then st\<lparr>sg_pending := insert k (sg_pending st)\<rparr> else st)"

text \<open>The next signal, the timer first when two are due at once.\<close>

fun next_signal :: "sig_state \<Rightarrow> (nat \<times> nat \<times> sig_state) option" where
  "next_signal st =
     (case (sg_timer st, sg_sent st) of
        (None, []) \<Rightarrow> None
      | (None, (t, k) # r) \<Rightarrow> Some (t, k, st\<lparr>sg_sent := r\<rparr>)
      | (Some a, []) \<Rightarrow> Some (a, 14, st\<lparr>sg_timer := None\<rparr>)
      | (Some a, (t, k) # r) \<Rightarrow>
          if t < a then Some (t, k, st\<lparr>sg_sent := r\<rparr>) else Some (a, 14, st\<lparr>sg_timer := None\<rparr>))"

declare next_signal.simps [simp del]

datatype wake = Caught nat sig_state | Elapsed sig_state | Forever

lemma next_signal_less:
  "next_signal st = Some (t, k, st') \<Longrightarrow>
    length (sg_sent st') + (if sg_timer st' = None then 0 else 1) < length (sg_sent st) + (if sg_timer st = None then 0 else 1)"
  by (auto simp: next_signal.simps split: option.splits list.splits if_splits prod.splits)

lemma hold_sent [simp]: "sg_sent (hold k st) = sg_sent st" "sg_timer (hold k st) = sg_timer st"
  "sg_blocked (hold k st) = sg_blocked st" "sg_action (hold k st) = sg_action st" "sg_clock (hold k st) = sg_clock st"
  by (simp_all add: hold_def)

text \<open>A wait, with or without a last moment: signals come in turn until one reaches the process.\<close>

function wait_until :: "nat option \<Rightarrow> sig_state \<Rightarrow> wake" where
  "wait_until lim st =
     (case next_signal st of
        None \<Rightarrow> (case lim of None \<Rightarrow> Forever | Some l \<Rightarrow> Elapsed (st\<lparr>sg_clock := l\<rparr>))
      | Some (t, k, st') \<Rightarrow>
          (let late = (case lim of None \<Rightarrow> False | Some l \<Rightarrow> l < t); st' = st'\<lparr>sg_clock := max t (sg_clock st)\<rparr> in
           if late then Elapsed (st\<lparr>sg_clock := the lim\<rparr>)
           else if reaches k st' then Caught k st'
           else wait_until lim (hold k st')))"
  by pat_completeness auto
termination
  by (relation "measure (\<lambda>(lim, st). length (sg_sent st) + (if sg_timer st = None then 0 else 1))")
    (auto dest: next_signal_less)

declare wait_until.simps [simp del]

text \<open>A wait past the timer that no signal can end: the alarm is pending afterwards when it is blocked.\<close>

lemma wait_blocked:
  assumes "14 \<in> sg_blocked st" "\<And>t k. (t, k) \<in> set (sg_sent st) \<Longrightarrow> t \<le> l \<Longrightarrow> \<not> reaches k st"
    "14 \<in> sg_pending st \<or> (\<exists>a\<le>l. sg_timer st = Some a)"
  shows "\<exists>st'. wait_until (Some l) st = Elapsed st' \<and> 14 \<in> sg_pending st' \<and> sg_clock st' = l"
  using assms
proof (induction "Some l" st rule: wait_until.induct)
  case (1 st)
  have r14: "\<not> reaches 14 st" using 1(2) by (simp add: reaches_def)
  have rc: "reaches k (st\<lparr>sg_sent := xs, sg_clock := c\<rparr>) = reaches k st" "reaches k (st\<lparr>sg_timer := x, sg_clock := c\<rparr>) = reaches k st"
    for k xs c x by (simp_all add: reaches_def)
  show ?case
  proof (cases "next_signal st")
    case None
    with 1(4) have "14 \<in> sg_pending st" by (auto simp: next_signal.simps split: option.splits list.splits if_splits prod.splits)
    with None show ?thesis by (simp add: wait_until.simps)
  next
    case (Some x)
    obtain t k st' where n: "next_signal st = Some (t, k, st')" using Some by (cases x) auto
    let ?s = "st'\<lparr>sg_clock := max t (sg_clock st)\<rparr>"
    show ?thesis
    proof (cases "l < t")
      case True
      with n 1(4) have "14 \<in> sg_pending st"
        by (auto simp: next_signal.simps split: option.splits list.splits if_splits prod.splits)
      with n True show ?thesis by (simp add: wait_until.simps Let_def)
    next
      case False
      have r: "\<not> reaches k ?s"
        using n 1(3) [of t k] r14 False
        by (auto simp: next_signal.simps rc split: option.splits list.splits if_splits prod.splits)
      have "\<exists>st'. wait_until (Some l) (hold k ?s) = Elapsed st' \<and> 14 \<in> sg_pending st' \<and> sg_clock st' = l"
      proof (rule 1(1) [OF n refl refl refl refl])
        show "\<not> (case Some l of None \<Rightarrow> False | Some l \<Rightarrow> l < t)" using False by simp
        show "\<not> reaches k ?s" by (rule r)
        show "14 \<in> sg_blocked (hold k ?s)"
          using n 1(2) by (auto simp: next_signal.simps split: option.splits list.splits if_splits prod.splits)
        show "\<not> reaches k' (hold k ?s)" if "(t', k') \<in> set (sg_sent (hold k ?s))" "t' \<le> l" for t' k'
        proof -
          have "(t', k') \<in> set (sg_sent st)" and "reaches k' (hold k ?s) = reaches k' st"
            using n that(1) by (auto simp: next_signal.simps reaches_def split: option.splits list.splits if_splits prod.splits)
          then show ?thesis using 1(3) that(2) by blast
        qed
        show "14 \<in> sg_pending (hold k ?s) \<or> (\<exists>a\<le>l. sg_timer (hold k ?s) = Some a)"
          using n 1(2,4) by (auto simp: next_signal.simps hold_def split: option.splits list.splits if_splits prod.splits)
      qed
      then show ?thesis using n False r by (simp add: wait_until.simps [of _ st] Let_def)
    qed
  qed
qed

subsection \<open>The calls\<close>

text \<open>Memory that is mapped stays mapped.\<close>

definition still_mapped :: "memory \<Rightarrow> memory \<Rightarrow> bool" where
  "still_mapped m m' \<longleftrightarrow> (\<forall>x. m x \<noteq> None \<longrightarrow> m' x \<noteq> None)"

text \<open>
  What the manual pages say of the calls the alarm programs make: \<open>rt_sigprocmask\<close> to block, \<open>alarm\<close>,
  \<open>rt_sigaction\<close> (32 bytes of the old action are written; ignoring a signal drops a pending one),
  \<open>nanosleep\<close> that nothing interrupts, \<open>pause\<close> ended by a handler that returns or by the end of the
  process, and \<open>rt_sigpending\<close>. \<open>returns h\<close> says that a handler at \<open>h\<close>, and the restorer after it, return.
\<close>

locale signal_kernel = console_kernel K takes out_of put_out
  for K :: "'w unix" and takes out_of put_out +
  fixes sg :: "'w \<Rightarrow> sig_state" and same_out :: "'w \<Rightarrow> 'w \<Rightarrow> bool" and returns :: "u64 \<Rightarrow> bool"
  assumes block: "sigset_at p nset = Some S \<Longrightarrow> nset \<noteq> 0 \<Longrightarrow>
      \<exists>w. sysc K 14 [0, nset, 0, 8] p = Some (0, p\<lparr>p_os := w\<rparr>) \<and> same_out (p_os p) w \<and>
        sg w = (sg (p_os p))\<lparr>sg_blocked := sg_blocked (sg (p_os p)) \<union> (S - {9, 19})\<rparr>"
    and set_alarm: "secs < 2 ^ 32 \<Longrightarrow>
      \<exists>r w. sysc K 37 [secs] p = Some (r, p\<lparr>p_os := w\<rparr>) \<and> 0 \<le> sint r \<and> same_out (p_os p) w \<and>
        sg w = (sg (p_os p))\<lparr>sg_timer := (if secs = 0 then None else Some (sg_clock (sg (p_os p)) + 1000 * unat secs))\<rparr>"
    and set_action: "peek_mem (p_mem p) act = Some h \<Longrightarrow> h \<noteq> SIG_DFL \<Longrightarrow> unat sn \<in> {1..64} - {9, 19} \<Longrightarrow>
      list_all (\<lambda>d. readable (p_mem p) (oact + d)) [0, 8, 16, 24] \<Longrightarrow>
      \<exists>m w. sysc K 13 [sn, act, oact, 8] p = Some (0, \<lparr>p_mem = m, p_os = w\<rparr>) \<and> still_mapped (p_mem p) m \<and>
        same_out (p_os p) w \<and>
        sg w = (let st = sg (p_os p) in st\<lparr>sg_action := (sg_action st)(unat sn := h),
          sg_pending := (if h = SIG_IGN then sg_pending st - {unat sn} else sg_pending st)\<rparr>)"
    and sleep_through: "peek_mem (p_mem p) req = Some secs \<Longrightarrow> peek_mem (p_mem p) (req + 8) = Some 0 \<Longrightarrow> 0 \<le> sint secs \<Longrightarrow>
      wait_until (Some (sg_clock (sg (p_os p)) + 1000 * unat secs)) (sg (p_os p)) = Elapsed st \<Longrightarrow>
      \<exists>w. sysc K 35 [req, left] p = Some (0, p\<lparr>p_os := w\<rparr>) \<and> same_out (p_os p) w \<and> sg w = st"
    and pause_caught: "wait_until None (sg (p_os p)) = Caught k st \<Longrightarrow> returns (sg_action st k) \<Longrightarrow>
      \<exists>m w. sysc K 34 [] p = Some (- 4, \<lparr>p_mem = m, p_os = w\<rparr>) \<and> still_mapped (p_mem p) m \<and> same_out (p_os p) w \<and> sg w = st"
    and pause_killed: "wait_until None (sg (p_os p)) = Caught k st \<Longrightarrow> sg_action st k = SIG_DFL \<Longrightarrow> k \<notin> default_stops \<Longrightarrow>
      sysc K 34 [] p = None"
    and get_pending: "readable (p_mem p) a \<Longrightarrow>
      \<exists>v. sigs v = sg_pending (sg (p_os p)) \<inter> {1..64} \<and>
        sysc K 127 [a, 8] p = Some (0, p\<lparr>p_mem := poke_mem (p_mem p) a v\<rparr>)"
    and same_out: "same_out w w' \<Longrightarrow> takes w' = takes w \<and> out_of w' = out_of w"
    and sg_put: "sg (put_out fd bs w) = sg w"

end
