(* ===== verification/Mini_Alarm.thy ===== *)
theory Mini_Alarm
  imports Mini_Kernel
begin

text \<open>
  \<open>project3/alarm1.c\<close>, \<open>alarm2.c\<close> and \<open>alarm3.c\<close>: the library's signal functions composed the way the three
  test programs compose them. Lemmas: what each of them prints, or that it is killed, on a kernel with
  signals and a timer.
\<close>

subsection \<open>The programs\<close>

text \<open>Bytes stored one after the other: the initialisation of a local array.\<close>

fun st_bytes :: "u64 \<Rightarrow> u8 list \<Rightarrow> 'w proc \<Rightarrow> mini_stop + 'w proc" where
  "st_bytes a [] p = Inr p"
| "st_bytes a (b # bs) p = bnd (st1 a b p) (st_bytes (a + 1) bs)"

definition alarm1_main :: "'w unix \<Rightarrow> (u32, 'w) call" where
  "alarm1_main L p = bnd (mini_alarm L 3 p) (\<lambda>(r, p). bnd (mini_pause L p) (\<lambda>(r, p). Inr (0, p)))"

text \<open>The local array of the message, its terminator included.\<close>

definition alarm_text :: "bool \<Rightarrow> u8 list" where
  "alarm_text b = map byte_of_char ((if b then ''sigalrm is pending.'' else ''sigalrm is not pending.'') @ [newline]) @ [0]"

text \<open>
  The end of \<open>alarm2\<close> and \<open>alarm3\<close>: the set is fetched and all \<open>sizeof(m)\<close> bytes of the message are
  written from the array at \<open>m\<close>.
\<close>

definition alarm_report :: "'w unix \<Rightarrow> u64 \<Rightarrow> u64 \<Rightarrow> (u32, 'w) call" where
  "alarm_report L s m p =
     bnd (mini_sigpending L s p) (\<lambda>(r, p).
     bnd (if sint r < 0 then perror L (lit L ''sigpending'') p else Inr p) (\<lambda>p.
     bnd (sigismember s SIGALRM p) (\<lambda>b.
       let t = alarm_text (b \<noteq> 0) in
       bnd (st_bytes m t p) (\<lambda>p. bnd (mini_write L 1 m (of_nat (length t)) p) (\<lambda>(r, p). Inr (0, p))))))"

text \<open>The locals: the set at \<open>fr\<close>, the message at \<open>fr + 16\<close>; frames of the functions called from \<open>fr + 64\<close> on.\<close>

definition alarm2_main :: "'w unix \<Rightarrow> u64 \<Rightarrow> (u32, 'w) call" where
  "alarm2_main L fr p =
     bnd (sigemptyset fr p) (\<lambda>(r, p).
     bnd (sigaddset fr SIGALRM p) (\<lambda>(r, p).
     bnd (mini_sigprocmask L SIG_BLOCK fr 0 p) (\<lambda>(r, p).
     bnd (mini_alarm L 3 p) (\<lambda>(r, p).
     bnd (sleep_c L (fr + 64) 5 p) (\<lambda>(r, p).
     alarm_report L fr (fr + 16) p)))))"

text \<open>\<open>handler\<close> is the address of a function that does nothing.\<close>

definition alarm3_main :: "'w unix \<Rightarrow> u64 \<Rightarrow> u64 \<Rightarrow> (u32, 'w) call" where
  "alarm3_main L handler fr p =
     bnd (sigemptyset fr p) (\<lambda>(r, p).
     bnd (sigaddset fr SIGALRM p) (\<lambda>(r, p).
     bnd (mini_sigprocmask L SIG_BLOCK fr 0 p) (\<lambda>(r, p).
     bnd (signal L (fr + 64) SIGALRM SIG_IGN p) (\<lambda>(r, p).
     bnd (signal L (fr + 64) SIGINT handler p) (\<lambda>(r, p).
     bnd (mini_alarm L 1 p) (\<lambda>(r, p).
     bnd (mini_pause L p) (\<lambda>(r, p).
     alarm_report L fr (fr + 16) p)))))))"

subsection \<open>Steps\<close>

text \<open>The 128 bytes of the frame and \<open>errno\<close> are mapped and apart; the terminal takes what is written.\<close>

definition prog_ok :: "'w unix \<Rightarrow> ('w \<Rightarrow> u64 \<Rightarrow> bool) \<Rightarrow> u64 \<Rightarrow> 'w proc \<Rightarrow> bool" where
  "prog_ok K takes fr p \<longleftrightarrow>
     list_all (\<lambda>i. p_mem p (fr + of_nat i) \<noteq> None \<and> 8 \<le> unat (fr + of_nat i - errno_at K)) [0..<128] \<and>
     readable (p_mem p) (errno_at K) \<and> apart8 fr (errno_at K) \<and> fr \<noteq> 0 \<and> takes (p_os p) 1"

definition goes_on :: "('w \<Rightarrow> u64 \<Rightarrow> bool) \<Rightarrow> 'w proc \<Rightarrow> 'w proc \<Rightarrow> bool" where
  "goes_on takes p q \<longleftrightarrow> still_mapped (p_mem p) (p_mem q) \<and> takes (p_os q) = takes (p_os p)"

lemma still_mapped_refl [simp]: "still_mapped m m"
  by (simp add: still_mapped_def)

lemma still_mapped_trans: "still_mapped m m' \<Longrightarrow> still_mapped m' m'' \<Longrightarrow> still_mapped m m''"
  by (simp add: still_mapped_def)

lemma still_mapped_poke: "still_mapped m (poke_mem m a v)"
  by (simp add: still_mapped_def poke_mem_def)

lemma readable_still: "still_mapped m m' \<Longrightarrow> readable m a \<Longrightarrow> readable m' a"
  by (simp add: still_mapped_def readable_iff)

lemma prog_ok_goes: "prog_ok K takes fr p \<Longrightarrow> goes_on takes p q \<Longrightarrow> prog_ok K takes fr q"
  by (auto simp: prog_ok_def goes_on_def still_mapped_def readable_iff list_all_iff)

lemma prog_ok_readable:
  assumes "prog_ok K takes fr p" "k \<le> 120"
  shows "readable (p_mem p) (fr + of_nat k)"
proof -
  have "p_mem p (fr + of_nat k + of_nat i) \<noteq> None" if "i < 8" for i
  proof -
    have "k + i \<in> set [0..<128]" using assms(2) that by simp
    moreover have "\<forall>j\<in>set [0..<128]. p_mem p (fr + of_nat j) \<noteq> None"
      using assms(1) unfolding prog_ok_def list_all_iff by blast
    ultimately have "p_mem p (fr + of_nat (k + i)) \<noteq> None" by blast
    then show ?thesis by (simp add: add.assoc)
  qed
  then show ?thesis by (simp add: readable_iff)
qed

lemma prog_ok_words:
  assumes "prog_ok K takes fr p"
  shows "readable (p_mem p) fr" "readable (p_mem p) (fr + 64)" "readable (p_mem p) (fr + 72)" "readable (p_mem p) (fr + 80)"
    "readable (p_mem p) (fr + 88)" "readable (p_mem p) (fr + 96)" "readable (p_mem p) (fr + 104)"
    "readable (p_mem p) (fr + 112)" "readable (p_mem p) (fr + 120)"
  using prog_ok_readable [OF assms, of 0] prog_ok_readable [OF assms, of 64] prog_ok_readable [OF assms, of 72]
    prog_ok_readable [OF assms, of 80] prog_ok_readable [OF assms, of 88] prog_ok_readable [OF assms, of 96]
    prog_ok_readable [OF assms, of 104] prog_ok_readable [OF assms, of 112] prog_ok_readable [OF assms, of 120]
  by simp_all

lemma st_bytes_stores:
  assumes "\<And>i. i < length bs \<Longrightarrow> p_mem p (a + of_nat i) \<noteq> None" "length bs < 2 ^ 64"
  shows "\<exists>m. st_bytes a bs p = Inr (p\<lparr>p_mem := m\<rparr>) \<and> holds_bytes m a bs \<and> still_mapped (p_mem p) m \<and>
    (\<forall>x. (\<forall>i<length bs. x \<noteq> a + of_nat i) \<longrightarrow> m x = p_mem p x)"
  using assms
proof (induction bs arbitrary: a p)
  case Nil
  show ?case by (intro exI [of _ "p_mem p"]) simp
next
  case (Cons b bs)
  let ?p = "p\<lparr>p_mem := (p_mem p)(a \<mapsto> b)\<rparr>"
  have "p_mem p a \<noteq> None" using Cons.prems(1) [of 0] by simp
  then have st: "st1 a b p = Inr ?p" by (simp add: st1_def)
  have mapped: "p_mem ?p (a + 1 + of_nat i) \<noteq> None" if "i < length bs" for i
    using Cons.prems(1) [of "Suc i"] that by (simp add: add.assoc)
  have "length bs < 2 ^ 64" using Cons.prems(2) by simp
  from Cons.IH [OF mapped this] obtain m where m: "st_bytes (a + 1) bs ?p = Inr (?p\<lparr>p_mem := m\<rparr>)"
    "holds_bytes m (a + 1) bs" "still_mapped (p_mem ?p) m"
    "\<forall>x. (\<forall>i<length bs. x \<noteq> a + 1 + of_nat i) \<longrightarrow> m x = p_mem ?p x" by (auto simp del: fun_upd_apply)
  have "a \<noteq> a + 1 + of_nat i" if "i < length bs" for i
  proof
    assume "a = a + 1 + of_nat i"
    then have "of_nat (Suc i) = (0 :: u64)" by (simp add: add.assoc)
    moreover have "unat (of_nat (Suc i) :: u64) = Suc i" by (rule unat_small) (use that Cons.prems(2) in simp)
    ultimately show False by simp
  qed
  then have "m a = Some b" using m(4) by simp
  then have "holds_bytes m a (b # bs)" using m(2) by (simp add: holds_bytes_Cons)
  moreover have "still_mapped (p_mem p) m" using m(3) by (auto simp: still_mapped_def)
  moreover have "m x = p_mem p x" if "\<forall>i<length (b # bs). x \<noteq> a + of_nat i" for x
  proof -
    have "x \<noteq> a" using that [rule_format, of 0] by simp
    moreover have "x \<noteq> a + 1 + of_nat i" if "i < length bs" for i
      using \<open>\<forall>i<length (b # bs). x \<noteq> a + of_nat i\<close> [rule_format, of "Suc i"] that by (simp add: add.assoc)
    ultimately show ?thesis using m(4) by simp
  qed
  moreover have "st_bytes a (b # bs) p = Inr (p\<lparr>p_mem := m\<rparr>)" using m(1) by (simp add: st)
  ultimately show ?case by blast
qed

text \<open>The set of the programs: emptied, then given the alarm.\<close>

lemma alarm_set:
  assumes "readable (p_mem p) fr"
  shows "\<exists>p1 q. sigemptyset fr p = Inr (0, p1) \<and> sigaddset fr SIGALRM p1 = Inr (0, q) \<and> sigset_at q fr = Some {14} \<and>
    p_os q = p_os p \<and> still_mapped (p_mem p) (p_mem q)"
proof -
  obtain v where v: "peek_mem (p_mem p) fr = Some v" using readable_holds [OF assms] peek_mem_holds by blast
  from run_call_pokes [OF v, of Empty] obtain u
    where u: "sigemptyset fr p = Inr (0, p\<lparr>p_mem := poke_mem (p_mem p) fr u\<rparr>)" "sigs u = {}" by auto
  have "SIGALRM = of_nat 14" by (simp add: SIGALRM_def)
  with run_call_pokes [of "p\<lparr>p_mem := poke_mem (p_mem p) fr u\<rparr>" fr u "Add 14"] u(2) obtain z
    where z: "sigaddset fr SIGALRM (p\<lparr>p_mem := poke_mem (p_mem p) fr u\<rparr>) = Inr (0, p\<lparr>p_mem := poke_mem (p_mem p) fr z\<rparr>)"
      "sigs z = {14}" by (auto simp: poke_mem_twice)
  then show ?thesis using u(1) by (simp add: sigset_at_def still_mapped_poke)
qed

lemma alarm_numbers:
  "sysno ''rt_sigprocmask'' = 14" "sysno ''alarm'' = 37" "sysno ''rt_sigaction'' = 13" "sysno ''nanosleep'' = 35"
  "sysno ''pause'' = 34" "sysno ''rt_sigpending'' = 127"
  by code_simp+

context signal_kernel
begin

text \<open>What a call leaves for the rest of a program: the frame, the terminal and the signals \<open>st\<close>.\<close>

definition left_with :: "'w proc \<Rightarrow> 'w proc \<Rightarrow> sig_state \<Rightarrow> bool" where
  "left_with p q st \<longleftrightarrow> goes_on takes p q \<and> out_of (p_os q) = out_of (p_os p) \<and> sg (p_os q) = st"

lemma left_trans: "left_with p q st \<Longrightarrow> left_with q r st' \<Longrightarrow> left_with p r st'"
  by (auto simp: left_with_def goes_on_def intro: still_mapped_trans)

lemma retval_step:
  assumes "prog_ok K takes fr p" "still_mapped (p_mem p) (p_mem p1)" "same_out (p_os p) (p_os p1)"
  shows "\<exists>q. retval K (ret, p1) = Inr (if 0 \<le> sint ret then ucast ret else (- 1 :: u32), q) \<and>
    left_with p q (sg (p_os p1)) \<and> p_mem q = poke_mem (p_mem p1) (errno_at K) (if 0 \<le> sint ret then 0 else - ret)"
proof -
  have "readable (p_mem p1) (errno_at K)" using assms(1,2) by (auto simp: prog_ok_def intro: readable_still)
  moreover have "left_with p (p1\<lparr>p_mem := poke_mem (p_mem p1) (errno_at K) v\<rparr>) (sg (p_os p1))" for v
    using assms(2) same_out [OF assms(3)] still_mapped_trans [OF _ still_mapped_poke]
    by (simp add: left_with_def goes_on_def)
  ultimately show ?thesis
    using retval_nonneg [where L = K and ret = ret and p = p1 and ?'b = 32] retval_neg [where L = K and ret = ret and p = p1 and ?'b = 32]
    by auto
qed

lemma block_step:
  assumes "prog_ok K takes fr p" "sigset_at p fr = Some S"
  shows "\<exists>r q. mini_sigprocmask K SIG_BLOCK fr 0 p = Inr (r, q) \<and>
    left_with p q ((sg (p_os p))\<lparr>sg_blocked := sg_blocked (sg (p_os p)) \<union> (S - {9, 19})\<rparr>)"
proof -
  obtain w where w: "sysc K 14 [0, fr, 0, 8] p = Some (0, p\<lparr>p_os := w\<rparr>)" "same_out (p_os p) w"
    "sg w = (sg (p_os p))\<lparr>sg_blocked := sg_blocked (sg (p_os p)) \<union> (S - {9, 19})\<rparr>"
    using block [OF assms(2)] assms(1) by (auto simp: prog_ok_def)
  show ?thesis
    using retval_step [OF assms(1), of "p\<lparr>p_os := w\<rparr>" 0] w
    by (auto simp: mini_sigprocmask_def SIG_BLOCK_def sys_def alarm_numbers)
qed

lemma alarm_step:
  assumes "prog_ok K takes fr p"
  shows "\<exists>r q. mini_alarm K secs p = Inr (r, q) \<and>
    left_with p q ((sg (p_os p))\<lparr>sg_timer := (if secs = 0 then None else Some (sg_clock (sg (p_os p)) + 1000 * unat secs))\<rparr>)"
proof -
  have u: "unat (ucast secs :: u64) = unat secs"
    using unsigned_less [of secs, where 'a = nat] by (simp add: unsigned_ucast_eq take_bit_nat_eq_self)
  have "(ucast secs :: u64) < 2 ^ 32" using unsigned_less [of secs, where 'a = nat] u by (simp add: word_less_nat_alt)
  from set_alarm [OF this, of p] obtain r w where w: "sysc K 37 [ucast secs] p = Some (r, p\<lparr>p_os := w\<rparr>)" "0 \<le> sint r"
    "same_out (p_os p) w" "sg w = (sg (p_os p))\<lparr>sg_timer := (if secs = 0 then None else Some (sg_clock (sg (p_os p)) + 1000 * unat secs))\<rparr>"
    using u by (auto simp: unat_eq_0 [symmetric] simp del: unat_eq_0)
  show ?thesis
    using retval_step [OF assms, of "p\<lparr>p_os := w\<rparr>" r] w by (auto simp: mini_alarm_def sys_def alarm_numbers)
qed

lemma signal_step:
  assumes "prog_ok K takes fr p" "unat signum \<in> {1..31} - {9, 19}" "h \<noteq> SIG_DFL"
  shows "\<exists>r q. signal K (fr + 64) signum h p = Inr (r, q) \<and>
    left_with p q (let st = sg (p_os p) in st\<lparr>sg_action := (sg_action st)(unat signum := h),
      sg_pending := (if h = SIG_IGN then sg_pending st - {unat signum} else sg_pending st)\<rparr>)"
proof -
  note rd = prog_ok_words [OF assms(1)]
  have rd5: "list_all (\<lambda>d. readable (p_mem p) (fr + 64 + d)) [0, 8, 16, 24, 32]" using rd by (simp add: add.assoc)
  from signal_request [OF this, of h signum K] obtain p1 where p1: "p_os p1 = p_os p" "still_mapped (p_mem p) (p_mem p1)"
    "peek_mem (p_mem p1) (fr + 64) = Some h"
    "signal K (fr + 64) signum h p =
      bnd (bnd (sys K ''rt_sigaction'' [ucast signum, fr + 64, fr + 64 + 32, 8] p1) (retval K))
        (\<lambda>(r, p). if sint (r :: u32) < 0 then Inr (SIG_ERR, p) else bnd (ld8 (fr + 64 + 32) p) (\<lambda>h. Inr (h, p)))"
    unfolding still_mapped_def by blast
  have u: "unat (ucast signum :: u64) = unat signum"
    using unsigned_less [of signum, where 'a = nat] by (simp add: unsigned_ucast_eq take_bit_nat_eq_self)
  have k: "unat (ucast signum :: u64) \<in> {1..64} - {9, 19}" unfolding u using assms(2) by auto
  have "list_all (\<lambda>d. readable (p_mem p1) (fr + 64 + 32 + d)) [0, 8, 16, 24]"
    using rd p1(2) by (simp add: add.assoc readable_still)
  from set_action [OF p1(3) assms(3) k this, unfolded u p1(1)] obtain m w where
    w: "sysc K 13 [ucast signum, fr + 64, fr + 64 + 32, 8] p1 = Some (0, \<lparr>p_mem = m, p_os = w\<rparr>)"
    "still_mapped (p_mem p1) m" "same_out (p_os p) w"
    "sg w = (let st = sg (p_os p) in st\<lparr>sg_action := (sg_action st)(unat signum := h),
      sg_pending := (if h = SIG_IGN then sg_pending st - {unat signum} else sg_pending st)\<rparr>)"
    by blast
  have "still_mapped (p_mem p) (p_mem \<lparr>p_mem = m, p_os = w\<rparr>)" "same_out (p_os p) (p_os \<lparr>p_mem = m, p_os = w\<rparr>)"
    using still_mapped_trans [OF p1(2) w(2)] w(3) by simp_all
  from retval_step [OF assms(1) this, of 0] obtain q where q: "retval K (0, \<lparr>p_mem = m, p_os = w\<rparr>) = Inr (0 :: u32, q)"
    "left_with p q (sg w)" by auto
  have "readable (p_mem q) (fr + 64 + 32)"
    using q(2) rd by (auto simp: left_with_def goes_on_def add.assoc intro: readable_still)
  then obtain v where "ld8 (fr + 64 + 32) q = Inr v" using readable_holds peek_mem_holds by (fastforce simp: ld8_def)
  then show ?thesis using p1(4) w(1,4) q by (simp add: sys_def alarm_numbers)
qed

lemma sleep_step:
  assumes "prog_ok K takes fr p" "unat secs < 2 ^ 31"
    "wait_until (Some (sg_clock (sg (p_os p)) + 1000 * unat secs)) (sg (p_os p)) = Elapsed st"
  shows "\<exists>q. sleep_c K (fr + 64) secs p = Inr (0, q) \<and> left_with p q st"
proof -
  note rd = prog_ok_words [OF assms(1)]
  let ?p = "p\<lparr>p_mem := poke_mem (poke_mem (p_mem p) (fr + 64) (ucast secs)) (fr + 72) 0\<rparr>"
  have u: "unat (ucast secs :: u64) = unat secs"
    using unsigned_less [of secs, where 'a = nat] by (simp add: unsigned_ucast_eq take_bit_nat_eq_self)
  have "0 \<le> sint (ucast secs :: u64)"
  proof -
    have "(ucast secs :: u64) = of_nat (unat secs)" using u by (metis of_nat_unat ucast_id)
    then show ?thesis using sint_small [of "unat secs"] assms(2) by simp
  qed
  from sleep_through [of ?p "fr + 64" "ucast secs" st "fr + 80", OF _ _ this] obtain w where
    w: "sysc K 35 [fr + 64, fr + 80] ?p = Some (0, ?p\<lparr>p_os := w\<rparr>)" "same_out (p_os p) w" "sg w = st"
    using assms(3) u by (auto simp: apart8_same_base word_le_nat_alt add.assoc)
  have "still_mapped (p_mem p) (p_mem ?p)" by (simp add: still_mapped_def poke_mem_def)
  then have "left_with p (?p\<lparr>p_os := w\<rparr>) st"
    using w(2,3) same_out [OF w(2)] by (simp add: left_with_def goes_on_def)
  then show ?thesis
    using w(1) rd by (simp add: sleep_c_def Let_def st8_def readable_poke_keep sys_def alarm_numbers add.assoc)
qed

lemma pause_step:
  assumes "prog_ok K takes fr p" "wait_until None (sg (p_os p)) = Caught k st" "returns (sg_action st k)"
  shows "\<exists>q. mini_pause K p = Inr (- 1, q) \<and> left_with p q st"
proof -
  obtain m w where w: "sysc K 34 [] p = Some (- 4, \<lparr>p_mem = m, p_os = w\<rparr>)" "still_mapped (p_mem p) m"
    "same_out (p_os p) w" "sg w = st" using pause_caught [OF assms(2,3)] by blast
  then show ?thesis
    using retval_step [OF assms(1), of "\<lparr>p_mem = m, p_os = w\<rparr>" "- 4"] by (auto simp: mini_pause_def sys_def alarm_numbers)
qed

lemma report_step:
  assumes "prog_ok K takes fr p"
  shows "\<exists>q. alarm_report K fr (fr + 16) p = Inr (0, q) \<and> sg (p_os q) = sg (p_os p) \<and>
    out_of (p_os q) = (out_of (p_os p))(1 := out_of (p_os p) 1 @ alarm_text (14 \<in> sg_pending (sg (p_os p))))"
proof -
  let ?b = "14 \<in> sg_pending (sg (p_os p))"
  obtain v where v: "sigs v = sg_pending (sg (p_os p)) \<inter> {1..64}"
    "sysc K 127 [fr, 8] p = Some (0, p\<lparr>p_mem := poke_mem (p_mem p) fr v\<rparr>)"
    using get_pending prog_ok_words(1) [OF assms] by blast
  let ?q = "p\<lparr>p_mem := poke_mem (poke_mem (p_mem p) fr v) (errno_at K) 0\<rparr>"
  have rd: "readable (p_mem p) (errno_at K)" and ap: "apart8 fr (errno_at K)" "apart8 (errno_at K) fr"
    using assms apart8_sym by (auto simp: prog_ok_def)
  have q: "mini_sigpending K fr p = Inr (0, ?q)"
    using retval_nonneg [where L = K and ret = 0 and p = "p\<lparr>p_mem := poke_mem (p_mem p) fr v\<rparr>" and ?'b = 32] rd v(2)
    by (simp add: mini_sigpending_def sys_def alarm_numbers readable_poke_keep)
  have ok: "prog_ok K takes fr ?q"
    by (rule prog_ok_goes [OF assms]) (simp add: goes_on_def still_mapped_def poke_mem_def)
  have "sigset_at ?q fr = Some (sigs v)" using ap by (simp add: sigset_at_def)
  from sigismember_number [OF this, of 14] have mem: "sigismember fr SIGALRM ?q = Inr (if ?b then 1 else 0)"
    by (simp add: v(1) SIGALRM_def)
  have len: "length (alarm_text ?b) \<le> 25" by (simp add: alarm_text_def)
  have "p_mem ?q (fr + 16 + of_nat i) \<noteq> None" if "i < length (alarm_text ?b)" for i
  proof -
    have "16 + i \<in> set [0..<128]" using that len by simp
    moreover have "\<forall>j\<in>set [0..<128]. p_mem ?q (fr + of_nat j) \<noteq> None"
      using ok unfolding prog_ok_def list_all_iff by blast
    ultimately have "p_mem ?q (fr + of_nat (16 + i)) \<noteq> None" by blast
    then show ?thesis by (simp add: add.assoc)
  qed
  from st_bytes_stores [of "alarm_text ?b" ?q, OF this] len obtain m where
    m: "st_bytes (fr + 16) (alarm_text ?b) ?q = Inr (?q\<lparr>p_mem := m\<rparr>)" "holds_bytes m (fr + 16) (alarm_text ?b)"
      "still_mapped (p_mem ?q) m" by auto
  have "readable m (errno_at K)" using readable_still [OF m(3)] rd by (simp add: readable_poke_keep)
  then have wr: "\<exists>q. mini_write K 1 (fr + 16) (of_nat (length (alarm_text ?b))) (?q\<lparr>p_mem := m\<rparr>) = Inr (of_nat (length (alarm_text ?b)), q) \<and>
      p_os q = put_out 1 (alarm_text ?b) (p_os p)"
    using write_run [of "?q\<lparr>p_mem := m\<rparr>" 1 "fr + 16" "alarm_text ?b"] m(2) ok len by (simp add: prog_ok_def)
  have "alarm_report K fr (fr + 16) p =
      bnd (mini_write K 1 (fr + 16) (of_nat (length (alarm_text ?b))) (?q\<lparr>p_mem := m\<rparr>)) (\<lambda>(r, p). Inr (0, p))"
    using q mem m(1) by (cases ?b) (simp_all add: alarm_report_def Let_def)
  with wr show ?thesis by (auto simp: out_put sg_put)
qed

text \<open>The three programs. The start that \<open>alarm2\<close> and \<open>alarm3\<close> share: the alarm is blocked.\<close>

lemma alarm_blocked:
  assumes "prog_ok K takes fr p"
  shows "\<exists>p1 p2 r q. sigemptyset fr p = Inr (0, p1) \<and> sigaddset fr SIGALRM p1 = Inr (0, p2) \<and>
    mini_sigprocmask K SIG_BLOCK fr 0 p2 = Inr (r, q) \<and>
    left_with p q ((sg (p_os p))\<lparr>sg_blocked := insert 14 (sg_blocked (sg (p_os p)))\<rparr>)"
proof -
  obtain p1 p2 where s: "sigemptyset fr p = Inr (0, p1)" "sigaddset fr SIGALRM p1 = Inr (0, p2)"
    "sigset_at p2 fr = Some {14}" "p_os p2 = p_os p" "still_mapped (p_mem p) (p_mem p2)"
    using alarm_set [OF prog_ok_words(1) [OF assms]] by blast
  have g: "left_with p p2 (sg (p_os p))" using s(4,5) by (simp add: left_with_def goes_on_def)
  then have "prog_ok K takes fr p2" using prog_ok_goes [OF assms] by (simp add: left_with_def)
  from block_step [OF this s(3)] s(4) obtain r q where "mini_sigprocmask K SIG_BLOCK fr 0 p2 = Inr (r, q)"
    "left_with p2 q ((sg (p_os p))\<lparr>sg_blocked := insert 14 (sg_blocked (sg (p_os p)))\<rparr>)" by auto
  with s(1,2) left_trans [OF g] show ?thesis by blast
qed

lemma left_ok: "prog_ok K takes fr p \<Longrightarrow> left_with p q st \<Longrightarrow> prog_ok K takes fr q \<and> sg (p_os q) = st"
  by (auto simp: left_with_def intro: prog_ok_goes)

lemma alarm1_killed:
  assumes "prog_ok K takes fr p" "14 \<notin> sg_blocked (sg (p_os p))" "sg_action (sg (p_os p)) 14 = SIG_DFL"
    "\<And>t k. (t, k) \<in> set (sg_sent (sg (p_os p))) \<Longrightarrow> sg_clock (sg (p_os p)) + 3000 \<le> t"
  shows "alarm1_main K p = Inl Gone"
proof -
  let ?st = "(sg (p_os p))\<lparr>sg_timer := Some (sg_clock (sg (p_os p)) + 3000)\<rparr>"
  obtain r q where q: "mini_alarm K 3 p = Inr (r, q)" "left_with p q ?st" using alarm_step [OF assms(1), of 3] by auto
  have "reaches 14 (?st\<lparr>sg_timer := None, sg_clock := c\<rparr>)" for c
    using assms(2,3) by (simp add: reaches_def SIG_DFL_def SIG_IGN_def default_ignored_def)
  moreover have "next_signal ?st = Some (sg_clock (sg (p_os p)) + 3000, 14, ?st\<lparr>sg_timer := None\<rparr>)"
    using assms(4) by (fastforce simp: next_signal.simps split: list.split prod.split)
  ultimately have "\<exists>st. wait_until None ?st = Caught 14 st \<and> sg_action st 14 = SIG_DFL"
    using assms(3) by (simp add: wait_until.simps Let_def)
  then have "sysc K 34 [] q = None" using pause_killed [of q 14] q(2) by (auto simp: left_with_def default_stops_def)
  then show ?thesis using q(1) by (simp add: alarm1_main_def mini_pause_def sys_def alarm_numbers)
qed

lemma alarm2_prints:
  assumes "prog_ok K takes fr p"
    "\<And>t k. (t, k) \<in> set (sg_sent (sg (p_os p))) \<Longrightarrow> t \<le> sg_clock (sg (p_os p)) + 5000 \<Longrightarrow>
      \<not> reaches k ((sg (p_os p))\<lparr>sg_blocked := insert 14 (sg_blocked (sg (p_os p)))\<rparr>)"
  shows "\<exists>q. alarm2_main K fr p = Inr (0, q) \<and> sg_clock (sg (p_os q)) = sg_clock (sg (p_os p)) + 5000 \<and>
    out_of (p_os q) = (out_of (p_os p))(1 := out_of (p_os p) 1 @ alarm_text True)"
proof -
  let ?st = "(sg (p_os p))\<lparr>sg_blocked := insert 14 (sg_blocked (sg (p_os p))), sg_timer := Some (sg_clock (sg (p_os p)) + 3000)\<rparr>"
  obtain p1 p2 r1 p3 where s: "sigemptyset fr p = Inr (0, p1)" "sigaddset fr SIGALRM p1 = Inr (0, p2)"
    "mini_sigprocmask K SIG_BLOCK fr 0 p2 = Inr (r1, p3)"
    "left_with p p3 ((sg (p_os p))\<lparr>sg_blocked := insert 14 (sg_blocked (sg (p_os p)))\<rparr>)"
    using alarm_blocked [OF assms(1)] by blast
  from alarm_step [of fr p3 3] left_ok [OF assms(1) s(4)] obtain r2 p4 where
    a: "mini_alarm K 3 p3 = Inr (r2, p4)" "left_with p3 p4 ?st" by auto
  note l = left_trans [OF s(4) a(2)]
  have nr: "\<not> reaches k ?st" if "(t, k) \<in> set (sg_sent ?st)" "t \<le> sg_clock (sg (p_os p)) + 5000" for t k
    using assms(2) [of t k] that by (simp add: reaches_def)
  have "\<exists>st. wait_until (Some (sg_clock (sg (p_os p)) + 5000)) ?st = Elapsed st \<and> 14 \<in> sg_pending st \<and>
      sg_clock st = sg_clock (sg (p_os p)) + 5000"
    by (rule wait_blocked [OF _ nr]) simp_all
  then obtain st where w: "wait_until (Some (sg_clock (sg (p_os p)) + 5000)) ?st = Elapsed st"
    "14 \<in> sg_pending st" "sg_clock st = sg_clock (sg (p_os p)) + 5000" by blast
  have "\<exists>q. sleep_c K (fr + 64) 5 p4 = Inr (0, q) \<and> left_with p4 q st"
    by (rule sleep_step) (use left_ok [OF assms(1) l] w(1) in simp_all)
  then obtain p5 where c: "sleep_c K (fr + 64) 5 p4 = Inr (0, p5)" "left_with p4 p5 st" by blast
  note l5 = left_trans [OF l c(2)]
  from report_step [of fr p5] left_ok [OF assms(1) l5] w(2) obtain q where
    "alarm_report K fr (fr + 16) p5 = Inr (0, q)" "sg (p_os q) = st"
    "out_of (p_os q) = (out_of (p_os p5))(1 := out_of (p_os p5) 1 @ alarm_text True)" by auto
  then show ?thesis using s(1-3) a(1) c(1) l5 w(3) by (simp add: alarm2_main_def left_with_def)
qed

lemma alarm3_prints:
  assumes "prog_ok K takes fr p" "sg_sent (sg (p_os p)) = (t, 2) # later" "2 \<notin> sg_blocked (sg (p_os p))"
    "returns handler" "handler \<noteq> SIG_DFL" "handler \<noteq> SIG_IGN"
  shows "\<exists>q. alarm3_main K handler fr p = Inr (0, q) \<and>
    out_of (p_os q) = (out_of (p_os p))(1 := out_of (p_os p) 1 @ alarm_text (sg_clock (sg (p_os p)) + 1000 \<le> t))"
proof -
  let ?s0 = "sg (p_os p)"
  let ?s1 = "?s0\<lparr>sg_blocked := insert 14 (sg_blocked ?s0)\<rparr>"
  let ?s2 = "?s1\<lparr>sg_action := (sg_action ?s0)(14 := SIG_IGN), sg_pending := sg_pending ?s0 - {14}\<rparr>"
  let ?s3 = "?s2\<lparr>sg_action := (sg_action ?s0)(14 := SIG_IGN, 2 := handler)\<rparr>"
  let ?s4 = "?s3\<lparr>sg_timer := Some (sg_clock ?s0 + 1000)\<rparr>"
  obtain p1 p2 r1 p3 where s: "sigemptyset fr p = Inr (0, p1)" "sigaddset fr SIGALRM p1 = Inr (0, p2)"
    "mini_sigprocmask K SIG_BLOCK fr 0 p2 = Inr (r1, p3)" "left_with p p3 ?s1"
    using alarm_blocked [OF assms(1)] by blast
  have nums: "unat SIGALRM = 14" "unat SIGINT = 2" "SIG_IGN \<noteq> SIG_DFL"
    by (simp_all add: SIGALRM_def SIGINT_def SIG_IGN_def SIG_DFL_def)
  from signal_step [of fr p3 SIGALRM SIG_IGN] left_ok [OF assms(1) s(4)] nums obtain r2 p4 where
    i: "signal K (fr + 64) SIGALRM SIG_IGN p3 = Inr (r2, p4)" "left_with p3 p4 ?s2" by (auto simp: Let_def)
  note l4 = left_trans [OF s(4) i(2)]
  from signal_step [of fr p4 SIGINT handler] left_ok [OF assms(1) l4] nums assms(5,6) obtain r3 p5 where
    h: "signal K (fr + 64) SIGINT handler p4 = Inr (r3, p5)" "left_with p4 p5 ?s3" by (auto simp: Let_def)
  note l5 = left_trans [OF l4 h(2)]
  from alarm_step [of fr p5 1] left_ok [OF assms(1) l5] obtain r4 p6 where
    a: "mini_alarm K 1 p5 = Inr (r4, p6)" "left_with p5 p6 ?s4" by auto
  note l6 = left_trans [OF l5 a(2)]
  have "\<exists>st. wait_until None ?s4 = Caught 2 st \<and> sg_action st 2 = handler \<and> (14 \<in> sg_pending st \<longleftrightarrow> sg_clock ?s0 + 1000 \<le> t)"
    using assms(2,3,5,6)
    by (simp add: wait_until.simps next_signal.simps Let_def reaches_def hold_def default_ignored_def)
  then obtain st where w: "wait_until None ?s4 = Caught 2 st" "sg_action st 2 = handler"
    "14 \<in> sg_pending st \<longleftrightarrow> sg_clock ?s0 + 1000 \<le> t" by blast
  from pause_step [of fr p6 2 st] left_ok [OF assms(1) l6] w(1,2) assms(4) obtain p7 where
    c: "mini_pause K p6 = Inr (- 1, p7)" "left_with p6 p7 st" by auto
  note l7 = left_trans [OF l6 c(2)]
  from report_step [of fr p7] left_ok [OF assms(1) l7] w(3) obtain q where
    "alarm_report K fr (fr + 16) p7 = Inr (0, q)"
    "out_of (p_os q) = (out_of (p_os p7))(1 := out_of (p_os p7) 1 @ alarm_text (sg_clock ?s0 + 1000 \<le> t))" by auto
  then show ?thesis using s(1-3) i(1) h(1) a(1) c(1) l7 by (simp add: alarm3_main_def left_with_def)
qed

end

end
