(* ===== verification/Mini_Asm.thy ===== *)
theory Mini_Asm
  imports Mini
begin

text \<open>
  The assembly half of the library, \<open>project3/libmini64.asm\<close> and \<open>start.asm\<close>: the x86-64 instructions it
  uses, its routines as the files list them, and an interpreter that runs them one instruction at a time
  over the same process and kernel as the C half.
\<close>

subsection \<open>Instructions\<close>

datatype reg = RAX | RBX | RCX | RDX | RSI | RDI | RBP | RSP | R8 | R9 | R10 | R11 | R12 | R13 | R14 | R15

text \<open>
  Operands: a register, an immediate (sign-extended), and the quadword at a register plus a displacement.
  \<open>Mov_got\<close> is \<open>mov r, [rel sym wrt ..gotpcrel]\<close>: the address of the symbol.
\<close>

datatype operand = Reg reg | Imm u64 | Mem reg u64

datatype instr =
    Mov operand operand
  | Mov_got reg string
  | Lea reg reg u64
  | Push operand
  | Pop operand
  | Add_ri reg u64
  | Sub_ri reg u64
  | Neg reg
  | Cmp_ri reg u64
  | Jge string
  | Jne string
  | Jmp string
  | Call string
  | Ret
  | Syscall

datatype item = Label string | Ins instr

subsection \<open>The routines\<close>

definition gensys :: "u64 \<Rightarrow> string \<Rightarrow> item list" where
  "gensys n name =
    [Label (''sys_'' @ name),
     Ins (Push (Reg R10)),
     Ins (Mov (Reg R10) (Reg RCX)),
     Ins (Mov (Reg RAX) (Imm n)),
     Ins Syscall,
     Ins (Pop (Reg R10)),
     Ins Ret]"

definition asm_myrt :: "item list" where
  "asm_myrt = [Label ''__myrt'', Ins (Mov (Reg RAX) (Imm 15)), Ins Syscall, Ins Ret]"

definition asm_setjmp :: "item list" where
  "asm_setjmp =
    [Label ''setjmp'',
     Ins (Mov (Mem RDI (8 * 0)) (Reg RBX)),
     Ins (Mov (Mem RDI (8 * 1)) (Reg RSP)),
     Ins (Mov (Mem RDI (8 * 2)) (Reg RBP)),
     Ins (Mov (Mem RDI (8 * 3)) (Reg R12)),
     Ins (Mov (Mem RDI (8 * 4)) (Reg R13)),
     Ins (Mov (Mem RDI (8 * 5)) (Reg R14)),
     Ins (Mov (Mem RDI (8 * 6)) (Reg R15)),
     Ins (Push (Mem RSP 0)),
     Ins (Pop (Mem RDI (7 * 8))),
     Ins (Push (Reg RDI)),
     Ins (Push (Reg RSI)),
     Ins (Push (Reg RDX)),
     Ins (Push (Reg RCX)),
     Ins (Mov (Reg RDI) (Imm 0)),
     Ins (Mov (Reg RSI) (Imm 0)),
     Ins (Lea RDX RDI (8 * 8)),
     Ins (Mov (Reg RCX) (Imm 8)),
     Ins (Call ''sys_rt_sigprocmask''),
     Ins (Pop (Reg RCX)),
     Ins (Pop (Reg RDX)),
     Ins (Pop (Reg RSI)),
     Ins (Pop (Reg RDI)),
     Ins (Mov (Reg RAX) (Imm 0)),
     Ins Ret]"

definition asm_longjmp :: "item list" where
  "asm_longjmp =
    [Label ''longjmp'',
     Ins (Mov (Reg RBX) (Mem RDI (0 * 8))),
     Ins (Mov (Reg RSP) (Mem RDI (1 * 8))),
     Ins (Mov (Reg RBP) (Mem RDI (2 * 8))),
     Ins (Mov (Reg R12) (Mem RDI (3 * 8))),
     Ins (Mov (Reg R13) (Mem RDI (4 * 8))),
     Ins (Mov (Reg R14) (Mem RDI (5 * 8))),
     Ins (Mov (Reg R15) (Mem RDI (6 * 8))),
     Ins (Push (Mem RDI (7 * 8))),
     Ins (Pop (Mem RSP 0)),
     Ins (Push (Reg RDI)),
     Ins (Push (Reg RSI)),
     Ins (Push (Reg RDX)),
     Ins (Push (Reg RCX)),
     Ins (Lea RSI RDI (8 * 8)),
     Ins (Mov (Reg RDI) (Imm 2)),
     Ins (Mov (Reg RDX) (Imm 0)),
     Ins (Mov (Reg RCX) (Imm 8)),
     Ins (Call ''sys_rt_sigprocmask''),
     Ins (Pop (Reg RCX)),
     Ins (Pop (Reg RDX)),
     Ins (Pop (Reg RSI)),
     Ins (Pop (Reg RDI)),
     Ins (Mov (Reg RAX) (Reg RSI)),
     Ins Ret]"

definition asm_open :: "item list" where
  "asm_open =
    [Label ''open'',
     Ins (Call ''sys_open''),
     Ins (Cmp_ri RAX 0),
     Ins (Jge ''open_success''),
     Label ''open_error'',
     Ins (Neg RAX),
     Ins (Mov_got RDI ''errno''),
     Ins (Mov (Mem RDI 0) (Reg RAX)),
     Ins (Mov (Reg RAX) (Imm (- 1))),
     Ins (Jmp ''open_quit''),
     Label ''open_success'',
     Ins (Mov_got RDI ''errno''),
     Ins (Mov (Mem RDI 0) (Imm 0)),
     Label ''open_quit'',
     Ins Ret]"

definition asm_sleep :: "item list" where
  "asm_sleep =
    [Label ''sleep'',
     Ins (Sub_ri RSP 32),
     Ins (Mov (Mem RSP 0) (Reg RDI)),
     Ins (Mov (Mem RSP 8) (Imm 0)),
     Ins (Mov (Reg RDI) (Reg RSP)),
     Ins (Lea RSI RSP 16),
     Ins (Call ''sys_nanosleep''),
     Ins (Cmp_ri RAX 0),
     Ins (Jge ''sleep_quit''),
     Label ''sleep_error'',
     Ins (Neg RAX),
     Ins (Cmp_ri RAX 4),
     Ins (Jne ''sleep_failed''),
     Label ''sleep_interrupted'',
     Ins (Lea RSI RSP 16),
     Ins (Mov (Reg RAX) (Mem RSI 0)),
     Ins (Jmp ''sleep_quit''),
     Label ''sleep_failed'',
     Ins (Mov (Reg RAX) (Imm 0)),
     Label ''sleep_quit'',
     Ins (Add_ri RSP 32),
     Ins Ret]"

definition asm_start :: "item list" where
  "asm_start =
    [Label ''_start'',
     Ins (Mov (Reg RDI) (Mem RSP 0)),
     Ins (Lea RSI RSP 8),
     Ins (Call ''main''),
     Ins (Mov (Reg RDI) (Reg RAX)),
     Ins (Call ''exit''),
     Ins Ret]"

subsection \<open>The processor\<close>

text \<open>
  \<open>code_at\<close> is the instruction at an address and \<open>sym_addr\<close> the address of a symbol; an instruction takes one
  address. \<open>rflags\<close> is the flags word the \<open>syscall\<close> instruction leaves in \<open>r11\<close>. \<open>sigreturn\<close> is what
  \<open>rt_sigreturn\<close> (number 15) makes of the processor: it does not go on after the instruction but with the
  registers of the signal frame on the stack, program counter included, when there is one.
\<close>

record 'w amd64 =
  c_reg :: "reg \<Rightarrow> u64"
  c_rip :: u64
  c_flags :: "bool \<times> bool \<times> bool"
  c_proc :: "'w proc"

record 'w loaded =
  kern :: "'w unix"
  code_at :: "u64 \<Rightarrow> instr option"
  sym_addr :: "string \<Rightarrow> u64"
  rflags :: "bool \<times> bool \<times> bool \<Rightarrow> u64"
  sigreturn :: "'w amd64 \<Rightarrow> 'w amd64 option"

text \<open>A routine is loaded at an address: its instructions are there and its labels name their places.\<close>

fun placed :: "'w loaded \<Rightarrow> u64 \<Rightarrow> item list \<Rightarrow> bool" where
  "placed E a [] \<longleftrightarrow> True"
| "placed E a (Label l # is) \<longleftrightarrow> sym_addr E l = a \<and> placed E a is"
| "placed E a (Ins i # is) \<longleftrightarrow> code_at E a = Some i \<and> placed E (a + 1) is"

definition put_reg :: "reg \<Rightarrow> u64 \<Rightarrow> 'w amd64 \<Rightarrow> 'w amd64" where
  "put_reg r v s = s\<lparr>c_reg := (c_reg s)(r := v)\<rparr>"

fun rd :: "operand \<Rightarrow> 'w amd64 \<Rightarrow> mini_stop + u64" where
  "rd (Reg r) s = Inr (c_reg s r)"
| "rd (Imm v) s = Inr v"
| "rd (Mem r d) s = ld8 (c_reg s r + d) (c_proc s)"

fun wr :: "operand \<Rightarrow> u64 \<Rightarrow> 'w amd64 \<Rightarrow> mini_stop + 'w amd64" where
  "wr (Reg r) v s = Inr (put_reg r v s)"
| "wr (Imm i) v s = Inl Ub"
| "wr (Mem r d) v s = bnd (st8 (c_reg s r + d) v (c_proc s)) (\<lambda>p. Inr (s\<lparr>c_proc := p\<rparr>))"

text \<open>The stack. \<open>pop\<close> to memory addresses it with the stack pointer already moved.\<close>

definition push :: "u64 \<Rightarrow> 'w amd64 \<Rightarrow> mini_stop + 'w amd64" where
  "push v s = (let a = c_reg s RSP - 8 in
     bnd (st8 a v (c_proc s)) (\<lambda>p. Inr (put_reg RSP a (s\<lparr>c_proc := p\<rparr>))))"

definition pop :: "'w amd64 \<Rightarrow> mini_stop + u64 \<times> 'w amd64" where
  "pop s = bnd (ld8 (c_reg s RSP) (c_proc s)) (\<lambda>v. Inr (v, put_reg RSP (c_reg s RSP + 8) s))"

text \<open>Zero, sign and overflow flags of a result.\<close>

definition flags_of :: "u64 \<Rightarrow> int \<Rightarrow> bool \<times> bool \<times> bool" where
  "flags_of r exact = (r = 0, sint r < 0, sint r \<noteq> exact)"

fun exec :: "'w loaded \<Rightarrow> instr \<Rightarrow> 'w amd64 \<Rightarrow> mini_stop + 'w amd64" where
  "exec E (Mov d x) s = bnd (rd x s) (\<lambda>v. wr d v s)"
| "exec E (Mov_got r nm) s = Inr (put_reg r (if nm = ''errno'' then errno_at (kern E) else sym_addr E nm) s)"
| "exec E (Lea r b d) s = Inr (put_reg r (c_reg s b + d) s)"
| "exec E (Push x) s = bnd (rd x s) (\<lambda>v. push v s)"
| "exec E (Pop d) s = bnd (pop s) (\<lambda>(v, s). wr d v s)"
| "exec E (Add_ri r v) s =
     (let x = c_reg s r in Inr (put_reg r (x + v) (s\<lparr>c_flags := flags_of (x + v) (sint x + sint v)\<rparr>)))"
| "exec E (Sub_ri r v) s =
     (let x = c_reg s r in Inr (put_reg r (x - v) (s\<lparr>c_flags := flags_of (x - v) (sint x - sint v)\<rparr>)))"
| "exec E (Neg r) s =
     (let x = c_reg s r in Inr (put_reg r (- x) (s\<lparr>c_flags := flags_of (- x) (- sint x)\<rparr>)))"
| "exec E (Cmp_ri r v) s =
     (let x = c_reg s r in Inr (s\<lparr>c_flags := flags_of (x - v) (sint x - sint v)\<rparr>))"
| "exec E (Jge l) s = (case c_flags s of (z, sf, ov) \<Rightarrow> Inr (if sf = ov then s\<lparr>c_rip := sym_addr E l\<rparr> else s))"
| "exec E (Jne l) s = (case c_flags s of (z, sf, ov) \<Rightarrow> Inr (if \<not> z then s\<lparr>c_rip := sym_addr E l\<rparr> else s))"
| "exec E (Jmp l) s = Inr (s\<lparr>c_rip := sym_addr E l\<rparr>)"
| "exec E (Call l) s = bnd (push (c_rip s) s) (\<lambda>s. Inr (s\<lparr>c_rip := sym_addr E l\<rparr>))"
| "exec E Ret s = bnd (pop s) (\<lambda>(v, s). Inr (s\<lparr>c_rip := v\<rparr>))"
| "exec E Syscall s =
     (let n = c_reg s RAX in
      if n = 15 then (case sigreturn E s of None \<Rightarrow> Inl Gone | Some t \<Rightarrow> Inr t)
      else case sysc (kern E) n (take (sys_arity n) (map (c_reg s) [RDI, RSI, RDX, R10, R8, R9])) (c_proc s) of
        None \<Rightarrow> Inl Gone
      | Some (ret, p) \<Rightarrow>
          Inr (put_reg RAX ret (put_reg RCX (c_rip s) (put_reg R11 (rflags E (c_flags s)) (s\<lparr>c_proc := p\<rparr>)))))"

definition asm_step :: "'w loaded \<Rightarrow> 'w amd64 \<Rightarrow> mini_stop + 'w amd64" where
  "asm_step E s = (case code_at E (c_rip s) of None \<Rightarrow> Inl Elsewhere | Some i \<Rightarrow> exec E i (s\<lparr>c_rip := c_rip s + 1\<rparr>))"

text \<open>\<open>n\<close> instructions.\<close>

primrec run_asm :: "nat \<Rightarrow> 'w loaded \<Rightarrow> 'w amd64 \<Rightarrow> mini_stop + 'w amd64" where
  "run_asm 0 E s = Inr s"
| "run_asm (Suc n) E s = bnd (asm_step E s) (run_asm n E)"

end
