(* ===== verification/Mini_Run.thy ===== *)
theory Mini_Run
  imports Mini_Asm
begin

text \<open>
  Runs of the assembly routines: what a stub of \<open>gensys\<close> does around the system call, and the
  equivalence of \<open>open\<close> and \<open>sleep\<close> with their C descriptions, and what \<open>_start\<close> and \<open>__myrt\<close> call.
\<close>

lemma run_asm_add: "run_asm (m + n) E s = bnd (run_asm m E s) (run_asm n E)"
proof (induction m arbitrary: s)
  case (Suc m)
  then show ?case by (cases "asm_step E s") simp_all
qed simp

lemma placed_append: "placed E a (xs @ ys) \<longleftrightarrow>
    placed E a xs \<and> placed E (a + of_nat (length (filter (\<lambda>x. case x of Ins i \<Rightarrow> True | Label l \<Rightarrow> False) xs))) ys"
proof (induction xs arbitrary: a)
  case (Cons x xs)
  then show ?case by (cases x) (simp_all add: algebra_simps)
qed simp

text \<open>The interpreter on a routine whose instructions are known.\<close>

lemmas cpu_simps = asm_step_def put_reg_def push_def pop_def Let_def ld8_def st8_def readable_poke_keep

lemma gensys_run:
  assumes "placed E a (gensys n name)" "c_rip s = a" "c_reg s RSP = sp" "readable (p_mem (c_proc s)) (sp - 8)"
    "sysc (kern E) n (take (sys_arity n) [c_reg s RDI, c_reg s RSI, c_reg s RDX, c_reg s RCX, c_reg s R8, c_reg s R9])
       ((c_proc s)\<lparr>p_mem := poke_mem (p_mem (c_proc s)) (sp - 8) (c_reg s R10)\<rparr>) = Some (ret, p)"
    "peek_mem (p_mem p) (sp - 8) = Some (c_reg s R10)" "peek_mem (p_mem p) sp = Some back" "n \<noteq> 15"
  shows "run_asm 6 E s = Inr (s\<lparr>c_reg := (c_reg s)(RAX := ret, RCX := a + 4, R11 := rflags E (c_flags s), RSP := sp + 8),
    c_rip := back, c_proc := p\<rparr>)"
  using assms by (cases s) (simp add: gensys_def cpu_simps eval_nat_numeral fun_eq_iff)

text \<open>The process as the kernel sees it from a stub called with the return address \<open>back\<close>.\<close>

definition in_stub :: "'w amd64 \<Rightarrow> u64 \<Rightarrow> 'w proc" where
  "in_stub s back = (c_proc s)\<lparr>p_mem :=
     poke_mem (poke_mem (p_mem (c_proc s)) (c_reg s RSP - 8) back) (c_reg s RSP - 16) (c_reg s R10)\<rparr>"

lemma sys_arities: "sys_arity 2 = 3" "sys_arity 35 = 2" "sys_arity 14 = 4"
  by code_simp+

lemma apart8_step: "apart8 x (x - 8)" "apart8 (x - 8) x"
  by (simp_all add: apart8_def word_le_nat_alt)

text \<open>\<open>call\<close> of a stub and its return to the instruction after it: seven instructions.\<close>

lemma call_stub:
  assumes "code_at E (c_rip s) = Some (Call (''sys_'' @ name))" "placed E b (gensys n name)"
    "readable (p_mem (c_proc s)) (c_reg s RSP - 8)" "readable (p_mem (c_proc s)) (c_reg s RSP - 16)"
    "sysc (kern E) n (take (sys_arity n) [c_reg s RDI, c_reg s RSI, c_reg s RDX, c_reg s RCX, c_reg s R8, c_reg s R9])
       (in_stub s (c_rip s + 1)) = Some (ret, p)"
    "peek_mem (p_mem p) (c_reg s RSP - 16) = Some (c_reg s R10)"
    "peek_mem (p_mem p) (c_reg s RSP - 8) = Some (c_rip s + 1)" "n \<noteq> 15"
  shows "run_asm 7 E s = Inr (s\<lparr>c_reg := (c_reg s)(RAX := ret, RCX := b + 4, R11 := rflags E (c_flags s)),
    c_rip := c_rip s + 1, c_proc := p\<rparr>)"
proof -
  let ?s = "s\<lparr>c_proc := (c_proc s)\<lparr>p_mem := poke_mem (p_mem (c_proc s)) (c_reg s RSP - 8) (c_rip s + 1)\<rparr>,
    c_reg := (c_reg s)(RSP := c_reg s RSP - 8), c_rip := b\<rparr>"
  have b: "sym_addr E (''sys_'' @ name) = b" using assms(2) by (simp add: gensys_def)
  have "run_asm 1 E s = Inr ?s"
    using assms(1,3) by (cases s) (simp add: b [simplified] cpu_simps)
  moreover have "run_asm 6 E ?s = Inr (?s\<lparr>c_reg := (c_reg ?s)(RAX := ret, RCX := b + 4, R11 := rflags E (c_flags ?s),
      RSP := c_reg s RSP - 8 + 8), c_rip := c_rip s + 1, c_proc := p\<rparr>)"
    by (rule gensys_run [OF assms(2)]) (use assms in \<open>simp_all add: in_stub_def readable_poke_keep\<close>)
  ultimately show ?thesis
    using run_asm_add [of 1 6 E s] by (cases s) (simp add: fun_eq_iff)
qed

subsection \<open>\<open>open\<close>\<close>

lemma open_run:
  assumes "placed E a asm_open" "placed E b (gensys 2 ''open'')" "c_rip s = a"
    "readable (p_mem (c_proc s)) (c_reg s RSP - 8)" "readable (p_mem (c_proc s)) (c_reg s RSP - 16)"
    "sysc (kern E) 2 [c_reg s RDI, c_reg s RSI, c_reg s RDX] (in_stub s (a + 1)) = Some (ret, p)"
    "peek_mem (p_mem p) (c_reg s RSP - 16) = Some (c_reg s R10)"
    "peek_mem (p_mem p) (c_reg s RSP - 8) = Some (a + 1)" "peek_mem (p_mem p) (c_reg s RSP) = Some back"
    "readable (p_mem p) (errno_at (kern E))" "apart8 (errno_at (kern E)) (c_reg s RSP)"
  shows "\<exists>n s'. run_asm n E s = Inr s' \<and> c_rip s' = back \<and> c_reg s' RSP = c_reg s RSP + 8 \<and>
    retval (kern E) (ret, p) = Inr (c_reg s' RAX, c_proc s') \<and>
    (\<forall>r\<in>{RBX, RBP, R12, R13, R14, R15}. c_reg s' r = c_reg s r)"
proof -
  let ?s = "s\<lparr>c_reg := (c_reg s)(RAX := ret, RCX := b + 4, R11 := rflags E (c_flags s)), c_rip := a + 1, c_proc := p\<rparr>"
  have "run_asm 7 E s = Inr ?s"
    using call_stub [of E s "''open''" b 2 ret p] assms by (simp add: asm_open_def sys_arities)
  then have r: "run_asm (7 + n) E s = run_asm n E ?s" for n by (simp add: run_asm_add)
  show ?thesis
  proof (cases "sint ret < 0")
    case True
    show ?thesis
      by (rule exI [of _ "7 + 8"], unfold r)
        (use assms True in \<open>simp add: asm_open_def cpu_simps eval_nat_numeral flags_of_def retval_def poke_mem_twice\<close>)
  next
    case False
    show ?thesis
      by (rule exI [of _ "7 + 5"], unfold r)
        (use assms False in \<open>simp add: asm_open_def cpu_simps eval_nat_numeral flags_of_def retval_def\<close>)
  qed
qed

subsection \<open>\<open>sleep\<close>\<close>

lemma sysno_nanosleep: "sysno ''nanosleep'' = 35"
  by code_simp

text \<open>The state in which \<open>sleep\<close> calls its stub, and what the C function has written by then.\<close>

definition sleep_call :: "u64 \<Rightarrow> 'w amd64 \<Rightarrow> 'w amd64" where
  "sleep_call a s = (let sp = c_reg s RSP in
     s\<lparr>c_flags := flags_of (sp - 32) (sint sp - 32),
       c_reg := (c_reg s)(RSP := sp - 32, RDI := sp - 32, RSI := sp - 16), c_rip := a + 5,
       c_proc := (c_proc s)\<lparr>p_mem := poke_mem (poke_mem (p_mem (c_proc s)) (sp - 32) (c_reg s RDI)) (sp - 24) 0\<rparr>\<rparr>)"

definition sleep_frame :: "u64 \<Rightarrow> 'w amd64 \<Rightarrow> 'w proc" where
  "sleep_frame a s = (c_proc s)\<lparr>p_mem :=
     poke_mem (poke_mem (p_mem (c_proc s)) (c_reg s RSP - 40) (a + 6)) (c_reg s RSP - 48) (c_reg s R10)\<rparr>"

lemma sleep_call_run:
  assumes "placed E a asm_sleep" "c_rip s = a"
    "readable (p_mem (c_proc s)) (c_reg s RSP - 32)" "readable (p_mem (c_proc s)) (c_reg s RSP - 24)"
  shows "run_asm 5 E s = Inr (sleep_call a s)"
  using assms
  by (cases s) (simp add: asm_sleep_def cpu_simps eval_nat_numeral sleep_call_def fun_eq_iff)

lemma apart8_below: "apart8 (x - 40) (x - 32)" "apart8 (x - 40) (x - 24)" "apart8 (x - 48) (x - 32)" "apart8 (x - 48) (x - 24)"
  by (simp_all add: apart8_def word_le_nat_alt)

lemma poke_swap:
  assumes "apart8 a c" "apart8 a d" "apart8 b c" "apart8 b d"
  shows "poke_mem (poke_mem (poke_mem (poke_mem m a v) b w) c x) d y =
    poke_mem (poke_mem (poke_mem (poke_mem m c x) d y) a v) b w"
  by (simp only: assms [THEN poke_commute])

lemma sleep_sees:
  "(sleep_frame a s)\<lparr>p_mem := poke_mem (poke_mem (p_mem (sleep_frame a s)) (c_reg s RSP - 32) (c_reg s RDI))
      (c_reg s RSP - 24) 0\<rparr> = in_stub (sleep_call a s) (a + 6)"
  by (simp add: sleep_frame_def in_stub_def sleep_call_def Let_def poke_swap apart8_below)

lemma sleep_run:
  fixes s :: "'w amd64"
  defines "sp \<equiv> c_reg s RSP"
  assumes "placed E a asm_sleep" "placed E b (gensys 35 ''nanosleep'')" "c_rip s = a" "c_reg s RDI = ucast secs"
    "\<And>d. d \<in> {24, 32, 40, 48} \<Longrightarrow> readable (p_mem (c_proc s)) (sp - d)"
    "sysc (kern E) 35 [sp - 32, sp - 16] (in_stub (sleep_call a s) (a + 6)) = Some (ret, p)"
    "peek_mem (p_mem p) (sp - 48) = Some (c_reg s R10)"
    "peek_mem (p_mem p) (sp - 40) = Some (a + 6)" "peek_mem (p_mem p) sp = Some back"
    "peek_mem (p_mem p) (sp - 16) = Some left"
  shows "\<exists>n s'. run_asm n E s = Inr s' \<and> c_rip s' = back \<and> c_reg s' RSP = sp + 8 \<and>
    sleep_c (kern E) (sp - 32) secs (sleep_frame a s) = Inr (ucast (c_reg s' RAX), c_proc s') \<and>
    (\<forall>r\<in>{RBX, RBP, R12, R13, R14, R15}. c_reg s' r = c_reg s r)"
proof -
  let ?c = "sleep_call a s"
  let ?s = "?c\<lparr>c_reg := (c_reg ?c)(RAX := ret, RCX := b + 4, R11 := rflags E (c_flags ?c)), c_rip := a + 6, c_proc := p\<rparr>"
  have rd: "readable (p_mem (c_proc s)) (sp - 24)" "readable (p_mem (c_proc s)) (sp - 32)"
    "readable (p_mem (c_proc s)) (sp - 40)" "readable (p_mem (c_proc s)) (sp - 48)"
    using assms(6) by simp_all
  have c: "c_rip ?c = a + 5" "c_reg ?c RSP = sp - 32" "c_reg ?c RDI = sp - 32" "c_reg ?c RSI = sp - 16"
    "c_reg ?c R10 = c_reg s R10" "readable (p_mem (c_proc ?c)) (sp - 40)" "readable (p_mem (c_proc ?c)) (sp - 48)"
    using rd by (simp_all add: sleep_call_def sp_def Let_def readable_poke_keep)
  have n: "(35 :: u64) \<noteq> 15" by simp
  have "run_asm 7 E ?c = Inr ?s"
    using call_stub [of E ?c "''nanosleep''" b 35 ret p, OF _ _ _ _ _ _ _ n] assms(2,3,7-9) c
    by (simp add: asm_sleep_def sys_arities add.commute)
  moreover have "run_asm 5 E s = Inr ?c"
    using sleep_call_run [of E a s] assms(2,4) rd unfolding sp_def by blast
  ultimately have r: "run_asm (12 + n) E s = run_asm n E ?s" for n
    using run_asm_add [of 5 "7 + n" E s] by (simp add: run_asm_add)
  have fr: "readable (p_mem (sleep_frame a s)) (sp - 24)" "readable (p_mem (sleep_frame a s)) (sp - 32)"
    using rd by (simp_all add: sleep_frame_def readable_poke_keep)
  have k: "sleep_c (kern E) (sp - 32) secs (sleep_frame a s) =
      (if 0 \<le> sint ret then Inr (ucast ret, p) else if ret = - EINTR then Inr (ucast left, p) else Inr (0, p))"
    using fr assms(5,7,11) sleep_sees [of a s, folded sp_def]
    by (simp add: sleep_c_def Let_def st8_def sys_def sysno_nanosleep ld8_def readable_poke_keep)
  note e = asm_sleep_def cpu_simps eval_nat_numeral flags_of_def sleep_call_def sp_def EINTR_def k [unfolded sp_def] add.commute
  have four: "- ret - 4 = 0 \<longleftrightarrow> ret = - 4"
    by (metis add.inverse_inverse eq_iff_diff_eq_0)
  consider "0 \<le> sint ret" | "sint ret < 0" "ret = - 4" | "sint ret < 0" "ret \<noteq> - 4" by linarith
  then show ?thesis
  proof cases
    case 1
    show ?thesis
      by (rule exI [of _ "12 + 4"], unfold r) (use assms(2,10) 1 in \<open>simp add: e\<close>)
  next
    case 2
    show ?thesis
      by (rule exI [of _ "12 + 10"], unfold r) (use assms(2,10,11) 2 four in \<open>simp add: e\<close>)
  next
    case 3
    show ?thesis
      by (rule exI [of _ "12 + 8"], unfold r) (use assms(2,10) 3 four in \<open>simp add: e\<close>)
  qed
qed

subsection \<open>\<open>_start\<close>\<close>

text \<open>
  The program is entered with the argument count on top of the stack and the vector above it: \<open>main\<close> is
  called with both, and \<open>exit\<close> with what \<open>main\<close> returns.
\<close>

lemma start_calls_main:
  assumes "placed E a asm_start" "c_rip s = a" "peek_mem (p_mem (c_proc s)) (c_reg s RSP) = Some argc"
    "readable (p_mem (c_proc s)) (c_reg s RSP - 8)"
  shows "\<exists>q. run_asm 3 E s = Inr q \<and> c_rip q = sym_addr E ''main'' \<and> c_reg q RDI = argc \<and> c_reg q RSI = c_reg s RSP + 8 \<and>
    c_reg q RSP = c_reg s RSP - 8 \<and> peek_mem (p_mem (c_proc q)) (c_reg q RSP) = Some (a + 3)"
  using assms by (cases s) (simp add: asm_start_def cpu_simps eval_nat_numeral)

lemma start_calls_exit:
  assumes "placed E a asm_start" "c_rip t = a + 3" "readable (p_mem (c_proc t)) (c_reg t RSP - 8)"
  shows "\<exists>q. run_asm 2 E t = Inr q \<and> c_rip q = sym_addr E ''exit'' \<and> c_reg q RDI = c_reg t RAX"
  using assms by (cases t) (simp add: asm_start_def cpu_simps eval_nat_numeral add.commute)

text \<open>
  The return from a handler: \<open>__myrt\<close> asks for number 15 with the stack and the registers as it got them, and
  what comes after is the processor of the signal frame; its \<open>ret\<close> is not reached.
\<close>

lemma myrt_asks:
  assumes "placed E a asm_myrt" "c_rip s = a"
  shows "run_asm 2 E s =
    (case sigreturn E (s\<lparr>c_reg := (c_reg s)(RAX := 15), c_rip := a + 2\<rparr>) of None \<Rightarrow> Inl Gone | Some t \<Rightarrow> Inr t)"
  using assms by (cases s) (simp add: asm_myrt_def cpu_simps eval_nat_numeral add.commute split: option.split)

end
