(* ===== verification/Mini_Jump.thy ===== *)
theory Mini_Jump
  imports Mini_Run
begin

text \<open>
  \<open>setjmp\<close> and \<open>longjmp\<close> of \<open>libmini64.asm\<close> over a kernel with a signal mask: what the jump buffer holds
  after the one, where the other goes, and what becomes of the mask.
\<close>

subsection \<open>The jump buffer and the stack\<close>

text \<open>The eight words \<open>reg\<close> of a \<open>jmp_buf\<close>; its \<open>mask\<close> is the word at offset 64.\<close>

definition jmp_words :: "memory \<Rightarrow> u64 \<Rightarrow> u64 option list" where
  "jmp_words m buf = map (\<lambda>d. peek_mem m (buf + d)) [0, 8, 16, 24, 32, 40, 48, 56]"

text \<open>
  The stack the two routines use: the return address at \<open>sp\<close> and six words below it, mapped and away
  from the buffer.
\<close>

definition stack_ok :: "memory \<Rightarrow> u64 \<Rightarrow> bool" where
  "stack_ok m sp \<longleftrightarrow> list_all (\<lambda>d. readable m (sp - d)) [0, 8, 16, 24, 32, 40, 48]"

definition off_stack :: "u64 \<Rightarrow> u64 \<Rightarrow> bool" where
  "off_stack buf sp \<longleftrightarrow>
     list_all (\<lambda>j. list_all (\<lambda>d. apart8 (buf + j) (sp - d)) [0, 8, 16, 24, 32, 40, 48])
       [0, 8, 16, 24, 32, 40, 48, 56, 64]"

lemma off_stack_both:
  assumes "off_stack buf sp"
  shows "list_all (\<lambda>j. list_all (\<lambda>d. apart8 (buf + j) (sp - d) \<and> apart8 (sp - d) (buf + j))
      [0, 8, 16, 24, 32, 40, 48]) [0, 8, 16, 24, 32, 40, 48, 56, 64]"
  using assms by (simp only: off_stack_def apart8_sym [of "sp - _"] simp_thms) 

lemma poke_unmapped: "readable m a \<Longrightarrow> m x = None \<Longrightarrow> poke_mem m a v x = None"
  by (auto simp: poke_mem_def readable_iff in_word_iff)

text \<open>Memory that differs from \<open>m\<close> in the words at \<open>ws\<close> at most, the same bytes mapped.\<close>

definition same_off :: "u64 list \<Rightarrow> memory \<Rightarrow> memory \<Rightarrow> bool" where
  "same_off ws m m' \<longleftrightarrow> (\<forall>x. m' x = None \<longleftrightarrow> m x = None) \<and> (\<forall>x. (\<forall>a\<in>set ws. 8 \<le> unat (x - a)) \<longrightarrow> m' x = m x)"

lemma same_off_refl [simp]: "same_off ws m m"
  by (simp add: same_off_def)

lemma same_off_trans: "same_off ws m m' \<Longrightarrow> same_off ws m' m'' \<Longrightarrow> same_off ws m m''"
  by (simp add: same_off_def)

lemma same_off_mono: "same_off ws m m' \<Longrightarrow> set ws \<subseteq> set vs \<Longrightarrow> same_off vs m m'"
  unfolding same_off_def by blast

lemma same_off_poke: "a \<in> set ws \<Longrightarrow> readable m' a \<Longrightarrow> same_off ws m (poke_mem m' a v) \<longleftrightarrow> same_off ws m m'"
proof -
  assume a: "a \<in> set ws" "readable m' a"
  then have "m' x \<noteq> None" if "unat (x - a) < 8" for x
    using that in_word_iff [of x a] by (auto simp: readable_iff)
  then have "poke_mem m' a v x = None \<longleftrightarrow> m' x = None" for x by (simp add: poke_mem_def)
  moreover have "poke_mem m' a v x = m' x" if "\<forall>a\<in>set ws. 8 \<le> unat (x - a)" for x
    using that a(1) by (auto simp: poke_mem_def)
  ultimately show ?thesis by (simp add: same_off_def)
qed

lemma same_off_readable: "same_off ws m m' \<Longrightarrow> readable m' a = readable m a"
  by (simp add: same_off_def readable_iff del: not_None_eq)

lemma same_off_byte: "same_off ws m m' \<Longrightarrow> (\<And>a. a \<in> set ws \<Longrightarrow> 8 \<le> unat (x - a)) \<Longrightarrow> m' x = m x"
  by (simp add: same_off_def)

lemma same_off_none: "same_off ws m m' \<Longrightarrow> m' x = None \<longleftrightarrow> m x = None"
  by (simp add: same_off_def)

lemma same_off_peek:
  assumes "same_off ws m m'" "\<And>a. a \<in> set ws \<Longrightarrow> apart8 a b"
  shows "peek_mem m' b = peek_mem m b"
proof -
  have "m' (b + of_nat i) = m (b + of_nat i)" if "i < 8" for i
    using same_off_byte [OF assms(1)] assms(2) apart8_bytes [OF _ that] by (meson not_le)
  then have "map (\<lambda>i. the (m' (b + of_nat i))) [0..<8] = map (\<lambda>i. the (m (b + of_nat i))) [0..<8]" by simp
  then show ?thesis using same_off_readable [OF assms(1)] by (simp only: peek_mem_def)
qed

text \<open>The words of the buffer that \<open>setjmp\<close> writes, and those of the stack.\<close>

abbreviation jb_words :: "u64 \<Rightarrow> u64 list" where
  "jb_words buf \<equiv> map (\<lambda>d. buf + d) [0, 8, 16, 24, 32, 40, 48, 56]"

abbreviation stack_words :: "u64 \<Rightarrow> u64 list" where
  "stack_words sp \<equiv> map (\<lambda>d. sp - d) [0, 8, 16, 24, 32, 40, 48]"

subsection \<open>\<open>setjmp\<close>\<close>

lemma setjmp_saves:
  fixes s :: "'w amd64"
  defines "sp \<equiv> c_reg s RSP" and "buf \<equiv> c_reg s RDI"
  assumes "placed E a asm_setjmp" "c_rip s = a" "stack_ok (p_mem (c_proc s)) sp" "off_stack buf sp"
    "list_all (\<lambda>d. readable (p_mem (c_proc s)) (buf + d)) [0, 8, 16, 24, 32, 40, 48, 56]"
    "peek_mem (p_mem (c_proc s)) sp = Some back" "peek_mem (p_mem (c_proc s)) (buf + 64) = Some old"
  shows "\<exists>q. run_asm 17 E s = Inr q \<and> c_rip q = a + 17 \<and> c_flags q = c_flags s \<and>
    c_reg q = (c_reg s)(RSP := sp - 32, RDI := 0, RSI := 0, RDX := 64, RCX := 8) \<and>
    p_os (c_proc q) = p_os (c_proc s) \<and> (\<forall>x. p_mem (c_proc s) x = None \<longrightarrow> p_mem (c_proc q) x = None) \<and>
    stack_ok (p_mem (c_proc q)) sp \<and>
    jmp_words (p_mem (c_proc q)) buf = map Some [c_reg s RBX, sp, c_reg s RBP, c_reg s R12, c_reg s R13, c_reg s R14,
      c_reg s R15, back] \<and>
    peek_mem (p_mem (c_proc q)) (buf + 64) = Some old \<and>
    map (\<lambda>d. peek_mem (p_mem (c_proc q)) (sp - d)) [0, 8, 16, 24, 32] =
      map Some [back, buf, c_reg s RSI, c_reg s RDX, c_reg s RCX] \<and>
    same_off (jb_words buf @ stack_words sp) (p_mem (c_proc s)) (p_mem (c_proc q))"
  using assms(3-9) off_stack_both [OF assms(6)]
  by (simp add: asm_setjmp_def cpu_simps eval_nat_numeral sp_def buf_def stack_ok_def)
    (simp add: fun_eq_iff apart8_same_base word_le_nat_alt jmp_words_def poke_unmapped readable_poke_keep same_off_poke)

text \<open>The last seven instructions of both routines: the four registers come back and the call returns.\<close>

lemma setjmp_returns:
  assumes "placed E a asm_setjmp" "c_rip q = a + 18" "c_reg q RSP = sp - 32"
    "map (\<lambda>d. peek_mem (p_mem (c_proc q)) (sp - d)) [0, 8, 16, 24, 32] = map Some [back, di, si, dx, cx]"
  shows "run_asm 6 E q = Inr (q\<lparr>c_reg := (c_reg q)(RCX := cx, RDX := dx, RSI := si, RDI := di, RAX := 0, RSP := sp + 8),
    c_rip := back\<rparr>)"
  using assms by (cases q) (simp add: asm_setjmp_def cpu_simps eval_nat_numeral fun_eq_iff add.commute)

subsection \<open>\<open>longjmp\<close>\<close>

lemma longjmp_loads:
  fixes t :: "'w amd64"
  defines "buf \<equiv> c_reg t RDI"
  assumes "placed E a asm_longjmp" "c_rip t = a" "stack_ok (p_mem (c_proc t)) sp" "off_stack buf sp"
    "jmp_words (p_mem (c_proc t)) buf = map Some [x0, sp, x2, x3, x4, x5, x6, back]"
    "peek_mem (p_mem (c_proc t)) (buf + 64) = Some old"
  shows "\<exists>q. run_asm 17 E t = Inr q \<and> c_rip q = a + 17 \<and>
    c_reg q = (c_reg t)(RBX := x0, RBP := x2, R12 := x3, R13 := x4, R14 := x5, R15 := x6,
      RSP := sp - 32, RSI := buf + 64, RDI := 2, RDX := 0, RCX := 8) \<and>
    p_os (c_proc q) = p_os (c_proc t) \<and> stack_ok (p_mem (c_proc q)) sp \<and>
    peek_mem (p_mem (c_proc q)) (buf + 64) = Some old \<and>
    map (\<lambda>d. peek_mem (p_mem (c_proc q)) (sp - d)) [0, 8, 16, 24, 32] =
      map Some [back, buf, c_reg t RSI, c_reg t RDX, c_reg t RCX] \<and>
    same_off (stack_words sp) (p_mem (c_proc t)) (p_mem (c_proc q))"
  using assms(2-7) off_stack_both [OF assms(5)]
  by (simp add: asm_longjmp_def cpu_simps eval_nat_numeral buf_def stack_ok_def jmp_words_def)
    (simp add: fun_eq_iff apart8_same_base word_le_nat_alt readable_poke_keep same_off_poke)

lemma longjmp_returns:
  assumes "placed E a asm_longjmp" "c_rip q = a + 18" "c_reg q RSP = sp - 32"
    "map (\<lambda>d. peek_mem (p_mem (c_proc q)) (sp - d)) [0, 8, 16, 24, 32] = map Some [back, di, si, dx, cx]"
  shows "run_asm 6 E q = Inr (q\<lparr>c_reg := (c_reg q)(RCX := cx, RDX := dx, RSI := si, RDI := di, RAX := si, RSP := sp + 8),
    c_rip := back\<rparr>)"
  using assms by (cases q) (simp add: asm_longjmp_def cpu_simps eval_nat_numeral fun_eq_iff add.commute)

subsection \<open>A kernel with a signal mask\<close>

text \<open>
  What \<open>rt_sigprocmask(2)\<close> documents, for a process with no signal about to be delivered: a null new set
  leaves the mask, an old set that is not mapped is \<open>EFAULT\<close>, and \<open>SIG_SETMASK\<close> installs the new set
  without the two signals that cannot be blocked (\<open>SIGKILL\<close>, 9, and \<open>SIGSTOP\<close>, 19).
\<close>

definition unblockable :: u64 where "unblockable = 0x40100"

locale mask_kernel =
  fixes K :: "'w unix" and mask_of :: "'w \<Rightarrow> u64" and set_mask :: "u64 \<Rightarrow> 'w \<Rightarrow> 'w" and quiet :: "'w \<Rightarrow> bool"
  assumes query: "quiet (p_os p) \<Longrightarrow> readable (p_mem p) oset \<Longrightarrow> oset \<noteq> 0 \<Longrightarrow>
      sysc K 14 [0, 0, oset, 8] p = Some (0, p\<lparr>p_mem := poke_mem (p_mem p) oset (mask_of (p_os p))\<rparr>)"
    and query_fault: "quiet (p_os p) \<Longrightarrow> \<forall>i<8. p_mem p (oset + of_nat i) = None \<Longrightarrow> oset \<noteq> 0 \<Longrightarrow>
      sysc K 14 [0, 0, oset, 8] p = Some (- 14, p)"
    and install: "quiet (p_os p) \<Longrightarrow> peek_mem (p_mem p) nset = Some v \<Longrightarrow> nset \<noteq> 0 \<Longrightarrow>
      sysc K 14 [2, nset, 0, 8] p = Some (0, p\<lparr>p_os := set_mask (v AND NOT unblockable) (p_os p)\<rparr>)"
    and mask_set: "mask_of (set_mask v w) = v"
begin

lemma setjmp_run:
  assumes "kern E = K" "placed E a asm_setjmp" "placed E b (gensys 14 ''rt_sigprocmask'')" "c_rip s = a"
    "c_reg s RSP = sp" "c_reg s RDI = buf" "stack_ok (p_mem (c_proc s)) sp" "off_stack buf sp"
    "list_all (\<lambda>d. readable (p_mem (c_proc s)) (buf + d)) [0, 8, 16, 24, 32, 40, 48, 56]"
    "peek_mem (p_mem (c_proc s)) sp = Some back" "peek_mem (p_mem (c_proc s)) (buf + 64) = Some old"
    "quiet (p_os (c_proc s))" "\<forall>i<8. p_mem (c_proc s) (64 + of_nat i) = None"
  shows "\<exists>q. run_asm 30 E s = Inr q \<and> c_rip q = back \<and> c_reg q RSP = sp + 8 \<and> c_reg q RAX = 0 \<and>
    (\<forall>r\<in>{RBX, RBP, R12, R13, R14, R15}. c_reg q r = c_reg s r) \<and> p_os (c_proc q) = p_os (c_proc s) \<and>
    jmp_words (p_mem (c_proc q)) buf =
      map Some [c_reg s RBX, sp, c_reg s RBP, c_reg s R12, c_reg s R13, c_reg s R14, c_reg s R15, back] \<and>
    peek_mem (p_mem (c_proc q)) (buf + 64) = Some old \<and>
    same_off (jb_words buf @ stack_words sp) (p_mem (c_proc s)) (p_mem (c_proc q))"
proof -
  note saves = setjmp_saves [of E a s "back" old, unfolded assms(5,6), OF assms(2,4,7-11)]
  then obtain q where q: "run_asm 17 E s = Inr q" "c_rip q = a + 17" "c_flags q = c_flags s"
    "c_reg q = (c_reg s)(RSP := sp - 32, RDI := 0, RSI := 0, RDX := 64, RCX := 8)"
    "p_os (c_proc q) = p_os (c_proc s)" "\<forall>x. p_mem (c_proc s) x = None \<longrightarrow> p_mem (c_proc q) x = None"
    "stack_ok (p_mem (c_proc q)) sp"
    "jmp_words (p_mem (c_proc q)) buf = map Some [c_reg s RBX, sp, c_reg s RBP, c_reg s R12, c_reg s R13, c_reg s R14,
      c_reg s R15, back]"
    "peek_mem (p_mem (c_proc q)) (buf + 64) = Some old"
    "map (\<lambda>d. peek_mem (p_mem (c_proc q)) (sp - d)) [0, 8, 16, 24, 32] =
      map Some [back, buf, c_reg s RSI, c_reg s RDX, c_reg s RCX]"
    "same_off (jb_words buf @ stack_words sp) (p_mem (c_proc s)) (p_mem (c_proc q))"
    by blast
  let ?p = "in_stub q (a + 18)"
  have r: "readable (p_mem (c_proc q)) (sp - 40)" "readable (p_mem (c_proc q)) (sp - 48)"
    using q(7) by (simp_all add: stack_ok_def)
  have none: "\<forall>i<8. p_mem ?p (64 + of_nat i) = None"
    using assms(13) q(4,6) r by (simp add: in_stub_def poke_unmapped readable_poke_keep)
  have k: "sysc (kern E) 14 [0, 0, 64, 8] ?p = Some (- 14, ?p)"
    unfolding assms(1) by (rule query_fault) (use assms(12) q(5) none in \<open>simp_all add: in_stub_def\<close>)
  have call: "code_at E (c_rip q) = Some (Call (''sys_'' @ ''rt_sigprocmask''))" and next_rip: "c_rip q + 1 = a + 18"
    using assms(2) q(2) by (simp_all add: asm_setjmp_def add.commute)
  let ?q = "q\<lparr>c_reg := (c_reg q)(RAX := - 14, RCX := b + 4, R11 := rflags E (c_flags q)), c_rip := a + 18, c_proc := ?p\<rparr>"
  have "run_asm 7 E q = Inr ?q"
    by (rule call_stub [OF call assms(3), of "- 14" ?p, unfolded next_rip])
      (use k q(4) r in \<open>simp_all add: sys_arities in_stub_def apart8_same_base word_le_nat_alt\<close>)
  moreover have "run_asm 6 E ?q = Inr (?q\<lparr>c_reg := (c_reg ?q)(RCX := c_reg s RCX, RDX := c_reg s RDX, RSI := c_reg s RSI,
      RDI := buf, RAX := 0, RSP := sp + 8), c_rip := back\<rparr>)"
    by (rule setjmp_returns [OF assms(2)]) (use q(4,10) in \<open>simp_all add: in_stub_def apart8_same_base word_le_nat_alt\<close>)
  ultimately have "run_asm 30 E s = Inr (?q\<lparr>c_reg := (c_reg ?q)(RCX := c_reg s RCX, RDX := c_reg s RDX, RSI := c_reg s RSI,
      RDI := buf, RAX := 0, RSP := sp + 8), c_rip := back\<rparr>)"
    using run_asm_add [of 17 13 E s] run_asm_add [of 7 6 E q] q(1) by simp
  moreover have "same_off (jb_words buf @ stack_words sp) (p_mem (c_proc s)) (p_mem ?p)"
    using q(4,11) r by (simp add: in_stub_def same_off_poke readable_poke_keep)
  ultimately show ?thesis
    using q(1-10) off_stack_both [OF assms(8)] by (simp add: in_stub_def jmp_words_def)
qed

lemma longjmp_run:
  assumes "kern E = K" "placed E a asm_longjmp" "placed E b (gensys 14 ''rt_sigprocmask'')" "c_rip t = a"
    "c_reg t RDI = buf" "stack_ok (p_mem (c_proc t)) sp" "off_stack buf sp"
    "jmp_words (p_mem (c_proc t)) buf = map Some [x0, sp, x2, x3, x4, x5, x6, back]"
    "peek_mem (p_mem (c_proc t)) (buf + 64) = Some old" "quiet (p_os (c_proc t))" "buf + 64 \<noteq> 0"
  shows "\<exists>q. run_asm 30 E t = Inr q \<and> c_rip q = back \<and> c_reg q RSP = sp + 8 \<and> c_reg q RAX = c_reg t RSI \<and>
    map (c_reg q) [RBX, RBP, R12, R13, R14, R15] = [x0, x2, x3, x4, x5, x6] \<and>
    p_os (c_proc q) = set_mask (old AND NOT unblockable) (p_os (c_proc t)) \<and>
    same_off (stack_words sp) (p_mem (c_proc t)) (p_mem (c_proc q))"
proof -
  from longjmp_loads [of E a t sp x0 x2 x3 x4 x5 x6 "back" old, unfolded assms(5), OF assms(2,4,6-9)]
  obtain q where q: "run_asm 17 E t = Inr q" "c_rip q = a + 17"
    "c_reg q = (c_reg t)(RBX := x0, RBP := x2, R12 := x3, R13 := x4, R14 := x5, R15 := x6,
      RSP := sp - 32, RSI := buf + 64, RDI := 2, RDX := 0, RCX := 8)"
    "p_os (c_proc q) = p_os (c_proc t)" "stack_ok (p_mem (c_proc q)) sp"
    "peek_mem (p_mem (c_proc q)) (buf + 64) = Some old"
    "map (\<lambda>d. peek_mem (p_mem (c_proc q)) (sp - d)) [0, 8, 16, 24, 32] =
      map Some [back, buf, c_reg t RSI, c_reg t RDX, c_reg t RCX]"
    "same_off (stack_words sp) (p_mem (c_proc t)) (p_mem (c_proc q))"
    by blast
  let ?m = "in_stub q (a + 18)"
  let ?p = "?m\<lparr>p_os := set_mask (old AND NOT unblockable) (p_os ?m)\<rparr>"
  have r: "readable (p_mem (c_proc q)) (sp - 40)" "readable (p_mem (c_proc q)) (sp - 48)"
    using q(5) by (simp_all add: stack_ok_def)
  have slots: "peek_mem (p_mem ?m) (buf + 64) = Some old"
    using q(3,6) off_stack_both [OF assms(7)] by (simp add: in_stub_def)
  have k: "sysc (kern E) 14 [2, buf + 64, 0, 8] ?m = Some (0, ?p)"
    unfolding assms(1) by (rule install) (use assms(10,11) q(4) slots in \<open>simp_all add: in_stub_def\<close>)
  have call: "code_at E (c_rip q) = Some (Call (''sys_'' @ ''rt_sigprocmask''))" and next_rip: "c_rip q + 1 = a + 18"
    using assms(2) q(2) by (simp_all add: asm_longjmp_def add.commute)
  let ?q = "q\<lparr>c_reg := (c_reg q)(RAX := 0, RCX := b + 4, R11 := rflags E (c_flags q)), c_rip := a + 18, c_proc := ?p\<rparr>"
  have "run_asm 7 E q = Inr ?q"
    by (rule call_stub [OF call assms(3), of 0 ?p, unfolded next_rip])
      (use k q(3) r in \<open>simp_all add: sys_arities in_stub_def apart8_same_base word_le_nat_alt\<close>)
  moreover have "run_asm 6 E ?q = Inr (?q\<lparr>c_reg := (c_reg ?q)(RCX := c_reg t RCX, RDX := c_reg t RDX, RSI := c_reg t RSI,
      RDI := buf, RAX := c_reg t RSI, RSP := sp + 8), c_rip := back\<rparr>)"
    by (rule longjmp_returns [OF assms(2)]) (use q(3,7) in \<open>simp_all add: in_stub_def apart8_same_base word_le_nat_alt\<close>)
  ultimately have "run_asm 30 E t = Inr (?q\<lparr>c_reg := (c_reg ?q)(RCX := c_reg t RCX, RDX := c_reg t RDX, RSI := c_reg t RSI,
      RDI := buf, RAX := c_reg t RSI, RSP := sp + 8), c_rip := back\<rparr>)"
    using run_asm_add [of 17 13 E t] run_asm_add [of 7 6 E q] q(1) by simp
  moreover have "same_off (stack_words sp) (p_mem (c_proc t)) (p_mem ?m)"
    using q(3,8) r by (simp add: in_stub_def same_off_poke readable_poke_keep)
  ultimately show ?thesis using q(3,4) by (simp add: in_stub_def)
qed

end

subsection \<open>The calls\<close>

definition jump_loaded :: "'w loaded \<Rightarrow> bool" where
  "jump_loaded E \<longleftrightarrow> placed E (sym_addr E ''setjmp'') asm_setjmp \<and> placed E (sym_addr E ''longjmp'') asm_longjmp \<and>
     placed E (sym_addr E ''sys_rt_sigprocmask'') (gensys 14 ''rt_sigprocmask'')"

text \<open>
  A state in which \<open>setjmp(buf)\<close> has just been called, to return to \<open>ret\<close>: the buffer and the stack are
  mapped, the page of the null pointer is not.
\<close>

definition at_setjmp :: "'w loaded \<Rightarrow> 'w amd64 \<Rightarrow> u64 \<Rightarrow> u64 \<Rightarrow> bool" where
  "at_setjmp E s buf ret \<longleftrightarrow> c_rip s = sym_addr E ''setjmp'' \<and> c_reg s RDI = buf \<and>
     stack_ok (p_mem (c_proc s)) (c_reg s RSP) \<and> off_stack buf (c_reg s RSP) \<and>
     list_all (\<lambda>d. readable (p_mem (c_proc s)) (buf + d)) [0, 8, 16, 24, 32, 40, 48, 56] \<and>
     peek_mem (p_mem (c_proc s)) (c_reg s RSP) = Some ret \<and>
     list_all (\<lambda>i. p_mem (c_proc s) (64 + of_nat i) = None) [0..<8]"

text \<open>
  A state in which \<open>longjmp(buf, val)\<close> has just been called, the nine words of the buffer as in the memory
  \<open>m\<close>, the stack at \<open>sp\<close> still mapped.
\<close>

definition at_longjmp :: "'w loaded \<Rightarrow> 'w amd64 \<Rightarrow> u64 \<Rightarrow> u64 \<Rightarrow> memory \<Rightarrow> bool" where
  "at_longjmp E t buf sp m \<longleftrightarrow> c_rip t = sym_addr E ''longjmp'' \<and> c_reg t RDI = buf \<and> buf + 64 \<noteq> 0 \<and>
     stack_ok (p_mem (c_proc t)) sp \<and> jmp_words (p_mem (c_proc t)) buf = jmp_words m buf \<and>
     peek_mem (p_mem (c_proc t)) (buf + 64) = peek_mem m (buf + 64)"

context mask_kernel
begin

lemma setjmp_longjmp:
  assumes "kern E = K" "jump_loaded E" "at_setjmp E s buf ret" "quiet (p_os (c_proc s))"
    "peek_mem (p_mem (c_proc s)) (buf + 64) = Some old"
  obtains q where "run_asm 30 E s = Inr q" "c_rip q = ret" "c_reg q RAX = 0" "c_reg q RSP = c_reg s RSP + 8"
    "\<forall>r\<in>{RBX, RBP, R12, R13, R14, R15}. c_reg q r = c_reg s r" "p_os (c_proc q) = p_os (c_proc s)"
    "peek_mem (p_mem (c_proc q)) (buf + 64) = Some old"
    "\<And>t. at_longjmp E t buf (c_reg s RSP) (p_mem (c_proc q)) \<Longrightarrow> quiet (p_os (c_proc t)) \<Longrightarrow>
      \<exists>u. run_asm 30 E t = Inr u \<and> c_rip u = ret \<and> c_reg u RSP = c_reg q RSP \<and> c_reg u RAX = c_reg t RSI \<and>
        (\<forall>r\<in>{RBX, RBP, R12, R13, R14, R15}. c_reg u r = c_reg q r) \<and>
        mask_of (p_os (c_proc u)) = old AND NOT unblockable"
proof -
  have none: "\<forall>i<8. p_mem (c_proc s) (64 + of_nat i) = None"
    using assms(3) by (simp add: at_setjmp_def list_all_iff)
  obtain q where q: "run_asm 30 E s = Inr q" "c_rip q = ret" "c_reg q RSP = c_reg s RSP + 8" "c_reg q RAX = 0"
    "\<forall>r\<in>{RBX, RBP, R12, R13, R14, R15}. c_reg q r = c_reg s r" "p_os (c_proc q) = p_os (c_proc s)"
    "jmp_words (p_mem (c_proc q)) buf = map Some [c_reg s RBX, c_reg s RSP, c_reg s RBP, c_reg s R12, c_reg s R13,
      c_reg s R14, c_reg s R15, ret]" "peek_mem (p_mem (c_proc q)) (buf + 64) = Some old"
    using setjmp_run [of E _ _ s "c_reg s RSP" buf ret old] assms none
    unfolding jump_loaded_def at_setjmp_def by blast
  have "\<exists>u. run_asm 30 E t = Inr u \<and> c_rip u = ret \<and> c_reg u RSP = c_reg q RSP \<and> c_reg u RAX = c_reg t RSI \<and>
        (\<forall>r\<in>{RBX, RBP, R12, R13, R14, R15}. c_reg u r = c_reg q r) \<and>
        mask_of (p_os (c_proc u)) = old AND NOT unblockable"
    if t: "at_longjmp E t buf (c_reg s RSP) (p_mem (c_proc q))" "quiet (p_os (c_proc t))" for t
  proof -
    have words: "jmp_words (p_mem (c_proc t)) buf = map Some [c_reg s RBX, c_reg s RSP, c_reg s RBP, c_reg s R12,
        c_reg s R13, c_reg s R14, c_reg s R15, ret]" "peek_mem (p_mem (c_proc t)) (buf + 64) = Some old"
      using t(1) q(7,8) unfolding at_longjmp_def by simp_all
    have "off_stack buf (c_reg s RSP)" using assms(3) unfolding at_setjmp_def by blast
    moreover have "placed E (sym_addr E ''longjmp'') asm_longjmp"
      "placed E (sym_addr E ''sys_rt_sigprocmask'') (gensys 14 ''rt_sigprocmask'')"
      using assms(2) unfolding jump_loaded_def by blast+
    moreover have "c_rip t = sym_addr E ''longjmp''" "c_reg t RDI = buf" "buf + 64 \<noteq> 0"
      "stack_ok (p_mem (c_proc t)) (c_reg s RSP)"
      using t(1) unfolding at_longjmp_def by blast+
    ultimately show ?thesis
      using longjmp_run [OF assms(1) _ _ _ _ _ _ words t(2)] q(3,5) by (fastforce simp: mask_set)
  qed
  with q show ?thesis using that by blast
qed

end

end
