(* ===== verification/Mini_Jmp1.thy ===== *)
theory Mini_Jmp1
  imports Mini_Text Mini_Jump
begin

text \<open>
  \<open>project3/jmp1.c\<close>: ten functions called one after the other, each of which prints its name and jumps
  back to \<open>main\<close>. The program runs on the processor of \<open>Mini_Asm\<close>: the calls of \<open>setjmp\<close> and \<open>longjmp\<close>
  execute the listed routines, and \<open>main\<close> goes on with the registers and at the address they leave.
\<close>

subsection \<open>The two calls\<close>

text \<open>
  \<open>setjmp(jb)\<close> and \<open>longjmp(jb, v)\<close> called from C, the instruction after the call at \<open>back\<close>: the arguments go
  to their registers, and the routine runs with the system call stub it calls, 24 instructions and 6.
\<close>

definition c_setjmp :: "'w loaded \<Rightarrow> u64 \<Rightarrow> u64 \<Rightarrow> 'w amd64 \<Rightarrow> mini_stop + 'w amd64" where
  "c_setjmp E back jb s = bnd (exec E (Call ''setjmp'') (put_reg RDI jb (s\<lparr>c_rip := back\<rparr>))) (run_asm 30 E)"

definition c_longjmp :: "'w loaded \<Rightarrow> u64 \<Rightarrow> u64 \<Rightarrow> u32 \<Rightarrow> 'w amd64 \<Rightarrow> mini_stop + 'w amd64" where
  "c_longjmp E back jb v s =
     bnd (exec E (Call ''longjmp'') (put_reg RSI (ucast v) (put_reg RDI jb (s\<lparr>c_rip := back\<rparr>)))) (run_asm 30 E)"

subsection \<open>The program\<close>

definition jump_funs :: "(string \<times> u32) list" where
  "jump_funs =
    [(''This is function a().'' @ [newline], 1), (''This is function b().'' @ [newline], 2),
     (''This is function c().'' @ [newline], 3), (''This is function d().'' @ [newline], 4),
     (''This is function e().'' @ [newline], 5), (''This is function f().'' @ [newline], 6),
     (''This is function g().'' @ [newline], 7), (''This is function h().'' @ [newline], 8),
     (''This is function i().'' @ [newline], 9), (''This is function j().'' @ [newline], 10)]"

text \<open>
  What the compiler chose: where the volatile \<open>i\<close> of \<open>main\<close> is, counted from the frame pointer, the
  addresses after the calls in \<open>main\<close> of \<open>setjmp\<close> and of a function, and for each function the address after
  its call of \<open>longjmp\<close> and what its code has left in the registers by then.
\<close>

record jump_code =
  jc_i :: u64
  jc_set :: u64
  jc_call :: u64
  jc_long :: "string \<Rightarrow> u64"
  jc_junk :: "string \<Rightarrow> reg \<Rightarrow> u64"

definition var_i :: "jump_code \<Rightarrow> 'w amd64 \<Rightarrow> u64" where
  "var_i C s = c_reg s RBP + jc_i C"

text \<open>
  The body of the ten functions, \<open>FUNBODY(m, from)\<close>: the return address and the caller's frame pointer go
  onto the stack, the text is written, and \<open>longjmp\<close> is called with other values in every register but the
  stack and the frame pointer, those included that a function has to preserve for its caller.
\<close>

definition fun_body :: "'w loaded \<Rightarrow> jump_code \<Rightarrow> u64 \<Rightarrow> string \<Rightarrow> u32 \<Rightarrow> 'w amd64 \<Rightarrow> mini_stop + 'w amd64" where
  "fun_body E C jb m fro s =
     bnd (push (jc_call C) s) (\<lambda>s.
     bnd (push (c_reg s RBP) s) (\<lambda>s.
     bnd (mini_strlen (lit (kern E) m) (c_proc s)) (\<lambda>n.
     bnd (mini_write (kern E) 1 (lit (kern E) m) n (c_proc s)) (\<lambda>(r, p).
     c_longjmp E (jc_long C m) jb fro
       (s\<lparr>c_proc := p, c_reg := (jc_junk C m)(RSP := c_reg s RSP, RBP := c_reg s RSP)\<rparr>)))))"

text \<open>How a stretch of \<open>main\<close> ends: with its return value in \<open>rax\<close>, or in the \<open>longjmp\<close> of a function.\<close>

datatype 'w jump = Returned "'w amd64" | Jumped "'w amd64"

text \<open>\<open>if(i < 10) funs[i](); return 0;\<close>.\<close>

definition jmp1_call :: "'w loaded \<Rightarrow> jump_code \<Rightarrow> u64 \<Rightarrow> 'w amd64 \<Rightarrow> mini_stop + 'w jump" where
  "jmp1_call E C jb s =
     bnd (ld4 (var_i C s) (c_proc s)) (\<lambda>i.
       if sint i < 10 then
         bnd (ld4 (var_i C s) (c_proc s)) (\<lambda>i.
           if 0 \<le> sint i \<and> sint i < 10 then
             (case jump_funs ! nat (sint i) of (m, fro) \<Rightarrow> bnd (fun_body E C jb m fro s) (\<lambda>s. Inr (Jumped s)))
           else Inl Ub)
       else Inr (Returned (put_reg RAX 0 s)))"

text \<open>\<open>i++;\<close>, an \<open>int\<close> overflow being undefined.\<close>

definition inc_i :: "jump_code \<Rightarrow> 'w amd64 \<Rightarrow> mini_stop + 'w amd64" where
  "inc_i C s =
     bnd (ld4 (var_i C s) (c_proc s)) (\<lambda>i.
       if sint i = 0x7fffffff then Inl Ub
       else bnd (st4 (var_i C s) (i + 1) (c_proc s)) (\<lambda>p. Inr (s\<lparr>c_proc := p\<rparr>)))"

text \<open>
  \<open>main\<close> from where \<open>setjmp\<close> has returned to, with its value in \<open>eax\<close>. A jump that ends at another address is
  not in \<open>main\<close> behind the call.
\<close>

partial_function (option) jmp1_from ::
  "'w loaded \<Rightarrow> jump_code \<Rightarrow> u64 \<Rightarrow> 'w amd64 \<Rightarrow> (mini_stop + 'w amd64) option" where
  "jmp1_from E C jb s =
     (if c_rip s \<noteq> jc_set C then Some (Inl Elsewhere)
      else case bnd (if (ucast (c_reg s RAX) :: u32) \<noteq> 0 then inc_i C s else Inr s) (jmp1_call E C jb) of
        Inl e \<Rightarrow> Some (Inl e)
      | Inr (Returned s) \<Rightarrow> Some (Inr s)
      | Inr (Jumped s) \<Rightarrow> jmp1_from E C jb s)"

definition jmp1_main :: "'w loaded \<Rightarrow> jump_code \<Rightarrow> u64 \<Rightarrow> 'w amd64 \<Rightarrow> (mini_stop + 'w amd64) option" where
  "jmp1_main E C jb s =
     (case bnd (st4 (var_i C s) 0 (c_proc s)) (\<lambda>p. c_setjmp E (jc_set C) jb (s\<lparr>c_proc := p\<rparr>)) of
        Inl e \<Rightarrow> Some (Inl e)
      | Inr s \<Rightarrow> jmp1_from E C jb s)"

subsection \<open>The state the program needs\<close>

text \<open>
  The words the program and \<open>errno\<close> write to: \<open>i\<close> at \<open>fr\<close>, \<open>errno\<close>, the buffer, and seven words below the stack
  pointer \<open>S\<close> of \<open>main\<close>.
\<close>

definition jmp1_words :: "'w unix \<Rightarrow> u64 \<Rightarrow> u64 \<Rightarrow> u64 \<Rightarrow> u64 list" where
  "jmp1_words L jb fr S = fr # errno_at L # jb_words jb @ map (\<lambda>d. S - d) [8, 16, 24, 32, 40, 48, 56]"

text \<open>
  They are mapped and apart from the mask word, which holds \<open>old\<close>, and from the texts; \<open>i\<close>, \<open>errno\<close>, the
  buffer and the stack are apart from one another; the page of the null pointer is not mapped.
\<close>

definition jmp1_mem :: "'w unix \<Rightarrow> u64 \<Rightarrow> u64 \<Rightarrow> u64 \<Rightarrow> u64 \<Rightarrow> memory \<Rightarrow> bool" where
  "jmp1_mem L jb fr S old m \<longleftrightarrow>
     list_all (readable m) (jmp1_words L jb fr S) \<and> list_all (\<lambda>e. apart8 e (jb + 64)) (jmp1_words L jb fr S) \<and>
     list_all (\<lambda>e. apart8 e fr) (tl (jmp1_words L jb fr S)) \<and> list_all (apart8 (errno_at L)) (jb_words jb) \<and>
     off_stack jb (S - 8) \<and> peek_mem m (jb + 64) = Some old \<and> jb + 64 \<noteq> 0 \<and>
     list_all (\<lambda>x. c_str_at m (lit L (fst x)) (fst x) \<and>
       list_all (\<lambda>e. off_word e (lit L (fst x)) (length (fst x) + 1)) (jmp1_words L jb fr S)) jump_funs \<and>
     list_all (\<lambda>i. m (64 + of_nat i) = None) [0..<8]"

text \<open>A processor in \<open>main\<close>, descriptor 1 taking what is written.\<close>

definition jmp1_ok :: "'w loaded \<Rightarrow> jump_code \<Rightarrow> ('w \<Rightarrow> u64 \<Rightarrow> bool) \<Rightarrow> u64 \<Rightarrow> u64 \<Rightarrow> 'w amd64 \<Rightarrow> bool" where
  "jmp1_ok E C takes jb old s \<longleftrightarrow> jump_loaded E \<and>
     jmp1_mem (kern E) jb (var_i C s) (c_reg s RSP) old (p_mem (c_proc s)) \<and> takes (p_os (c_proc s)) 1"

lemma same_off_poke4: "a \<in> set ws \<Longrightarrow> readable m' a \<Longrightarrow> same_off ws m (poke4 m' a v) \<longleftrightarrow> same_off ws m m'"
proof -
  assume a: "a \<in> set ws" "readable m' a"
  then have "m' x \<noteq> None" if "unat (x - a) < 4" for x
    using that in_word_iff [of x a] by (auto simp: readable_iff)
  then have "poke4 m' a v x = None \<longleftrightarrow> m' x = None" for x by (simp add: poke4_def)
  moreover have "poke4 m' a v x = m' x" if "\<forall>a\<in>set ws. 8 \<le> unat (x - a)" for x
    using that a(1) by (auto simp: poke4_def)
  ultimately show ?thesis by (simp add: same_off_def)
qed

lemma same_off_peek4:
  assumes "same_off ws m m'" "\<And>a. a \<in> set ws \<Longrightarrow> apart8 a b"
  shows "peek4 m' b = peek4 m b"
proof -
  have b: "m' (b + of_nat i) = m (b + of_nat i)" if "i < 4" for i
  proof (rule same_off_byte [OF assms(1)])
    show "8 \<le> unat (b + of_nat i - a)" if "a \<in> set ws" for a
      using apart8_bytes [OF assms(2) [OF that], of i] \<open>i < 4\<close> by simp
  qed
  then have "map (\<lambda>i. the (m' (b + of_nat i))) [0..<4] = map (\<lambda>i. the (m (b + of_nat i))) [0..<4]" by simp
  moreover have "list_all (\<lambda>i. m' (b + of_nat i) \<noteq> None) [0..<4] \<longleftrightarrow> list_all (\<lambda>i. m (b + of_nat i) \<noteq> None) [0..<4]"
    by (rule list.pred_cong) (simp_all add: b)
  ultimately show ?thesis by (simp only: peek4_def)
qed

lemma same_off_str:
  assumes "same_off ws m m'" "c_str_at m a s" "list_all (\<lambda>e. off_word e a (length s + 1)) ws"
  shows "c_str_at m' a s"
proof -
  have "8 \<le> unat (a + of_nat i - e)" if "e \<in> set ws" "i < length s + 1" for e i
    using assms(3) that unfolding list_all_iff off_word_def by fastforce
  then have "m' (a + of_nat i) = m (a + of_nat i)" if "i < length s + 1" for i
    using same_off_byte [OF assms(1)] that by blast
  then show ?thesis using assms(2) by (simp add: c_str_at_def holds_bytes_iff)
qed

text \<open>Nothing the program writes takes the conditions away.\<close>

lemma jmp1_mem_keep:
  assumes "jmp1_mem L jb fr S old m" "same_off (jmp1_words L jb fr S) m m'"
  shows "jmp1_mem L jb fr S old m'"
proof -
  let ?W = "jmp1_words L jb fr S"
  have "list_all (\<lambda>e. apart8 e (jb + 64)) ?W" using assms(1) unfolding jmp1_mem_def by blast
  then have "peek_mem m' (jb + 64) = peek_mem m (jb + 64)"
    using same_off_peek [OF assms(2)] by (simp add: list_all_iff)
  moreover have "list_all (readable m') ?W = list_all (readable m) ?W"
    by (rule list.pred_cong) (simp_all add: same_off_readable [OF assms(2)])
  moreover have "list_all (\<lambda>i. m' (64 + of_nat i) = None) [0..<8] = list_all (\<lambda>i. m (64 + of_nat i) = None) [0..<8]"
    by (rule list.pred_cong) (simp_all add: same_off_none [OF assms(2)])
  moreover have "c_str_at m' (lit L (fst x)) (fst x)" if "x \<in> set jump_funs" for x
    using assms(1) that same_off_str [OF assms(2)] unfolding jmp1_mem_def list_all_iff [of _ jump_funs] by blast
  ultimately show ?thesis using assms(1) unfolding jmp1_mem_def list_all_iff [of _ jump_funs] by metis
qed

lemma jmp1_memD:
  assumes "jmp1_mem L jb fr S old m"
  shows "readable m fr" "readable m (errno_at L)" "stack_ok m (S - 8)" "off_stack jb (S - 8)" "peek_mem m (jb + 64) = Some old"
    "jb + 64 \<noteq> 0" "list_all (readable m) (jb_words jb)" "\<forall>i<8. m (64 + of_nat i) = None"
    "list_all (apart8 (errno_at L)) (jb_words jb)"
  using assms by (simp_all add: jmp1_mem_def jmp1_words_def stack_ok_def list_all_iff)

lemma jmp1_mem_fr: "jmp1_mem L jb fr S old m \<Longrightarrow> a \<in> set (tl (jmp1_words L jb fr S)) \<Longrightarrow> apart8 a fr"
  unfolding jmp1_mem_def list_all_iff [of _ "tl _"] by blast

lemma jmp1_mem_text:
  assumes "jmp1_mem L jb fr S old m" "k < 10"
  shows "c_str_at m (lit L (fst (jump_funs ! k))) (fst (jump_funs ! k))"
proof -
  have "length jump_funs = 10" by (simp add: jump_funs_def)
  then have "jump_funs ! k \<in> set jump_funs" using assms(2) by simp
  then show ?thesis using assms(1) unfolding jmp1_mem_def list_all_iff [of _ jump_funs] by blast
qed

lemma jump_values: "k < 10 \<Longrightarrow> snd (jump_funs ! k) = of_nat (Suc k)"
proof -
  have "list_all (\<lambda>k. snd (jump_funs ! k) = of_nat (Suc k)) [0..<10]" by (simp add: jump_funs_def upt_rec)
  then show "k < 10 \<Longrightarrow> ?thesis" by (simp add: list_all_iff)
qed

text \<open>The words of the stack and of the buffer are among those of the program.\<close>

lemma jump_words_sub:
  "set (stack_words (S - 8)) \<subseteq> set (tl (jmp1_words L jb fr S))" "set (jb_words jb) \<subseteq> set (tl (jmp1_words L jb fr S))"
  "set (tl (jmp1_words L jb fr S)) \<subseteq> set (jmp1_words L jb fr S)"
  by (auto simp: jmp1_words_def)

lemma jmp_words_eqI:
  assumes "same_off ws m m'" "\<And>a j. a \<in> set ws \<Longrightarrow> j \<in> {0, 8, 16, 24, 32, 40, 48, 56} \<Longrightarrow> apart8 a (jb + j)"
  shows "jmp_words m' jb = jmp_words m jb"
proof -
  have "peek_mem m' (jb + j) = peek_mem m (jb + j)" if "j \<in> {0, 8, 16, 24, 32, 40, 48, 56}" for j
    using same_off_peek [OF assms(1)] assms(2) that by blast
  then show ?thesis unfolding jmp_words_def by (intro map_cong refl) simp
qed

lemma stack_off_jb: "off_stack jb sp \<Longrightarrow> a \<in> set (stack_words sp) \<Longrightarrow> j \<in> {0, 8, 16, 24, 32, 40, 48, 56} \<Longrightarrow> apart8 a (jb + j)"
  by (auto simp: off_stack_def apart8_sym [of "jb + _"] apart8_sym [of jb])

subsection \<open>The run\<close>

text \<open>
  The processor \<open>s\<close> is in \<open>main\<close> behind the call of \<open>setjmp\<close> with what \<open>main\<close> had in the preserved registers, the
  buffer says so, and memory is \<open>m\<close> but for the program's words.
\<close>

definition behind_call :: "'w loaded \<Rightarrow> jump_code \<Rightarrow> u64 \<Rightarrow> (reg \<Rightarrow> u64) \<Rightarrow> memory \<Rightarrow> 'w amd64 \<Rightarrow> bool" where
  "behind_call E C jb r m s \<longleftrightarrow> c_rip s = jc_set C \<and> (\<forall>x\<in>{RBX, RBP, R12, R13, R14, R15, RSP}. c_reg s x = r x) \<and>
     jmp_words (p_mem (c_proc s)) jb =
       map Some [r RBX, r RSP - 8, r RBP, r R12, r R13, r R14, r R15, jc_set C] \<and>
     same_off (jmp1_words (kern E) jb (r RBP + jc_i C) (r RSP)) m (p_mem (c_proc s))"

context mask_kernel
begin

text \<open>The first return: from \<open>main\<close> at the call.\<close>

lemma c_setjmp_run:
  assumes "kern E = K" "jump_loaded E" "jmp1_mem K jb (var_i C s) (c_reg s RSP) old (p_mem (c_proc s))"
    "quiet (p_os (c_proc s))"
  shows "\<exists>q. c_setjmp E (jc_set C) jb s = Inr q \<and> behind_call E C jb (c_reg s) (p_mem (c_proc s)) q \<and> c_reg q RAX = 0 \<and>
    p_os (c_proc q) = p_os (c_proc s) \<and> peek4 (p_mem (c_proc q)) (var_i C s) = peek4 (p_mem (c_proc s)) (var_i C s)"
proof -
  let ?S = "c_reg s RSP" and ?W = "jmp1_words K jb (var_i C s) (c_reg s RSP)"
  note mem = jmp1_memD [OF assms(3)]
  let ?t = "s\<lparr>c_reg := (c_reg s)(RDI := jb, RSP := ?S - 8), c_rip := sym_addr E ''setjmp'',
    c_proc := (c_proc s)\<lparr>p_mem := poke_mem (p_mem (c_proc s)) (?S - 8) (jc_set C)\<rparr>\<rparr>"
  have r: "readable (p_mem (c_proc s)) (?S - 8)" using mem(3) by (simp add: stack_ok_def)
  then have call: "exec E (Call ''setjmp'') (put_reg RDI jb (s\<lparr>c_rip := jc_set C\<rparr>)) = Inr ?t"
    by (cases s) (simp add: cpu_simps fun_eq_iff)
  have in_w: "?S - 8 \<in> set (tl ?W)" by (simp add: jmp1_words_def)
  then have t1: "same_off (tl ?W) (p_mem (c_proc s)) (p_mem (c_proc ?t))" using r by (simp add: same_off_poke)
  have keep: "jmp1_mem K jb (var_i C s) ?S old (p_mem (c_proc ?t))"
    by (rule jmp1_mem_keep [OF assms(3) same_off_mono [OF t1 jump_words_sub(3)]])
  note mem' = jmp1_memD [OF keep]
  obtain q where q: "run_asm 30 E ?t = Inr q" "c_rip q = jc_set C" "c_reg q RSP = ?S - 8 + 8" "c_reg q RAX = 0"
    "\<forall>r\<in>{RBX, RBP, R12, R13, R14, R15}. c_reg q r = c_reg ?t r" "p_os (c_proc q) = p_os (c_proc ?t)"
    "jmp_words (p_mem (c_proc q)) jb = map Some [c_reg ?t RBX, ?S - 8, c_reg ?t RBP, c_reg ?t R12, c_reg ?t R13,
      c_reg ?t R14, c_reg ?t R15, jc_set C]"
    "same_off (jb_words jb @ stack_words (?S - 8)) (p_mem (c_proc ?t)) (p_mem (c_proc q))"
  proof -
    have p: "placed E (sym_addr E ''setjmp'') asm_setjmp" "placed E (sym_addr E ''sys_rt_sigprocmask'') (gensys 14 ''rt_sigprocmask'')"
      using assms(2) unfolding jump_loaded_def by blast+
    have l: "list_all (\<lambda>d. readable (p_mem (c_proc ?t)) (jb + d)) [0, 8, 16, 24, 32, 40, 48, 56]"
      using mem'(7) by simp
    have qt: "quiet (p_os (c_proc ?t))" using assms(4) by simp
    have "peek_mem (p_mem (c_proc ?t)) (?S - 8) = Some (jc_set C)" by simp
    from setjmp_run [OF assms(1) p, of ?t, OF _ _ _ mem'(3,4) l this mem'(5) qt mem'(8)] that show ?thesis by auto
  qed
  have w: "set (jb_words jb @ stack_words (?S - 8)) \<subseteq> set (tl ?W)"
    unfolding set_append by (rule Un_least [OF jump_words_sub(2,1)])
  have t2: "same_off (tl ?W) (p_mem (c_proc s)) (p_mem (c_proc q))"
    by (rule same_off_trans [OF t1 same_off_mono [OF q(8) w]])
  have "peek4 (p_mem (c_proc q)) (var_i C s) = peek4 (p_mem (c_proc s)) (var_i C s)"
    by (rule same_off_peek4 [OF t2 jmp1_mem_fr [OF assms(3)]])
  moreover have "behind_call E C jb (c_reg s) (p_mem (c_proc s)) q"
    using q(2,3,5,7) same_off_mono [OF t2 jump_words_sub(3)] by (simp add: behind_call_def assms(1) var_i_def)
  ultimately show ?thesis using q(1,4,6) call by (simp add: c_setjmp_def)
qed

text \<open>The later ones: from a function, with the value asked for and the mask of the buffer.\<close>

lemma c_longjmp_run:
  assumes "kern E = K" "jump_loaded E" "jmp1_mem K jb (r RBP + jc_i C) (r RSP) old m"
    "same_off (jmp1_words K jb (r RBP + jc_i C) (r RSP)) m (p_mem (c_proc t))"
    "jmp_words (p_mem (c_proc t)) jb = map Some [r RBX, r RSP - 8, r RBP, r R12, r R13, r R14, r R15, jc_set C]"
    "quiet (p_os (c_proc t))" "c_reg t RSP = r RSP - 16"
  shows "\<exists>q. c_longjmp E b jb v t = Inr q \<and> behind_call E C jb r m q \<and> c_reg q RAX = ucast v \<and>
    p_os (c_proc q) = set_mask (old AND NOT unblockable) (p_os (c_proc t)) \<and>
    peek4 (p_mem (c_proc q)) (r RBP + jc_i C) = peek4 (p_mem (c_proc t)) (r RBP + jc_i C)"
proof -
  let ?S = "r RSP" and ?fr = "r RBP + jc_i C"
  let ?W = "jmp1_words K jb ?fr ?S"
  note mem = jmp1_memD [OF jmp1_mem_keep [OF assms(3,4)]]
  let ?t = "t\<lparr>c_reg := (c_reg t)(RDI := jb, RSI := ucast v, RSP := ?S - 24), c_rip := sym_addr E ''longjmp'',
    c_proc := (c_proc t)\<lparr>p_mem := poke_mem (p_mem (c_proc t)) (?S - 24) b\<rparr>\<rparr>"
  have rd: "readable (p_mem (c_proc t)) (?S - 24)" using mem(3) by (simp add: stack_ok_def)
  then have call: "exec E (Call ''longjmp'') (put_reg RSI (ucast v) (put_reg RDI jb (t\<lparr>c_rip := b\<rparr>))) = Inr ?t"
    using assms(7) by (cases t) (simp add: cpu_simps fun_eq_iff)
  have t1: "same_off (stack_words (?S - 8)) (p_mem (c_proc t)) (p_mem (c_proc ?t))" using rd by (simp add: same_off_poke)
  note w = subset_trans [OF jump_words_sub(1) jump_words_sub(3)]
  have keep: "jmp1_mem K jb ?fr ?S old (p_mem (c_proc ?t))"
    by (rule jmp1_mem_keep [OF assms(3) same_off_trans [OF assms(4) same_off_mono [OF t1 w]]])
  note mem' = jmp1_memD [OF keep]
  have words: "jmp_words (p_mem (c_proc ?t)) jb = map Some [r RBX, ?S - 8, r RBP, r R12, r R13, r R14, r R15, jc_set C]"
    using jmp_words_eqI [OF t1 stack_off_jb [OF mem(4)]] assms(5) by simp
  obtain q where q: "run_asm 30 E ?t = Inr q" "c_rip q = jc_set C" "c_reg q RSP = ?S - 8 + 8" "c_reg q RAX = ucast v"
    "map (c_reg q) [RBX, RBP, R12, R13, R14, R15] = [r RBX, r RBP, r R12, r R13, r R14, r R15]"
    "p_os (c_proc q) = set_mask (old AND NOT unblockable) (p_os (c_proc t))"
    "same_off (stack_words (?S - 8)) (p_mem (c_proc ?t)) (p_mem (c_proc q))"
  proof -
    have p: "placed E (sym_addr E ''longjmp'') asm_longjmp" "placed E (sym_addr E ''sys_rt_sigprocmask'') (gensys 14 ''rt_sigprocmask'')"
      using assms(2) unfolding jump_loaded_def by blast+
    have qt: "quiet (p_os (c_proc ?t))" using assms(6) by simp
    from longjmp_run [OF assms(1) p, of ?t, OF _ _ mem'(3,4) words mem'(5) qt mem'(6)] that show ?thesis by auto
  qed
  have t2: "same_off (stack_words (?S - 8)) (p_mem (c_proc t)) (p_mem (c_proc q))" by (rule same_off_trans [OF t1 q(7)])
  have "peek4 (p_mem (c_proc q)) ?fr = peek4 (p_mem (c_proc t)) ?fr"
    by (rule same_off_peek4 [OF t2]) (use jmp1_mem_fr [OF assms(3)] jump_words_sub(1) in blast)
  moreover have "behind_call E C jb r m q"
    using q(2,3,5) jmp_words_eqI [OF t2 stack_off_jb [OF mem(4)]] assms(5) same_off_trans [OF assms(4) same_off_mono [OF t2 w]]
    by (simp add: behind_call_def assms(1))
  ultimately show ?thesis using q(1,4,6) call by (simp add: c_longjmp_def)
qed

end

lemma low_of_wide: "(ucast (ucast v :: u64) :: u32) = v"
  by (rule bit_word_eqI) (simp add: bit_ucast_iff)

text \<open>A kernel with a console and a signal mask; nothing is pending, so no mask lets a signal in.\<close>

locale jump_kernel = console_kernel K takes out_of put_out + mask_kernel K mask_of set_mask quiet
  for K :: "'w unix" and takes out_of put_out mask_of set_mask quiet +
  assumes mask_put: "mask_of (put_out fd bs w) = mask_of w"
    and quiet_put: "quiet w \<Longrightarrow> quiet (put_out fd bs w)"
    and out_mask: "out_of (set_mask v w) = out_of w"
    and takes_mask: "takes (set_mask v w) = takes w"
    and quiet_mask: "quiet w \<Longrightarrow> quiet (set_mask v w)"
begin

lemma write_text:
  assumes "takes (p_os p) 1" "c_str_at (p_mem p) (lit K m) m" "readable (p_mem p) (errno_at K)"
  shows "mini_write K 1 (lit K m) (of_nat (length m)) p = Inr (of_nat (length m),
    \<lparr>p_mem = poke_mem (p_mem p) (errno_at K) 0, p_os = put_out 1 (map byte_of_char m) (p_os p)\<rparr>)"
  using write_run [of p 1 "lit K m" "map byte_of_char m"] c_str_bytes [OF assms(2)] assms by (simp add: c_str_at_def)

text \<open>One function: its text is written, and \<open>main\<close> goes on behind \<open>setjmp\<close> with its number.\<close>

lemma fun_body_run:
  assumes "kern E = K" "jump_loaded E" "jmp1_mem K jb (r RBP + jc_i C) (r RSP) old m" "behind_call E C jb r m s"
    "quiet (p_os (c_proc s))" "takes (p_os (c_proc s)) 1" "k < 10"
  defines "x \<equiv> fst (jump_funs ! k)"
  shows "\<exists>q. fun_body E C jb x v s = Inr q \<and> behind_call E C jb r m q \<and> c_reg q RAX = ucast v \<and>
    p_os (c_proc q) = set_mask (old AND NOT unblockable) (put_out 1 (map byte_of_char x) (p_os (c_proc s))) \<and>
    peek4 (p_mem (c_proc q)) (r RBP + jc_i C) = peek4 (p_mem (c_proc s)) (r RBP + jc_i C)"
proof -
  let ?S = "r RSP" and ?fr = "r RBP + jc_i C" and ?m = "p_mem (c_proc s)"
  let ?W = "jmp1_words K jb ?fr ?S"
  have b: "c_reg s RSP = ?S" "jmp_words ?m jb = map Some [r RBX, ?S - 8, r RBP, r R12, r R13, r R14, r R15, jc_set C]"
    "same_off ?W m ?m"
    using assms(4) unfolding behind_call_def assms(1) by simp_all
  note mem = jmp1_memD [OF jmp1_mem_keep [OF assms(3) b(3)]]
  have rd: "readable ?m (?S - 8)" "readable ?m (?S - 16)" using mem(3) by (simp_all add: stack_ok_def)
  let ?m2 = "poke_mem (poke_mem ?m (?S - 8) (jc_call C)) (?S - 16) (c_reg s RBP)"
  let ?s2 = "s\<lparr>c_reg := (c_reg s)(RSP := ?S - 16), c_proc := (c_proc s)\<lparr>p_mem := ?m2\<rparr>\<rparr>"
  obtain s1 where enter: "push (jc_call C) s = Inr s1" "push (c_reg s1 RBP) s1 = Inr ?s2"
    using rd b(1) by (cases s) (simp add: cpu_simps fun_eq_iff)
  have t2: "same_off (stack_words (?S - 8)) ?m ?m2" using rd by (simp add: same_off_poke readable_poke_keep)
  note w = subset_trans [OF jump_words_sub(1) jump_words_sub(3)]
  have keep: "jmp1_mem K jb ?fr ?S old ?m2"
    by (rule jmp1_mem_keep [OF assms(3) same_off_trans [OF b(3) same_off_mono [OF t2 w]]])
  have str: "c_str_at (p_mem (c_proc ?s2)) (lit K x) x" using jmp1_mem_text [OF keep assms(7)] by (simp add: x_def)
  let ?p = "\<lparr>p_mem = poke_mem ?m2 (errno_at K) 0, p_os = put_out 1 (map byte_of_char x) (p_os (c_proc s))\<rparr>"
  have wr: "mini_write K 1 (lit K x) (of_nat (length x)) (c_proc ?s2) = Inr (of_nat (length x), ?p)"
    using write_text [of "c_proc ?s2", OF _ str] jmp1_memD(2) [OF keep] assms(6) by simp
  let ?t = "?s2\<lparr>c_proc := ?p, c_reg := (jc_junk C x)(RSP := ?S - 16, RBP := ?S - 16)\<rparr>"
  have e: "errno_at K \<in> set (tl ?W)" by (simp add: jmp1_words_def)
  have t3: "same_off (tl ?W) ?m (p_mem ?p)"
    using same_off_mono [OF t2 jump_words_sub(1)] jmp1_memD(2) [OF keep] e by (simp add: same_off_poke)
  have ej: "jmp_words (poke_mem ?m2 (errno_at K) 0) jb = jmp_words ?m2 jb"
    using jmp1_memD(9) [OF keep] by (simp add: jmp_words_def)
  have words: "jmp_words (p_mem (c_proc ?t)) jb = map Some [r RBX, ?S - 8, r RBP, r R12, r R13, r R14, r R15, jc_set C]"
    using ej jmp_words_eqI [OF t2 stack_off_jb [OF mem(4)]] b(2) by simp
  have off: "same_off ?W m (p_mem (c_proc ?t))"
    using same_off_trans [OF b(3) same_off_mono [OF t3 jump_words_sub(3)]] by simp
  have q: "quiet (p_os (c_proc ?t))" "c_reg ?t RSP = ?S - 16" using quiet_put assms(5) by simp_all
  from c_longjmp_run [OF assms(1,2,3) off words q, of "jc_long C x" v]
  obtain q where q: "c_longjmp E (jc_long C x) jb v ?t = Inr q" "behind_call E C jb r m q" "c_reg q RAX = ucast v"
    "p_os (c_proc q) = set_mask (old AND NOT unblockable) (p_os (c_proc ?t))"
    "peek4 (p_mem (c_proc q)) ?fr = peek4 (p_mem (c_proc ?t)) ?fr" by blast
  have "peek4 (p_mem (c_proc ?t)) ?fr = peek4 ?m ?fr"
    using same_off_peek4 [OF t3 jmp1_mem_fr [OF assms(3)]] by simp
  moreover have "fun_body E C jb x v s = c_longjmp E (jc_long C x) jb v ?t"
    using enter wr strlen_text [OF str] by (simp add: fun_body_def assms(1))
  ultimately show ?thesis using q by simp
qed

text \<open>From a return of \<open>setjmp\<close> with \<open>i\<close> at \<open>k\<close> for this round: function \<open>k\<close> is next.\<close>

lemma jmp1_call_run:
  assumes "kern E = K" "jump_loaded E" "jmp1_mem K jb (r RBP + jc_i C) (r RSP) old m" "behind_call E C jb r m s"
    "quiet (p_os (c_proc s))" "takes (p_os (c_proc s)) 1" "k < 10" "peek4 (p_mem (c_proc s)) (r RBP + jc_i C) = Some (of_nat k)"
  shows "\<exists>q. jmp1_call E C jb s = Inr (Jumped q) \<and> behind_call E C jb r m q \<and> (ucast (c_reg q RAX) :: u32) = of_nat (Suc k) \<and>
    p_os (c_proc q) = set_mask (old AND NOT unblockable) (put_out 1 (map byte_of_char (fst (jump_funs ! k))) (p_os (c_proc s))) \<and>
    peek4 (p_mem (c_proc q)) (r RBP + jc_i C) = Some (of_nat k)"
proof -
  obtain x where x: "jump_funs ! k = (x, of_nat (Suc k))" using jump_values [OF assms(7)] by (metis prod.collapse)
  obtain q where q: "fun_body E C jb x (of_nat (Suc k)) s = Inr q" "behind_call E C jb r m q"
    "c_reg q RAX = ucast (of_nat (Suc k) :: u32)"
    "p_os (c_proc q) = set_mask (old AND NOT unblockable) (put_out 1 (map byte_of_char x) (p_os (c_proc s)))"
    "peek4 (p_mem (c_proc q)) (r RBP + jc_i C) = Some (of_nat k)"
    using fun_body_run [OF assms(1-7), of "of_nat (Suc k)"] assms(8) x by (auto simp del: of_nat_Suc)
  have "sint (of_nat k :: u32) = int k" using signal_number(1) [of k] assms(7) by simp
  moreover have "var_i C s = r RBP + jc_i C" using assms(4) by (simp add: var_i_def behind_call_def)
  ultimately have "jmp1_call E C jb s = Inr (Jumped q)"
    using assms(7,8) q(1) x by (simp add: jmp1_call_def ld4_def del: of_nat_Suc)
  moreover have "(ucast (ucast (of_nat (Suc k) :: u32) :: u64) :: u32) = of_nat (Suc k)"
    by (rule low_of_wide)
  ultimately show ?thesis using q x by (simp del: of_nat_Suc)
qed

text \<open>From the return of \<open>setjmp\<close> after function \<open>k\<close>: the other texts follow, and then \<open>main\<close> returns.\<close>

definition done_with :: "'w loaded \<Rightarrow> jump_code \<Rightarrow> u64 \<Rightarrow> u64 \<Rightarrow> (reg \<Rightarrow> u64) \<Rightarrow> memory \<Rightarrow> (u64 \<Rightarrow> u8 list) \<Rightarrow> 'w amd64 \<Rightarrow> bool" where
  "done_with E C jb old r m out q \<longleftrightarrow> c_reg q RAX = 0 \<and> (\<forall>x\<in>{RBX, RBP, R12, R13, R14, R15, RSP}. c_reg q x = r x) \<and>
     same_off (jmp1_words K jb (r RBP + jc_i C) (r RSP)) m (p_mem (c_proc q)) \<and>
     mask_of (p_os (c_proc q)) = old AND NOT unblockable \<and> out_of (p_os (c_proc q)) = out"

lemma inc_i_run:
  assumes "kern E = K" "jmp1_mem K jb (r RBP + jc_i C) (r RSP) old m" "behind_call E C jb r m s" "k < 10"
    "peek4 (p_mem (c_proc s)) (r RBP + jc_i C) = Some (of_nat k)"
  shows "\<exists>t. inc_i C s = Inr t \<and> behind_call E C jb r m t \<and> p_os (c_proc t) = p_os (c_proc s) \<and>
    peek4 (p_mem (c_proc t)) (r RBP + jc_i C) = Some (of_nat (Suc k))"
proof -
  let ?fr = "r RBP + jc_i C" and ?m = "p_mem (c_proc s)"
  let ?W = "jmp1_words K jb ?fr (r RSP)"
  have fr: "var_i C s = ?fr" "same_off ?W m ?m" using assms(3) by (simp_all add: var_i_def behind_call_def assms(1))
  let ?t = "s\<lparr>c_proc := (c_proc s)\<lparr>p_mem := poke4 ?m ?fr (of_nat (Suc k))\<rparr>\<rparr>"
  have "readable ?m ?fr" by (rule jmp1_memD(1) [OF jmp1_mem_keep [OF assms(2) fr(2)]])
  then have off: "same_off ?W m (p_mem (c_proc ?t))" using fr(2) by (simp add: same_off_poke4 jmp1_words_def)
  have "apart8 ?fr (jb + j)" if "j \<in> {0, 8, 16, 24, 32, 40, 48, 56}" for j
  proof -
    have "jb + j \<in> set (tl ?W)" using that by (auto simp: jmp1_words_def)
    then show ?thesis using jmp1_mem_fr [OF assms(2)] apart8_sym by blast
  qed
  then have "peek_mem (poke4 ?m ?fr v) (jb + j) = peek_mem ?m (jb + j)" if "j \<in> {0, 8, 16, 24, 32, 40, 48, 56}" for v j
    using that by simp
  then have "jmp_words (p_mem (c_proc ?t)) jb = jmp_words ?m jb" unfolding jmp_words_def by (intro map_cong refl) simp
  then have "behind_call E C jb r m ?t" using assms(3) off by (simp add: behind_call_def assms(1))
  moreover have "sint (of_nat k :: u32) = int k" using signal_number(1) [of k] assms(4) by simp
  then have "inc_i C s = Inr ?t" using fr(1) assms(4,5) by (simp add: inc_i_def ld4_def st4_def add.commute)
  ultimately show ?thesis by simp
qed

text \<open>The texts of the functions from \<open>k\<close> on.\<close>

abbreviation texts_from :: "nat \<Rightarrow> u8 list" where
  "texts_from k \<equiv> concat (map (map byte_of_char \<circ> fst) (drop k jump_funs))"

lemma texts_step: "k < 10 \<Longrightarrow> texts_from k = map byte_of_char (fst (jump_funs ! k)) @ texts_from (Suc k)"
proof -
  assume "k < 10"
  then have "drop k jump_funs = jump_funs ! k # drop (Suc k) jump_funs"
    by (intro Cons_nth_drop_Suc [symmetric]) (simp add: jump_funs_def)
  then show ?thesis by simp
qed

lemma jmp1_from_run:
  assumes "kern E = K" "jump_loaded E" "jmp1_mem K jb (r RBP + jc_i C) (r RSP) old m" "k < 10"
    "behind_call E C jb r m s" "quiet (p_os (c_proc s))" "takes (p_os (c_proc s)) 1"
    "(ucast (c_reg s RAX) :: u32) = of_nat (Suc k)" "mask_of (p_os (c_proc s)) = old AND NOT unblockable"
    "peek4 (p_mem (c_proc s)) (r RBP + jc_i C) = Some (of_nat k)"
  shows "\<exists>q. jmp1_from E C jb s = Some (Inr q) \<and> done_with E C jb old r m
    ((out_of (p_os (c_proc s)))(1 := out_of (p_os (c_proc s)) 1 @ texts_from (Suc k))) q"
  using assms(4-10)
proof (induction "9 - k" arbitrary: k s)
  case 0
  then have k: "k = 9" by simp
  obtain t where t: "inc_i C s = Inr t" "behind_call E C jb r m t" "p_os (c_proc t) = p_os (c_proc s)"
    "peek4 (p_mem (c_proc t)) (r RBP + jc_i C) = Some 10"
    using inc_i_run [OF assms(1,3) 0(3,2,8)] k by auto
  have "var_i C t = r RBP + jc_i C" "c_rip s = jc_set C" using t(2) 0(3) by (simp_all add: var_i_def behind_call_def)
  then have "jmp1_from E C jb s = Some (Inr (put_reg RAX 0 t))"
    using t(1,4) 0(6) k by (simp add: jmp1_from.simps [of _ _ _ s] jmp1_call_def ld4_def)
  moreover have "drop (Suc k) jump_funs = []" using k by (simp add: jump_funs_def)
  ultimately show ?case
    using t(2,3) 0(7) by (simp add: done_with_def put_reg_def behind_call_def assms(1))
next
  case (Suc n)
  then have k: "Suc k < 10" by simp
  obtain t where t: "inc_i C s = Inr t" "behind_call E C jb r m t" "p_os (c_proc t) = p_os (c_proc s)"
    "peek4 (p_mem (c_proc t)) (r RBP + jc_i C) = Some (of_nat (Suc k))"
    using inc_i_run [OF assms(1,3) Suc.prems(2,1,7)] by blast
  obtain q where q: "jmp1_call E C jb t = Inr (Jumped q)" "behind_call E C jb r m q"
    "(ucast (c_reg q RAX) :: u32) = of_nat (Suc (Suc k))"
    "p_os (c_proc q) = set_mask (old AND NOT unblockable) (put_out 1 (map byte_of_char (fst (jump_funs ! Suc k))) (p_os (c_proc s)))"
    "peek4 (p_mem (c_proc q)) (r RBP + jc_i C) = Some (of_nat (Suc k))"
    using jmp1_call_run [OF assms(1-3) t(2) _ _ k t(4)] Suc.prems(3,4) t(3) by auto
  have os: "quiet (p_os (c_proc q))" "takes (p_os (c_proc q)) 1" "mask_of (p_os (c_proc q)) = old AND NOT unblockable"
    "out_of (p_os (c_proc q)) = (out_of (p_os (c_proc s)))(1 := out_of (p_os (c_proc s)) 1 @ map byte_of_char (fst (jump_funs ! Suc k)))"
    unfolding q(4) using Suc.prems(3,4) by (simp_all add: quiet_mask quiet_put takes_mask takes_put mask_set out_mask out_put)
  have "n = 9 - Suc k" using Suc.hyps(2) by simp
  from Suc.hyps(1) [OF this k q(2) os(1,2) q(3) os(3) q(5)]
  obtain u where u: "jmp1_from E C jb q = Some (Inr u)" "done_with E C jb old r m
      ((out_of (p_os (c_proc q)))(1 := out_of (p_os (c_proc q)) 1 @ texts_from (Suc (Suc k)))) u" by blast
  have "(of_nat (Suc k) :: u32) \<noteq> 0"
  proof
    assume "(of_nat (Suc k) :: u32) = 0"
    then have "sint (of_nat (Suc k) :: u32) = 0" by simp
    then show False using signal_number(1) [of "Suc k"] k by simp
  qed
  moreover have "c_rip s = jc_set C" using Suc.prems(2) by (simp add: behind_call_def)
  ultimately have "jmp1_from E C jb s = jmp1_from E C jb q"
    using Suc.prems(5) t(1) q(1) by (simp add: jmp1_from.simps [of _ _ _ s] del: of_nat_Suc)
  then show ?case using u os(4) texts_step [OF k] by simp
qed

text \<open>The whole program.\<close>

lemma jmp1_prints:
  assumes "kern E = K" "jmp1_ok E C takes jb old s" "quiet (p_os (c_proc s))"
  shows "\<exists>q. jmp1_main E C jb s = Some (Inr q) \<and> done_with E C jb old (c_reg s) (p_mem (c_proc s))
    ((out_of (p_os (c_proc s)))(1 := out_of (p_os (c_proc s)) 1 @ texts_from 0)) q"
proof -
  let ?fr = "var_i C s" and ?m = "p_mem (c_proc s)"
  let ?W = "jmp1_words K jb ?fr (c_reg s RSP)"
  have ok: "jump_loaded E" "jmp1_mem K jb ?fr (c_reg s RSP) old ?m" "takes (p_os (c_proc s)) 1"
    using assms(1,2) by (simp_all add: jmp1_ok_def)
  let ?s = "s\<lparr>c_proc := (c_proc s)\<lparr>p_mem := poke4 ?m ?fr 0\<rparr>\<rparr>"
  have st: "st4 ?fr 0 (c_proc s) = Inr (c_proc ?s)" using readable_peek4 [OF jmp1_memD(1) [OF ok(2)]] by (auto simp: st4_def)
  have off: "same_off ?W ?m (p_mem (c_proc ?s))"
    using jmp1_memD(1) [OF ok(2)] by (simp add: same_off_poke4 jmp1_words_def)
  have off': "same_off (jmp1_words K jb (c_reg s RBP + jc_i C) (c_reg s RSP)) ?m (p_mem (c_proc ?s))"
    using off by (simp only: var_i_def)
  have fr: "var_i C ?s = ?fr" by (simp add: var_i_def)
  have keep: "jmp1_mem K jb (var_i C ?s) (c_reg ?s RSP) old (p_mem (c_proc ?s))"
    unfolding fr using jmp1_mem_keep [OF ok(2) off] by simp
  then have keep': "jmp1_mem K jb (c_reg s RBP + jc_i C) (c_reg s RSP) old (p_mem (c_proc ?s))" by (simp add: var_i_def)
  obtain t where t: "c_setjmp E (jc_set C) jb ?s = Inr t" "behind_call E C jb (c_reg s) (p_mem (c_proc ?s)) t"
    "c_reg t RAX = 0" "p_os (c_proc t) = p_os (c_proc s)" "peek4 (p_mem (c_proc t)) (c_reg s RBP + jc_i C) = Some (of_nat 0)"
    using c_setjmp_run [OF assms(1) ok(1) keep] assms(3) by (auto simp: var_i_def)
  obtain q where q: "jmp1_call E C jb t = Inr (Jumped q)" "behind_call E C jb (c_reg s) (p_mem (c_proc ?s)) q"
    "(ucast (c_reg q RAX) :: u32) = of_nat (Suc 0)"
    "p_os (c_proc q) = set_mask (old AND NOT unblockable) (put_out 1 (map byte_of_char (fst (jump_funs ! 0))) (p_os (c_proc s)))"
    "peek4 (p_mem (c_proc q)) (c_reg s RBP + jc_i C) = Some (of_nat 0)"
    using jmp1_call_run [OF assms(1) ok(1) keep' t(2) _ _ _ t(5)] assms(3) ok(3) t(4) by auto
  have os: "quiet (p_os (c_proc q))" "takes (p_os (c_proc q)) 1" "mask_of (p_os (c_proc q)) = old AND NOT unblockable"
    "out_of (p_os (c_proc q)) = (out_of (p_os (c_proc s)))(1 := out_of (p_os (c_proc s)) 1 @ map byte_of_char (fst (jump_funs ! 0)))"
    unfolding q(4) using assms(3) ok(3) by (simp_all add: quiet_mask quiet_put takes_mask takes_put mask_set out_mask out_put)
  have ten: "(0 :: nat) < 10" by simp
  from jmp1_from_run [OF assms(1) ok(1) keep' ten q(2) os(1,2) q(3) os(3) q(5)]
  obtain u where u: "jmp1_from E C jb q = Some (Inr u)" "done_with E C jb old (c_reg s) (p_mem (c_proc ?s))
      ((out_of (p_os (c_proc q)))(1 := out_of (p_os (c_proc q)) 1 @ texts_from (Suc 0))) u" by blast
  have "c_rip t = jc_set C" using t(2) by (simp add: behind_call_def)
  then have "jmp1_main E C jb s = Some (Inr u)"
    using st t(1,3) q(1) u(1) by (simp add: jmp1_main_def jmp1_from.simps [of _ _ _ t])
  moreover have "done_with E C jb old (c_reg s) ?m
      ((out_of (p_os (c_proc q)))(1 := out_of (p_os (c_proc q)) 1 @ texts_from (Suc 0))) u"
    using u(2) same_off_trans [OF off'] unfolding done_with_def by blast
  ultimately show ?thesis using os(4) texts_step [OF ten] by simp
qed

end

end
