(* ===== verification/Mini_Machine.thy ===== *)
theory Mini_Machine
  imports Mini_Alarm Mini_Jmp1
begin

text \<open>
  One kernel for the test programs of \<open>project3\<close>: signals, a timer and the bytes written to each descriptor.
  It satisfies the laws the programs' lemmas rest on, and the programs run on it.
\<close>

subsection \<open>The kernel\<close>

record unix_world =
  uw_sig :: sig_state
  uw_out :: "u64 \<Rightarrow> u8 list"

text \<open>A set of signals as a word, and bytes read from memory.\<close>

definition sig_word :: "nat set \<Rightarrow> u64" where
  "sig_word S = fold (\<lambda>k v. if k \<in> S then v OR push_bit (k - 1) 1 else v) [1..<65] 0"

definition read_bytes :: "memory \<Rightarrow> u64 \<Rightarrow> nat \<Rightarrow> u8 list option" where
  "read_bytes m a n =
     (if list_all (\<lambda>i. m (a + of_nat i) \<noteq> None) [0..<n] then Some (map (\<lambda>i. the (m (a + of_nat i))) [0..<n]) else None)"

abbreviation on_sig :: "(sig_state \<Rightarrow> sig_state) \<Rightarrow> unix_world proc \<Rightarrow> unix_world proc" where
  "on_sig f p \<equiv> p\<lparr>p_os := (p_os p)\<lparr>uw_sig := f (uw_sig (p_os p))\<rparr>\<rparr>"

definition sys_write :: "u64 \<Rightarrow> u64 \<Rightarrow> u64 \<Rightarrow> unix_world proc \<Rightarrow> u64 \<times> unix_world proc" where
  "sys_write fd buf n p =
     (case read_bytes (p_mem p) buf (unat n) of
        None \<Rightarrow> (- 14, p)
      | Some bs \<Rightarrow> (n, p\<lparr>p_os := (p_os p)\<lparr>uw_out := (uw_out (p_os p))(fd := uw_out (p_os p) fd @ bs)\<rparr>\<rparr>))"

text \<open>\<open>rt_sigprocmask\<close>: the old mask is written first, then the new one is read.\<close>

definition sys_mask :: "u64 \<Rightarrow> u64 \<Rightarrow> u64 \<Rightarrow> unix_world proc \<Rightarrow> u64 \<times> unix_world proc" where
  "sys_mask how nset oset p =
     (if oset \<noteq> 0 \<and> \<not> readable (p_mem p) oset then (- 14, p)
      else
        let p' = (if oset = 0 then p else p\<lparr>p_mem := poke_mem (p_mem p) oset (sig_word (sg_blocked (uw_sig (p_os p))))\<rparr>) in
        if nset = 0 then (0, p')
        else (case peek_mem (p_mem p) nset of
            None \<Rightarrow> (- 14, p)
          | Some v \<Rightarrow>
              if how = 0 then (0, on_sig (\<lambda>st. st\<lparr>sg_blocked := sg_blocked st \<union> (sigs v - {9, 19})\<rparr>) p')
              else if how = 1 then (0, on_sig (\<lambda>st. st\<lparr>sg_blocked := sg_blocked st - sigs v\<rparr>) p')
              else if how = 2 then (0, on_sig (\<lambda>st. st\<lparr>sg_blocked := sigs (v AND NOT unblockable)\<rparr>) p')
              else (- 22, p)))"

definition sys_alarm :: "u64 \<Rightarrow> unix_world proc \<Rightarrow> u64 \<times> unix_world proc" where
  "sys_alarm secs p =
     (of_nat (case sg_timer (uw_sig (p_os p)) of None \<Rightarrow> 0
        | Some a \<Rightarrow> min 0xffffffff ((a - sg_clock (uw_sig (p_os p)) + 999) div 1000)),
      on_sig (\<lambda>st. st\<lparr>sg_timer := (if secs = 0 then None else Some (sg_clock st + 1000 * unat secs))\<rparr>) p)"

definition put_action :: "u64 \<Rightarrow> u64 \<Rightarrow> memory \<Rightarrow> memory" where
  "put_action a h m = fold (\<lambda>d m. if readable m (a + d) then poke_mem m (a + d) 0 else m) [8, 16, 24]
     (if readable m a then poke_mem m a h else m)"

definition sys_action :: "u64 \<Rightarrow> u64 \<Rightarrow> u64 \<Rightarrow> unix_world proc \<Rightarrow> u64 \<times> unix_world proc" where
  "sys_action k act oact p =
     (let st = uw_sig (p_os p) in
      case peek_mem (p_mem p) act of
        None \<Rightarrow> (- 14, p)
      | Some h \<Rightarrow>
          if unat k \<notin> {1..64} - {9, 19} then (- 22, p)
          else (0, on_sig (\<lambda>st. st\<lparr>sg_action := (sg_action st)(unat k := h),
              sg_pending := (if h = SIG_IGN \<or> h = SIG_DFL \<and> unat k \<in> default_ignored then sg_pending st - {unat k} else sg_pending st)\<rparr>)
            (p\<lparr>p_mem := put_action oact (sg_action st (unat k)) (p_mem p)\<rparr>)))"

text \<open>What a signal that ends a wait does: a handler returns at once, the default ends the process or stops it.\<close>

definition sys_wait :: "nat option \<Rightarrow> unix_world proc \<Rightarrow> (u64 \<times> unix_world proc) option" where
  "sys_wait lim p =
     (case wait_until lim (uw_sig (p_os p)) of
        Forever \<Rightarrow> None
      | Elapsed st \<Rightarrow> Some (0, on_sig (\<lambda>x. st) p)
      | Caught k st \<Rightarrow> if sg_action st k = SIG_DFL then None else Some (- 4, on_sig (\<lambda>x. st) p))"

definition sys_sleep :: "u64 \<Rightarrow> unix_world proc \<Rightarrow> (u64 \<times> unix_world proc) option" where
  "sys_sleep req p =
     (case (peek_mem (p_mem p) req, peek_mem (p_mem p) (req + 8)) of
        (Some secs, Some nanos) \<Rightarrow>
          sys_wait (Some (sg_clock (uw_sig (p_os p)) + 1000 * unat secs + unat nanos div 1000000)) p
      | _ \<Rightarrow> Some (- 14, p))"

definition sys_pending :: "u64 \<Rightarrow> unix_world proc \<Rightarrow> u64 \<times> unix_world proc" where
  "sys_pending a p =
     (if readable (p_mem p) a then (0, p\<lparr>p_mem := poke_mem (p_mem p) a (sig_word (sg_pending (uw_sig (p_os p))))\<rparr>)
      else (- 14, p))"

definition machine_sysc :: "u64 \<Rightarrow> u64 list \<Rightarrow> unix_world proc \<Rightarrow> (u64 \<times> unix_world proc) option" where
  "machine_sysc n args p =
     (if n = 1 then Some (sys_write (args ! 0) (args ! 1) (args ! 2) p)
      else if n = 13 then Some (sys_action (args ! 0) (args ! 1) (args ! 2) p)
      else if n = 14 then Some (sys_mask (args ! 0) (args ! 1) (args ! 2) p)
      else if n = 34 then sys_wait None p
      else if n = 35 then sys_sleep (args ! 0) p
      else if n = 37 then Some (sys_alarm (args ! 0) p)
      else if n = 127 then Some (sys_pending (args ! 0) p)
      else Some (- 38, p))"

definition unix_machine :: "u64 \<Rightarrow> u64 \<Rightarrow> (string \<Rightarrow> u64) \<Rightarrow> unix_world unix" where
  "unix_machine e r l = \<lparr>sysc = machine_sysc, errno_at = e, myrt_at = r, lit = l\<rparr>"

subsection \<open>Its laws\<close>

lemma sig_fold:
  assumes "n \<le> 65"
  shows "bit (fold (\<lambda>k v. if k \<in> S then v OR push_bit (k - 1) 1 else v) [1..<n] (0 :: u64)) i \<longleftrightarrow>
    Suc i < n \<and> Suc i \<in> S"
  using assms
proof (induction n)
  case (Suc n)
  show ?case
  proof (cases "n = 0")
    case False
    then have "[1..<Suc n] = [1..<n] @ [n]" by simp
    then show ?thesis
      using Suc False by (auto simp: bit_or_iff bit_exp_iff possible_bit_word less_Suc_eq)
  qed simp
qed simp

lemma bit_sig_word: "bit (sig_word S) i \<longleftrightarrow> i < 64 \<and> Suc i \<in> S"
  unfolding sig_word_def by (subst sig_fold) auto

lemma sigs_word: "sigs (sig_word S) = S \<inter> {1..64}"
  by (auto simp: sigs_def bit_sig_word)

lemma word_sigs: "sig_word (sigs v) = v"
  by (rule bit_word_eqI) (simp add: bit_sig_word sigs_def)

lemma sigs_unblockable: "sigs v - {9, 19} = sigs (v AND NOT unblockable)"
proof -
  have "list_all (\<lambda>n. bit unblockable n \<longleftrightarrow> n = 8 \<or> n = 18) [0..<64]" by code_simp
  then have "bit unblockable n \<longleftrightarrow> n = 8 \<or> n = 18" if "n < 64" for n
    using that by (auto simp only: list_all_iff set_upt atLeastLessThan_iff)
  then show ?thesis by (auto simp: sigs_def bit_and_iff bit_not_iff)
qed

lemma read_bytes_holds: "holds_bytes m a bs \<Longrightarrow> read_bytes m a (length bs) = Some bs"
proof -
  assume h: "holds_bytes m a bs"
  then have "map (\<lambda>i. the (m (a + of_nat i))) [0..<length bs] = map ((!) bs) [0..<length bs]"
    by (intro map_cong) (simp_all add: holds_bytes_iff)
  then show ?thesis using h by (simp add: read_bytes_def holds_bytes_iff list_all_iff map_nth)
qed

lemma machine_write:
  assumes "holds_bytes (p_mem p) buf bs" "length bs < 2 ^ 31"
  shows "machine_sysc 1 [fd, buf, of_nat (length bs)] p = Some (of_nat (length bs),
    p\<lparr>p_os := (p_os p)\<lparr>uw_out := (uw_out (p_os p))(fd := uw_out (p_os p) fd @ bs)\<rparr>\<rparr>)"
  using read_bytes_holds [OF assms(1)] unat_small [of "length bs"] assms(2)
  by (simp add: machine_sysc_def sys_write_def)

lemma machine_action:
  assumes "peek_mem (p_mem p) act = Some h" "h \<noteq> SIG_DFL" "unat sn \<in> {1..64} - {9, 19}"
  shows "\<exists>m w. machine_sysc 13 [sn, act, oact, 8] p = Some (0, \<lparr>p_mem = m, p_os = w\<rparr>) \<and> still_mapped (p_mem p) m \<and>
    uw_out w = uw_out (p_os p) \<and>
    uw_sig w = (let st = uw_sig (p_os p) in st\<lparr>sg_action := (sg_action st)(unat sn := h),
      sg_pending := (if h = SIG_IGN then sg_pending st - {unat sn} else sg_pending st)\<rparr>)"
proof -
  have s: "machine_sysc 13 [sn, act, oact, 8] p = Some (0, \<lparr>p_mem = put_action oact (sg_action (uw_sig (p_os p)) (unat sn)) (p_mem p),
      p_os = (p_os p)\<lparr>uw_sig := (let st = uw_sig (p_os p) in st\<lparr>sg_action := (sg_action st)(unat sn := h),
        sg_pending := (if h = SIG_IGN then sg_pending st - {unat sn} else sg_pending st)\<rparr>)\<rparr>\<rparr>)"
    using assms by (cases p) (simp add: machine_sysc_def sys_action_def Let_def)
  have "still_mapped m (put_action a v m)" for m a v
    by (simp add: put_action_def still_mapped_def poke_mem_def)
  then show ?thesis unfolding s by - (intro exI, intro conjI, rule refl, simp_all)
qed

text \<open>Every descriptor takes what is written to it.\<close>

interpretation machine: signal_kernel "unix_machine e r l" "\<lambda>w fd. True" uw_out
  "\<lambda>fd bs w. w\<lparr>uw_out := (uw_out w)(fd := uw_out w fd @ bs)\<rparr>" uw_sig "\<lambda>w w'. uw_out w' = uw_out w"
  "\<lambda>h. h \<noteq> SIG_DFL \<and> h \<noteq> SIG_IGN" for e r l
proof (unfold_locales, goal_cases)
  case (1 p fd buf bs)
  then show ?case using machine_write by (simp add: unix_machine_def)
next
  case (4 p nset S)
  then obtain v where "peek_mem (p_mem p) nset = Some v" "S = sigs v" by (auto simp: sigset_at_def)
  with 4 show ?case by (cases p) (simp add: unix_machine_def machine_sysc_def sys_mask_def Let_def)
next
  case (5 secs p)
  have "sint (of_nat (min 0xffffffff k) :: u64) = int (min 0xffffffff k)" for k by (rule sint_small) simp
  then have "0 \<le> sint (of_nat (min 0xffffffff k) :: u64)" for k by simp
  then show ?case by (cases p) (simp add: unix_machine_def machine_sysc_def sys_alarm_def split: option.split)
next
  case (6 p act h sn oact)
  then show ?case using machine_action by (simp add: unix_machine_def)
next
  case (7 p req secs st left)
  then show ?case by (cases p) (simp add: unix_machine_def machine_sysc_def sys_sleep_def sys_wait_def)
next
  case (8 p k st)
  then show ?case by (cases p) (simp add: unix_machine_def machine_sysc_def sys_wait_def)
next
  case (9 p k st)
  then show ?case by (simp add: unix_machine_def machine_sysc_def sys_wait_def)
next
  case (10 p a)
  then show ?case
    using sigs_word by (simp add: unix_machine_def machine_sysc_def sys_pending_def) blast
qed simp_all

interpretation machine_jump: jump_kernel "unix_machine e r l" "\<lambda>w fd. True" uw_out
  "\<lambda>fd bs w. w\<lparr>uw_out := (uw_out w)(fd := uw_out w fd @ bs)\<rparr>" "\<lambda>w. sig_word (sg_blocked (uw_sig w))"
  "\<lambda>v w. w\<lparr>uw_sig := (uw_sig w)\<lparr>sg_blocked := sigs v\<rparr>\<rparr>" "\<lambda>w. sg_pending (uw_sig w) = {}" for e r l
proof (unfold_locales, goal_cases)
  case (2 p oset)
  have "\<not> readable (p_mem p) oset" using 2(2) by (auto simp: readable_iff intro!: exI [of _ 0])
  with 2 show ?case by (simp add: unix_machine_def machine_sysc_def sys_mask_def)
qed (simp_all add: unix_machine_def machine_sysc_def sys_mask_def word_sigs Let_def)

end
