(* ===== verification/Mini_Demo.thy ===== *)
theory Mini_Demo
  imports Mini_Sets Mini_Jump "HOL-Library.Code_Target_Numeral"
begin

text \<open>
  A small kernel and a process on which the theorems about \<open>project3\<close> are evaluated: a signal mask,
  one mapped range of memory, the routines loaded at fixed addresses.
\<close>

text \<open>
  Numbers 14, 1, 2 and 35: the mask calls the library makes, a \<open>write\<close> that takes everything, an \<open>open\<close>
  that finds nothing, and a sleep that a signal ends with seven seconds left.
\<close>

definition toy_sysc :: "u64 \<Rightarrow> u64 list \<Rightarrow> u64 proc \<Rightarrow> (u64 \<times> u64 proc) option" where
  "toy_sysc n args p =
     (if n = 14 then
        (case args of
           [how, nset, oset, len] \<Rightarrow>
             (if how = 0 \<and> nset = 0 \<and> readable (p_mem p) oset
                then Some (0, p\<lparr>p_mem := poke_mem (p_mem p) oset (p_os p)\<rparr>)
              else if how = 2 \<and> oset = 0 then
                (case peek_mem (p_mem p) nset of
                   None \<Rightarrow> Some (- 14, p)
                 | Some v \<Rightarrow> Some (0, p\<lparr>p_os := v AND NOT unblockable\<rparr>))
              else Some (- 14, p))
         | _ \<Rightarrow> Some (- 22, p))
      else if n = 1 then Some (args ! 2, p)
      else if n = 2 then Some (- 2, p)
      else if n = 35 then Some (- 4, p\<lparr>p_mem := poke_mem (p_mem p) (args ! 1) 7\<rparr>)
      else Some (- 38, p))"

definition toy_unix :: "u64 unix" where
  "toy_unix = \<lparr>sysc = toy_sysc, errno_at = 0x5000, myrt_at = 0x1700, lit = (\<lambda>s. 0x5800)\<rparr>"

interpretation toy: mask_kernel toy_unix "\<lambda>w. w" "\<lambda>v w. v" "\<lambda>w. True"
proof
  fix p :: "u64 proc" and oset :: u64
  assume "\<forall>i<8. p_mem p (oset + of_nat i) = None"
  then have "\<not> readable (p_mem p) oset" by (auto simp: readable_iff intro!: exI [of _ 0])
  then show "sysc toy_unix 14 [0, 0, oset, 8] p = Some (- 14, p)" by (simp add: toy_unix_def toy_sysc_def)
qed (simp_all add: toy_unix_def toy_sysc_def)

subsection \<open>The routines in memory\<close>

fun instrs :: "item list \<Rightarrow> instr list" where
  "instrs [] = []"
| "instrs (Label l # is) = instrs is"
| "instrs (Ins i # is) = i # instrs is"

definition instr_at :: "u64 \<Rightarrow> item list \<Rightarrow> u64 \<Rightarrow> instr option" where
  "instr_at a t x = (let k = unat (x - a) in if k < length (instrs t) then Some (instrs t ! k) else None)"

definition toy_code :: "u64 \<Rightarrow> instr option" where
  "toy_code x =
     (if x < 0x1100 then instr_at 0x1000 asm_setjmp x
      else if x < 0x1200 then instr_at 0x1100 asm_longjmp x
      else if x < 0x1300 then instr_at 0x1200 asm_open x
      else if x < 0x1400 then instr_at 0x1300 asm_sleep x
      else if x < 0x1500 then instr_at 0x1400 (gensys 14 ''rt_sigprocmask'') x
      else if x < 0x1600 then instr_at 0x1500 (gensys 2 ''open'') x
      else instr_at 0x1600 (gensys 35 ''nanosleep'') x)"

definition toy_addr :: "string \<Rightarrow> u64" where
  "toy_addr l = the (map_of
     [(''setjmp'', 0x1000), (''longjmp'', 0x1100), (''open'', 0x1200), (''open_error'', 0x1203),
      (''open_success'', 0x1208), (''open_quit'', 0x120a), (''sleep'', 0x1300), (''sleep_error'', 0x1308),
      (''sleep_interrupted'', 0x130b), (''sleep_failed'', 0x130e), (''sleep_quit'', 0x130f),
      (''sys_rt_sigprocmask'', 0x1400), (''sys_open'', 0x1500), (''sys_nanosleep'', 0x1600)] l)"

definition toy :: "u64 loaded" where
  "toy = \<lparr>kern = toy_unix, code_at = toy_code, sym_addr = toy_addr, rflags = (\<lambda>f. 0x202), sigreturn = (\<lambda>s. None)\<rparr>"

lemma toy_placed:
  "placed toy 0x1000 asm_setjmp" "placed toy 0x1100 asm_longjmp" "placed toy 0x1200 asm_open"
  "placed toy 0x1300 asm_sleep" "placed toy 0x1400 (gensys 14 ''rt_sigprocmask'')"
  "placed toy 0x1500 (gensys 2 ''open'')" "placed toy 0x1600 (gensys 35 ''nanosleep'')"
  by (simp_all add: toy_def toy_addr_def toy_code_def instr_at_def asm_setjmp_def asm_longjmp_def asm_open_def
      asm_sleep_def gensys_def)

lemma toy_loaded: "jump_loaded toy"
  using toy_placed by (simp add: jump_loaded_def toy_def toy_addr_def)

text \<open>Two pages of zeros; a process called at \<open>a\<close> with its return address at \<open>0x6f00\<close>.\<close>

definition toy_mem :: memory where
  "toy_mem = (\<lambda>x. if 0x5000 \<le> x \<and> x < 0x7000 then Some 0 else None)"

definition toy_cpu :: "u64 \<Rightarrow> u64 \<Rightarrow> u64 \<Rightarrow> u64 amd64" where
  "toy_cpu a di si = \<lparr>c_reg = (\<lambda>r. 0)(RSP := 0x6f00, RDI := di, RSI := si, RBX := 3), c_rip = a,
     c_flags = (False, False, False), c_proc = \<lparr>p_mem = poke_mem toy_mem 0x6f00 0x4242, p_os = 0x80\<rparr>\<rparr>"

lemma toy_mapped: "0x5000 \<le> a \<Longrightarrow> a \<le> 0x6ff8 \<Longrightarrow> i < 8 \<Longrightarrow> toy_mem (a + of_nat i) = Some 0"
proof -
  assume "0x5000 \<le> a" "a \<le> 0x6ff8" and i: "i < 8"
  then have a: "0x5000 \<le> unat a" "unat a \<le> 0x6ff8" by (simp_all add: word_le_nat_alt)
  have "a + of_nat i = of_nat (unat a + i)" by simp
  then have "unat (a + of_nat i) = unat a + i"
    using a i by (simp only: unat_of_nat) simp
  then show ?thesis using a i by (simp add: toy_mem_def word_le_nat_alt word_less_nat_alt)
qed

lemma toy_readable: "0x5000 \<le> a \<Longrightarrow> a \<le> 0x6ff8 \<Longrightarrow> readable toy_mem a"
  by (simp add: readable_iff toy_mapped)

lemma toy_zero: "0x5000 \<le> a \<Longrightarrow> a \<le> 0x6ff8 \<Longrightarrow> peek_mem toy_mem a = Some 0"
  by (rule peek_mem_holds) (simp add: holds_word_iff toy_mapped byte_of_0)

lemma toy_at_setjmp: "at_setjmp toy (toy_cpu 0x1000 0x5100 0) 0x5100 0x4242"
proof -
  have "list_all (\<lambda>i. poke_mem toy_mem 0x6f00 0x4242 (64 + of_nat i) = None) [0..<8]"
    by (simp add: upt_rec toy_mem_def poke_mem_def)
  moreover have "sym_addr toy ''setjmp'' = 0x1000" by (simp add: toy_def toy_addr_def)
  ultimately show ?thesis
    by (simp add: at_setjmp_def toy_cpu_def stack_ok_def off_stack_def toy_readable readable_poke_keep
        apart8_def word_le_nat_alt)
qed

lemma toy_setjmp_hyps: "kern toy = toy_unix" "peek_mem (p_mem (c_proc (toy_cpu 0x1000 0x5100 0))) (0x5100 + 64) = Some 0"
  by (simp_all add: toy_def toy_cpu_def toy_zero apart8_def word_le_nat_alt)

end
