(* ===== verification/Mini_Tests.thy ===== *)
theory Mini_Tests
  imports Mini_Machine Mini_Demo
begin

text \<open>
  The test programs of \<open>project3\<close> on the kernel of \<open>Mini_Machine\<close>: a process with two pages of memory, the
  texts of \<open>jmp1\<close> in one of them, on which the theorems about the programs are evaluated.
\<close>

subsection \<open>The alarm programs\<close>

definition test_unix :: "unix_world unix" where
  "test_unix = unix_machine 0x5000 0x1700 (\<lambda>s. 0x5800)"

text \<open>Nothing blocked, pending or handled; \<open>sent\<close> is what other processes will send.\<close>

definition test_proc :: "(nat \<times> nat) list \<Rightarrow> unix_world proc" where
  "test_proc sent = \<lparr>p_mem = toy_mem, p_os = \<lparr>uw_sig = \<lparr>sg_blocked = {}, sg_pending = {}, sg_action = (\<lambda>k. SIG_DFL),
     sg_timer = None, sg_sent = sent, sg_clock = 0\<rparr>, uw_out = (\<lambda>fd. [])\<rparr>\<rparr>"

lemma toy_none: "toy_mem x = None \<longleftrightarrow> \<not> (0x5000 \<le> unat x \<and> unat x < 0x7000)"
  by (simp add: toy_mem_def word_le_nat_alt word_less_nat_alt)

lemma test_frame: "i < 128 \<Longrightarrow> toy_mem (0x6000 + of_nat i) \<noteq> None \<and> 8 \<le> unat (0x1000 + of_nat i :: u64)"
  using unat_plus_small [of "0x6000" i] unat_plus_small [of "0x1000" i] by (simp only: toy_none) simp

lemma test_prog_ok: "prog_ok test_unix (\<lambda>w fd. True) 0x6000 (test_proc sent)"
  using test_frame
  by (simp add: prog_ok_def test_unix_def unix_machine_def test_proc_def toy_readable apart8_def word_le_nat_alt list_all_iff)

subsection \<open>Texts\<close>

text \<open>A list of texts in slots of 64 bytes, in memory that is zero else.\<close>

definition text_mem :: "string list \<Rightarrow> memory" where
  "text_mem ss x =
     (if toy_mem x = None then None
      else let i = unat (x - 0x5800); m = ss ! (i div 64) in
        Some (if i < 64 * length ss \<and> i mod 64 < length m then byte_of_char (m ! (i mod 64)) else 0))"

definition text_lit :: "string list \<Rightarrow> string \<Rightarrow> u64" where
  "text_lit ss s = 0x5800 + of_nat (64 * length (takeWhile (\<lambda>m. m \<noteq> s) ss))"

definition small_texts :: "string list \<Rightarrow> bool" where
  "small_texts ss \<longleftrightarrow> length ss \<le> 64 \<and> list_all (\<lambda>s. length s < 64 \<and> CHR 0x00 \<notin> set s) ss"

lemma text_mem_none: "text_mem ss x = None \<longleftrightarrow> toy_mem x = None"
  by (simp add: text_mem_def Let_def)

lemma text_mem_readable: "readable (text_mem ss) a = readable toy_mem a"
  by (simp add: readable_iff text_mem_none del: not_None_eq)

lemma text_mem_zero: "text_mem ss x = Some 0" if "0x5000 \<le> unat x" "unat x < 0x5800" "length ss \<le> 64"
proof -
  have "toy_mem x \<noteq> None" using that by (simp add: toy_none)
  moreover have "\<not> unat (x - 0x5800) < 64 * length ss" using that by (simp add: unat_sub_if')
  ultimately show ?thesis by (simp add: text_mem_def Let_def)
qed

lemma text_mem_word: "0x5000 \<le> unat a \<Longrightarrow> unat a + 8 \<le> 0x5800 \<Longrightarrow> length ss \<le> 64 \<Longrightarrow> peek_mem (text_mem ss) a = Some 0"
proof (rule peek_mem_holds)
  assume a: "0x5000 \<le> unat a" "unat a + 8 \<le> 0x5800" "length ss \<le> 64"
  have "text_mem ss (a + of_nat i) = Some 0" if "i < 8" for i
    using unat_plus_small [of a i] a that by (intro text_mem_zero) simp_all
  then show "holds_word (text_mem ss) a 0" by (simp add: holds_word_iff byte_of_0)
qed

lemma first_slot: "s \<in> set ss \<Longrightarrow> length (takeWhile (\<lambda>m. m \<noteq> s) ss) < length ss \<and> ss ! length (takeWhile (\<lambda>m. m \<noteq> s) ss) = s"
  by (induction ss) auto

text \<open>Each text is where its literal says, and the words below the texts and above them are apart from it.\<close>

lemma text_placed:
  assumes "small_texts ss" "s \<in> set ss"
  shows "c_str_at (text_mem ss) (text_lit ss s) s"
    and "unat e + 8 \<le> 0x5800 \<or> (0x5800 + 64 * length ss \<le> unat e \<and> unat e + 8 < 2 ^ 64) \<Longrightarrow> off_word e (text_lit ss s) (length s + 1)"
proof -
  let ?k = "length (takeWhile (\<lambda>m. m \<noteq> s) ss)"
  have k: "?k < length ss" "ss ! ?k = s"
    using first_slot [OF assms(2)] by blast+
  have n: "length ss \<le> 64" "length s < 64" "CHR 0x00 \<notin> set s"
    using assms by (auto simp: small_texts_def list_all_iff)
  have "text_mem ss (0x5800 + of_nat (64 * ?k) + of_nat i) = Some ((map byte_of_char s @ [0]) ! i)" if "i < length s + 1" for i
  proof -
    have a: "(0x5800 :: u64) + of_nat (64 * ?k) + of_nat i = 0x5800 + of_nat (64 * ?k + i)" by simp
    have b: "unat (0x5800 + of_nat (64 * ?k + i) :: u64) = 0x5800 + (64 * ?k + i)"
      using unat_plus_small [of "0x5800" "64 * ?k + i"] k(1) n that by simp
    have c: "unat (0x5800 + of_nat (64 * ?k + i) - 0x5800 :: u64) = 64 * ?k + i"
      using unat_small [of "64 * ?k + i"] k(1) n that by simp
    have d: "(64 * ?k + i) div 64 = ?k" "(64 * ?k + i) mod 64 = i" "64 * ?k + i < 64 * length ss" using that n k(1) by simp_all
    have "toy_mem (0x5800 + of_nat (64 * ?k + i)) \<noteq> None" unfolding toy_none b using k(1) n that by simp
    then show ?thesis
      unfolding a text_mem_def Let_def c d k(2) using d(3) that by (auto simp: nth_append)
  qed
  then show "c_str_at (text_mem ss) (text_lit ss s) s" using n by (simp add: text_lit_def c_str_at_def holds_bytes_iff)
  have u: "unat (0x5800 + of_nat (64 * ?k) :: u64) = 0x5800 + 64 * ?k"
    using unat_plus_small [of "0x5800" "64 * ?k"] k(1) n by simp
  assume "unat e + 8 \<le> 0x5800 \<or> (0x5800 + 64 * length ss \<le> unat e \<and> unat e + 8 < 2 ^ 64)"
  then show "off_word e (text_lit ss s) (length s + 1)"
    unfolding text_lit_def using off_word_range [of "0x5800 + of_nat (64 * ?k)" "length s + 1" e, unfolded u] k(1) n by auto
qed

subsection \<open>The jumps\<close>

definition jump_unix :: "unix_world unix" where
  "jump_unix = unix_machine 0x5000 0x1700 (text_lit (map fst jump_funs))"

definition jump_proc :: "unix_world proc" where
  "jump_proc = (test_proc [])\<lparr>p_mem := text_mem (map fst jump_funs)\<rparr>"

lemma jump_texts: "small_texts (map fst jump_funs)"
proof -
  have "CHR 0x00 \<noteq> newline" by code_simp
  then show ?thesis by (simp add: small_texts_def jump_funs_def)
qed

text \<open>
  The program in memory with the routines of \<open>Mini_Demo\<close>: the stack at \<open>0x6f00\<close>, \<open>i\<close> four bytes below the frame
  pointer, and functions that leave every register but those two at \<open>0x99\<close>.
\<close>

definition jump_toy :: "unix_world loaded" where
  "jump_toy = \<lparr>kern = jump_unix, code_at = toy_code, sym_addr = toy_addr, rflags = (\<lambda>f. 0x202), sigreturn = (\<lambda>s. None)\<rparr>"

definition jump_prog :: jump_code where
  "jump_prog = \<lparr>jc_i = - 4, jc_set = 0x4242, jc_call = 0x4250, jc_long = (\<lambda>m. 0x4300), jc_junk = (\<lambda>m r. 0x99)\<rparr>"

definition jump_cpu :: "unix_world amd64" where
  "jump_cpu = \<lparr>c_reg = (\<lambda>r. 0)(RSP := 0x6f00, RBP := 0x6f10, RBX := 3, R12 := 4), c_rip = 0x4230,
     c_flags = (False, False, False), c_proc = jump_proc\<rparr>"

lemma jump_toy_loaded: "jump_loaded jump_toy"
  by (simp add: jump_loaded_def jump_toy_def toy_addr_def toy_code_def instr_at_def asm_setjmp_def asm_longjmp_def gensys_def)

lemma jump_ready: "jmp1_ok jump_toy jump_prog (\<lambda>w fd. True) 0x5100 0 jump_cpu"
proof -
  have e: "errno_at jump_unix = 0x5000" by (simp add: jump_unix_def unix_machine_def)
  have words: "jmp1_words jump_unix 0x5100 0x6f0c 0x6f00 =
      [0x6f0c, 0x5000, 0x5100, 0x5108, 0x5110, 0x5118, 0x5120, 0x5128, 0x5130, 0x5138,
       0x6ef8, 0x6ef0, 0x6ee8, 0x6ee0, 0x6ed8, 0x6ed0, 0x6ec8]"
    by (simp add: jmp1_words_def e)
  have len: "length (map fst jump_funs) = 10" by (simp add: jump_funs_def)
  have "peek_mem (text_mem (map fst jump_funs)) 0x5140 = Some 0" using len by (intro text_mem_word) simp_all
  moreover have "c_str_at (text_mem (map fst jump_funs)) (lit jump_unix (fst x)) (fst x) \<and>
      list_all (\<lambda>e. off_word e (lit jump_unix (fst x)) (length (fst x) + 1)) (jmp1_words jump_unix 0x5100 0x6f0c 0x6f00)"
    if "x \<in> set jump_funs" for x
  proof -
    have "fst x \<in> set (map fst jump_funs)" using that by simp
    note placed = text_placed [OF jump_texts this, folded jump_unix_def]
    have "lit jump_unix (fst x) = text_lit (map fst jump_funs) (fst x)" by (simp add: jump_unix_def unix_machine_def)
    then show ?thesis unfolding words using placed len by simp
  qed
  moreover have "list_all (\<lambda>i. text_mem (map fst jump_funs) (64 + of_nat i) = None) [0..<8]"
    by (simp add: text_mem_none toy_mem_def upt_rec)
  moreover have "off_stack 0x5100 (0x6f00 - 8)" by (simp add: off_stack_def apart8_def word_le_nat_alt)
  ultimately have "jmp1_mem jump_unix 0x5100 0x6f0c 0x6f00 0 (text_mem (map fst jump_funs))"
    unfolding jmp1_mem_def words e list_all_iff [of _ jump_funs]
    by (simp add: text_mem_readable toy_readable apart8_def word_le_nat_alt)
  then show ?thesis
    using jump_toy_loaded by (simp add: jmp1_ok_def jump_toy_def jump_cpu_def jump_prog_def jump_proc_def var_i_def)
qed

lemma jump_kern: "kern jump_toy = jump_unix"
  by (simp add: jump_toy_def)

subsection \<open>Error messages\<close>

definition perror_unix :: "unix_world unix" where
  "perror_unix = unix_machine 0x5000 0x1700 (text_lit (''open'' # perror_lits))"

text \<open>A process whose \<open>errno\<close> is 2.\<close>

definition perror_proc :: "unix_world proc" where
  "perror_proc = (test_proc [])\<lparr>p_mem := poke_mem (text_mem (''open'' # perror_lits)) 0x5000 2\<rparr>"

lemma perror_texts: "small_texts (''open'' # perror_lits)"
proof -
  have "CHR 0x00 \<noteq> newline" by code_simp
  then show ?thesis by (simp add: small_texts_def perror_lits_def errmsg_def)
qed

lemma perror_ready:
  "lits_at perror_unix (p_mem perror_proc) perror_lits" "c_str_at (p_mem perror_proc) (lit perror_unix ''open'') ''open''"
proof -
  have e: "errno_at perror_unix = 0x5000" "\<And>s. lit perror_unix s = text_lit (''open'' # perror_lits) s"
    by (simp_all add: perror_unix_def unix_machine_def)
  have off: "off_word 0x5000 (lit perror_unix s) (length s + 1)" if "s \<in> set (''open'' # perror_lits)" for s
    unfolding e(2) using text_placed(2) [OF perror_texts that] by simp
  have at: "c_str_at (p_mem perror_proc) (lit perror_unix s) s" if "s \<in> set (''open'' # perror_lits)" for s
    using text_placed(1) [OF perror_texts that] off [OF that] by (simp add: perror_proc_def e(2) c_str_poke)
  show "lits_at perror_unix (p_mem perror_proc) perror_lits" using off at by (simp add: lits_at_def list_all_iff e(1))
  show "c_str_at (p_mem perror_proc) (lit perror_unix ''open'') ''open''" by (rule at) simp
qed

subsection \<open>The laws on these kernels\<close>

lemma test_laws: "signal_kernel test_unix (\<lambda>w fd. True) uw_out (\<lambda>fd bs w. w\<lparr>uw_out := (uw_out w)(fd := uw_out w fd @ bs)\<rparr>)
    uw_sig (\<lambda>w w'. uw_out w' = uw_out w) (\<lambda>h. h \<noteq> SIG_DFL \<and> h \<noteq> SIG_IGN)"
  unfolding test_unix_def by (rule machine.signal_kernel_axioms)

lemma jump_laws: "jump_kernel jump_unix (\<lambda>w fd. True) uw_out (\<lambda>fd bs w. w\<lparr>uw_out := (uw_out w)(fd := uw_out w fd @ bs)\<rparr>)
    (\<lambda>w. sig_word (sg_blocked (uw_sig w))) (\<lambda>v w. w\<lparr>uw_sig := (uw_sig w)\<lparr>sg_blocked := sigs v\<rparr>\<rparr>) (\<lambda>w. sg_pending (uw_sig w) = {})"
  unfolding jump_unix_def by (rule machine_jump.jump_kernel_axioms)

lemma perror_laws: "console_kernel perror_unix (\<lambda>w fd. True) uw_out (\<lambda>fd bs w. w\<lparr>uw_out := (uw_out w)(fd := uw_out w fd @ bs)\<rparr>)"
  unfolding perror_unix_def by (rule machine.console_kernel_axioms)

lemma perror_errno: "peek_mem (p_mem perror_proc) (errno_at perror_unix) = Some 2"
  by (simp add: perror_proc_def perror_unix_def unix_machine_def)

end
