(* ===== verification/Traps.thy ===== *)
theory Traps
  imports Sdb_State
begin

text \<open>
  \<open>CTF/ptrace/no_more_traps/test.cpp\<close>: a tracer that runs a program whose instructions have been replaced
  by trap bytes, and at every trap writes the byte that the next two hexadecimal digits of a text file
  give. Lemmas: what one trap does to the tracee, and what happens when the file has run out.
\<close>

subsection \<open>Digits\<close>

definition to_hex :: "int \<Rightarrow> u64" where
  "to_hex c = (let num = of_int c :: u64 in
     if num < 58 \<and> 47 < num then num - 48
     else if num < 103 \<and> 96 < num then num - 87
     else num)"

text \<open>The tracer: world, number of traps, rest of the file (\<open>None\<close> when it did not open), text on \<open>stderr\<close>.\<close>

record 'w patcher =
  t_w :: 'w
  t_count :: nat
  t_file :: "string option"
  t_err :: string

definition errquit :: "'w kernel \<Rightarrow> string \<Rightarrow> int \<Rightarrow> 'w patcher \<Rightarrow> 'w patcher outcome" where
  "errquit K msg e s = Exit (- 1) (s\<lparr>t_err := t_err s @ msg @ '': '' @ k_strerror K e @ [newline]\<rparr>)"

text \<open>\<open>fgetc\<close>: the next character or \<open>EOF\<close>, which is \<open>-1\<close>; undefined on a null stream.\<close>

definition fgetc :: "'w patcher \<Rightarrow> (int \<times> 'w patcher) option" where
  "fgetc s = (case t_file s of
     None \<Rightarrow> None
   | Some [] \<Rightarrow> Some (- 1, s)
   | Some (c # cs) \<Rightarrow> Some (int (of_char c), s\<lparr>t_file := Some cs\<rparr>))"

text \<open>The code of \<open>dump_code\<close>: an address and the bytes of a word in memory order.\<close>

definition dump_code :: "u64 \<Rightarrow> u64 \<Rightarrow> string" where
  "dump_code a w = ''## '' @ show_nat 16 (unat a) @ '': code ='' @
     concat (map (\<lambda>i. CHR '' '' # (let t = show_nat 16 (unat (byte_of w i)) in
       (if length t < 2 then ''0'' else []) @ t)) [0..<8]) @ [newline]"

subsection \<open>One stop\<close>

text \<open>A trap: two characters, the word with its low byte replaced, and the registers with \<open>rip\<close> moved back.\<close>

definition patch_trap :: "'w kernel \<Rightarrow> int \<Rightarrow> user_regs \<Rightarrow> u64 \<Rightarrow> 'w patcher \<Rightarrow> 'w patcher outcome" where
  "patch_trap K child r code s =
     (case fgetc (s\<lparr>t_count := Suc (t_count s)\<rparr>) of None \<Rightarrow> Undef | Some (h1, s) \<Rightarrow>
      case fgetc s of None \<Rightarrow> Undef | Some (h2, s) \<Rightarrow>
      (let c1 = to_hex h1; c2 = to_hex h2; hex = push_bit 4 c1 OR c2 in
       case k_poke K (t_w s) child (rip r) (set_low_byte code hex) of
         Inl e \<Rightarrow> errquit K ''ptrace(POKETEXT)'' e s
       | Inr w \<Rightarrow>
           (case k_setregs K w child r of
              Inl e \<Rightarrow> errquit K ''ptrace(SETREGS)'' e (s\<lparr>t_w := w\<rparr>)
            | Inr w \<Rightarrow> Ok (s\<lparr>t_w := w\<rparr>))))"

text \<open>A stop: the byte before the program counter decides; then the tracee is resumed, unchecked.\<close>

definition on_stop :: "'w kernel \<Rightarrow> int \<Rightarrow> 'w patcher \<Rightarrow> 'w patcher outcome" where
  "on_stop K child s =
     (case k_getregs K (t_w s) child of
        Inl e \<Rightarrow> errquit K ''ptrace(GETREGS)'' e s
      | Inr r \<Rightarrow>
          (let r = r\<lparr>rip := rip r - 1\<rparr>; code = k_peek K (t_w s) child (rip r) in
           seq (if byte_of code 0 = 0xcc then patch_trap K child r code s else Ok s)
             (\<lambda>s. Ok (case k_cont K (t_w s) child of Inl e \<Rightarrow> s | Inr w \<Rightarrow> s\<lparr>t_w := w\<rparr>))))"

subsection \<open>The program\<close>

text \<open>
  The loop ends when \<open>waitpid\<close> fails; a status that is not a stop goes straight to the next wait, and a
  tracee that never stops again leaves the tracer waiting (\<open>Blocked\<close>).
\<close>

partial_function (option) patch_loop :: "'w kernel \<Rightarrow> int \<Rightarrow> 'w patcher \<Rightarrow> 'w patcher outcome option" where
  "patch_loop K child s =
     (case k_waitpid K (t_w s) child of
        None \<Rightarrow> Some Blocked
      | Some (Inl e) \<Rightarrow> Some (Ok s)
      | Some (Inr (st, w)) \<Rightarrow>
          if \<not> WIFSTOPPED st then patch_loop K child (s\<lparr>t_w := w\<rparr>)
          else (case on_stop K child (s\<lparr>t_w := w\<rparr>) of
                  Ok s \<Rightarrow> patch_loop K child s
                | Exit n s \<Rightarrow> Some (Exit n s)
                | Undef \<Rightarrow> Some Undef
                | Blocked \<Rightarrow> Some Blocked))"

definition traps_main :: "'w kernel \<Rightarrow> 'w \<Rightarrow> 'w patcher outcome option" where
  "traps_main K w =
     (let s = \<lparr>t_w = w, t_count = 0, t_file = None, t_err = []\<rparr> in
      case k_fork_exec K w ''./no_more_traps'' of
        Inl e \<Rightarrow> Some (errquit K ''fork'' e s)
      | Inr (child, w) \<Rightarrow>
          (let s = s\<lparr>t_w := w, t_file := (case k_open K w ''no_more_traps.txt'' of
                 Inl e \<Rightarrow> None | Inr bs \<Rightarrow> Some (map char_of_byte bs))\<rparr> in
           case k_waitpid K w child of
             None \<Rightarrow> Some Blocked
           | Some (Inl e) \<Rightarrow> Some (errquit K ''waitpid'' e s)
           | Some (Inr (st, w)) \<Rightarrow>
               (let w = (case k_setoptions K w child of Inl e \<Rightarrow> w | Inr w \<Rightarrow> w);
                    w = (case k_cont K w child of Inl e \<Rightarrow> w | Inr w \<Rightarrow> w) in
                map_option (\<lambda>m. seq m (\<lambda>s. Ok (s\<lparr>t_err := t_err s @ ''## '' @ show_nat 10 (t_count s) @
                    '' cc instruction(s) executed'' @ [newline]\<rparr>)))
                  (patch_loop K child (s\<lparr>t_w := w\<rparr>)))))"

subsection \<open>What a trap does\<close>

text \<open>The two characters of a byte, as the file has them.\<close>

definition hex_pair :: "u8 \<Rightarrow> string" where
  "hex_pair b = [digit_char (unat b div 16), digit_char (unat b mod 16)]"

lemma to_hex_digit:
  assumes "d < 16"
  shows "to_hex (int (of_char (digit_char d))) = of_nat d"
proof -
  have "list_all (\<lambda>d. to_hex (int (of_char (digit_char d))) = of_nat d) [0..<16]"
    by (simp add: upt_rec to_hex_def digit_char_def)
  then show ?thesis using assms by (simp add: list_all_iff)
qed

lemma hex_byte: "push_bit 4 (of_nat (unat b div 16)) OR of_nat (unat b mod 16) = (ucast (b :: u8) :: u64)"
proof -
  let ?w = "ucast b :: u64"
  have w: "?w = of_nat (unat b)" by simp
  have lt: "unat b < 256" by (rule u8_lt)
  have "unat (drop_bit 4 ?w) = unat b div 16" "unat (take_bit 4 ?w) = unat b mod 16"
    unfolding w using lt by (simp_all only: unsigned_drop_bit_eq unsigned_take_bit_eq unat_of_nat drop_bit_eq_div take_bit_eq_mod)
      (simp_all add: unat_div unat_mod unsigned_ucast_eq take_bit_nat_eq_self)
  from this [symmetric] have "of_nat (unat b div 16) = drop_bit 4 ?w" "of_nat (unat b mod 16) = take_bit 4 ?w"
    by (simp_all only: of_nat_unat ucast_id)
  moreover have "push_bit 4 (drop_bit 4 ?w) OR take_bit 4 ?w = ?w"
    by (rule bit_word_eqI) (auto simp: bit_or_iff bit_push_bit_iff bit_drop_bit_eq bit_take_bit_iff)
  ultimately show ?thesis by simp
qed

context ptrace_kernel
begin

text \<open>A trap with a byte left in the file: the byte is written, the counter moved back to it.\<close>

lemma trap_patched:
  assumes "view (t_w s) child = Some t" "rip (regs t) = a + 1" "holds_word (mem t) a v" "byte_of v 0 = 0xcc"
    "t_file s = Some (hex_pair b @ more_text)"
  shows "\<exists>w. view w child = Some (t\<lparr>mem := (mem t)(a \<mapsto> b), regs := (regs t)\<lparr>rip := a\<rparr>\<rparr>) \<and>
    on_stop K child s = Ok (s\<lparr>t_count := Suc (t_count s), t_file := Some more_text,
      t_w := (case k_cont K w child of Inl e \<Rightarrow> w | Inr w' \<Rightarrow> w')\<rparr>)"
proof -
  let ?r = "(regs t)\<lparr>rip := a\<rparr>"
  from poke [OF assms(1) holds_word_readable [OF assms(3)], of "set_low_byte v (ucast b)"] obtain w1 where
    w1: "k_poke K (t_w s) child a (set_low_byte v (ucast b)) = Inr w1" and
    v1: "view w1 child = Some (t\<lparr>mem := (mem t)(a \<mapsto> b)\<rparr>)"
    using poke_low_byte [OF assms(3)] by auto
  from setregs [OF v1, of ?r] obtain w2 where w2: "k_setregs K w1 child ?r = Inr w2" and
    v2: "view w2 child = Some (t\<lparr>mem := (mem t)(a \<mapsto> b), regs := ?r\<rparr>)" by auto
  have d: "unat b div 16 < 16" "unat b mod 16 < 16" using u8_lt [of b] by simp_all
  have "patch_trap K child ?r v s = Ok (s\<lparr>t_count := Suc (t_count s), t_file := Some more_text, t_w := w2\<rparr>)"
    using assms(5) w1 w2
    by (simp add: patch_trap_def fgetc_def hex_pair_def to_hex_digit d hex_byte Let_def)
  then have "on_stop K child s = Ok (s\<lparr>t_count := Suc (t_count s), t_file := Some more_text,
      t_w := (case k_cont K w2 child of Inl e \<Rightarrow> w2 | Inr w' \<Rightarrow> w')\<rparr>)"
    using getregs [OF assms(1)] peek [OF assms(1,3)] assms(2,4)
    by (simp add: on_stop_def Let_def split: sum.split)
  with v2 show ?thesis by blast
qed

text \<open>A trap with nothing left: both digits are \<open>EOF\<close> and eight bytes of ones are written.\<close>

lemma trap_past_end:
  assumes "view (t_w s) child = Some t" "rip (regs t) = a + 1" "holds_word (mem t) a v" "byte_of v 0 = 0xcc"
    "t_file s = Some []"
  shows "\<exists>w. view w child = Some (t\<lparr>mem := poke_mem (mem t) a (- 1), regs := (regs t)\<lparr>rip := a\<rparr>\<rparr>) \<and>
    on_stop K child s = Ok (s\<lparr>t_count := Suc (t_count s),
      t_w := (case k_cont K w child of Inl e \<Rightarrow> w | Inr w' \<Rightarrow> w')\<rparr>)"
proof -
  let ?r = "(regs t)\<lparr>rip := a\<rparr>"
  from poke [OF assms(1) holds_word_readable [OF assms(3)], of "- 1"] obtain w1 where
    w1: "k_poke K (t_w s) child a (- 1) = Inr w1" and
    v1: "view w1 child = Some (t\<lparr>mem := poke_mem (mem t) a (- 1)\<rparr>)" by blast
  from setregs [OF v1, of ?r] obtain w2 where w2: "k_setregs K w1 child ?r = Inr w2" and
    v2: "view w2 child = Some (t\<lparr>mem := poke_mem (mem t) a (- 1), regs := ?r\<rparr>)" by auto
  have e: "to_hex (- 1) = - 1" by (simp add: to_hex_def)
  have "set_low_byte v (push_bit 4 (- 1) OR - 1) = - 1" by (simp add: set_low_byte_def)
  then have "patch_trap K child ?r v s = Ok (s\<lparr>t_count := Suc (t_count s), t_w := w2\<rparr>)"
    using assms(5) w1 w2 by (simp add: patch_trap_def fgetc_def e Let_def)
  then have "on_stop K child s = Ok (s\<lparr>t_count := Suc (t_count s),
      t_w := (case k_cont K w2 child of Inl e \<Rightarrow> w2 | Inr w' \<Rightarrow> w')\<rparr>)"
    using getregs [OF assms(1)] peek [OF assms(1,3)] assms(2,4)
    by (simp add: on_stop_def Let_def split: sum.split)
  with v2 show ?thesis by blast
qed

end

subsection \<open>Runs of the tracer\<close>

text \<open>One turn of the wait loop: a status that is not a stop, or a stop that has been handled.\<close>

inductive patch_step :: "'w kernel \<Rightarrow> int \<Rightarrow> 'w patcher \<Rightarrow> 'w patcher \<Rightarrow> bool" for K child where
  other: "k_waitpid K (t_w s) child = Some (Inr (st, w)) \<Longrightarrow> \<not> WIFSTOPPED st \<Longrightarrow> patch_step K child s (s\<lparr>t_w := w\<rparr>)"
| stop: "k_waitpid K (t_w s) child = Some (Inr (st, w)) \<Longrightarrow> WIFSTOPPED st \<Longrightarrow> on_stop K child (s\<lparr>t_w := w\<rparr>) = Ok s' \<Longrightarrow>
    patch_step K child s s'"

text \<open>The loop returns normally exactly from the states in which \<open>waitpid\<close> fails, by such turns.\<close>

lemma patch_loop_steps:
  assumes "patch_loop K child s = Some (Ok s')"
  shows "(patch_step K child)\<^sup>*\<^sup>* s s' \<and> (\<exists>e. k_waitpid K (t_w s') child = Some (Inl e))"
proof -
  have "\<forall>s'. m = Ok s' \<longrightarrow> (patch_step K child)\<^sup>*\<^sup>* s s' \<and> (\<exists>e. k_waitpid K (t_w s') child = Some (Inl e))"
    if "patch_loop K child s = Some m" for m
  proof (rule patch_loop.raw_induct [where P = "\<lambda>K child s m. \<forall>s'. m = Ok s' \<longrightarrow>
      (patch_step K child)\<^sup>*\<^sup>* s s' \<and> (\<exists>e. k_waitpid K (t_w s') child = Some (Inl e))", rotated, OF that], goal_cases)
    case (1 loop K child s m)
    show ?case
    proof (cases "k_waitpid K (t_w s) child")
      case None
      with 1(2) show ?thesis by auto
    next
      case (Some r)
      show ?thesis
      proof (cases r)
      case (Inl e)
      with Some 1(2) show ?thesis by auto
    next
      case (Inr x)
      with Some obtain st w where w: "k_waitpid K (t_w s) child = Some (Inr (st, w))" by (cases x) auto
      show ?thesis
      proof (cases "WIFSTOPPED st")
        case False
        then have "loop K child (s\<lparr>t_w := w\<rparr>) = Some m" using 1(2) w by simp
        from 1(1) [OF this] patch_step.other [OF w False] show ?thesis
          by (blast intro: converse_rtranclp_into_rtranclp)
      next
        case True
        show ?thesis
        proof (cases "on_stop K child (s\<lparr>t_w := w\<rparr>)")
          case (Ok s1)
          then have "loop K child s1 = Some m" using 1(2) w True by simp
          from 1(1) [OF this] patch_step.stop [OF w True Ok] show ?thesis
          by (blast intro: converse_rtranclp_into_rtranclp)
        qed (use 1(2) w True in auto)
      qed
      qed
    qed
  qed
  with assms show ?thesis by blast
qed

lemma patch_steps_loop:
  assumes "(patch_step K child)\<^sup>*\<^sup>* s s'" "k_waitpid K (t_w s') child = Some (Inl e)"
  shows "patch_loop K child s = Some (Ok s')"
  using assms
proof (induction rule: converse_rtranclp_induct)
  case base
  then show ?case by (simp add: patch_loop.simps)
next
  case (step s s1)
  from step(1) show ?case
  proof (cases rule: patch_step.cases)
    case (other st w)
    then show ?thesis using step.IH [OF step.prems] by (simp add: patch_loop.simps [of K child s])
  next
    case (stop st w)
    then show ?thesis using step.IH [OF step.prems] by (simp add: patch_loop.simps [of K child s])
  qed
qed

text \<open>Every trap uses up two characters of the file, as long as there are two.\<close>

lemma on_stop_file:
  assumes "on_stop K child s = Ok s'" "t_file s = Some f"
  shows "t_count s \<le> t_count s' \<and> t_file s' = Some (drop (2 * (t_count s' - t_count s)) f)"
proof -
  have get: "fgetc s = Some (c, s1) \<Longrightarrow> t_file s = Some f \<Longrightarrow> t_file s1 = Some (drop 1 f) \<and> t_count s1 = t_count s" for s s1 c f
    by (auto simp: fgetc_def drop_Suc split: list.splits)
  have trap: "t_count s1 = Suc (t_count s) \<and> t_file s1 = Some (drop 2 f)"
    if pt: "patch_trap K child r code s = Ok s1" and tf: "t_file s = Some f" for r code s s1
  proof -
    obtain h1 s2 where g1: "fgetc (s\<lparr>t_count := Suc (t_count s)\<rparr>) = Some (h1, s2)"
      using pt by (cases "fgetc (s\<lparr>t_count := Suc (t_count s)\<rparr>)") (auto simp: patch_trap_def)
    then obtain h2 s3 where g2: "fgetc s2 = Some (h2, s3)"
      using pt by (cases "fgetc s2") (auto simp: patch_trap_def)
    have "t_file s3 = Some (drop 2 f) \<and> t_count s3 = Suc (t_count s)"
      using get [OF g1] get [OF g2] tf by (simp add: numeral_2_eq_2 drop_Suc)
    then show ?thesis using pt g1 g2 by (auto simp: patch_trap_def Let_def errquit_def split: sum.splits)
  qed
  obtain r where r: "k_getregs K (t_w s) child = Inr r"
    using assms(1) by (auto simp: on_stop_def errquit_def split: sum.splits)
  let ?code = "k_peek K (t_w s) child (rip r - 1)"
  show ?thesis
  proof (cases "byte_of ?code 0 = 0xcc")
    case True
    then obtain s1 where "patch_trap K child (r\<lparr>rip := rip r - 1\<rparr>) ?code s = Ok s1"
      using assms(1) r by (cases "patch_trap K child (r\<lparr>rip := rip r - 1\<rparr>) ?code s") (auto simp: on_stop_def Let_def)
    with trap [OF this assms(2)] True assms(1) r show ?thesis
      by (auto simp: on_stop_def Let_def split: sum.splits)
  next
    case False
    then show ?thesis using assms r by (auto simp: on_stop_def Let_def split: sum.splits)
  qed
qed

lemma patch_steps_file:
  assumes "(patch_step K child)\<^sup>*\<^sup>* s s'" "t_file s = Some f"
  shows "t_count s \<le> t_count s' \<and> t_file s' = Some (drop (2 * (t_count s' - t_count s)) f)"
  using assms
proof (induction rule: rtranclp_induct)
  case (step s1 s2)
  note IH = step.IH [OF step.prems]
  from step(2) show ?case
  proof (cases rule: patch_step.cases)
    case (other st w)
    then show ?thesis using IH by simp
  next
    case (stop st w)
    have "t_file (s1\<lparr>t_w := w\<rparr>) = Some (drop (2 * (t_count s1 - t_count s)) f)" using IH by simp
    from on_stop_file [OF stop(3) this] IH show ?thesis by (auto simp: diff_mult_distrib2)
  qed
qed simp

lemma drop_hex: "drop (2 * k) (concat (map hex_pair bs)) = concat (map hex_pair (drop k bs))"
proof (induction k arbitrary: bs)
  case (Suc k)
  then show ?case by (cases bs) (simp_all add: hex_pair_def)
qed simp

context ptrace_kernel
begin

text \<open>So the \<open>k\<close>th trap of a run writes the \<open>k\<close>th byte of the file.\<close>

lemma trap_in_order:
  assumes "(patch_step K child)\<^sup>*\<^sup>* s0 s" "t_count s0 = 0" "t_file s0 = Some (concat (map hex_pair bs))"
    "k_waitpid K (t_w s) child = Some (Inr (st, w0))" "WIFSTOPPED st" "view w0 child = Some t" "rip (regs t) = a + 1"
    "holds_word (mem t) a v" "byte_of v 0 = 0xcc" "t_count s < length bs"
  shows "\<exists>w. view w child = Some (t\<lparr>mem := (mem t)(a \<mapsto> bs ! t_count s), regs := (regs t)\<lparr>rip := a\<rparr>\<rparr>) \<and>
    patch_step K child s (s\<lparr>t_count := Suc (t_count s), t_file := Some (concat (map hex_pair (drop (Suc (t_count s)) bs))),
      t_w := (case k_cont K w child of Inl e \<Rightarrow> w | Inr w' \<Rightarrow> w')\<rparr>)"
proof -
  have "t_file s = Some (hex_pair (bs ! t_count s) @ concat (map hex_pair (drop (Suc (t_count s)) bs)))"
    using patch_steps_file [OF assms(1,3)] assms(2,10) by (simp add: drop_hex Cons_nth_drop_Suc [symmetric])
  from trap_patched [of "s\<lparr>t_w := w0\<rparr>" child t a v "bs ! t_count s", OF _ assms(7-9)] this assms(6)
  obtain w where w: "view w child = Some (t\<lparr>mem := (mem t)(a \<mapsto> bs ! t_count s), regs := (regs t)\<lparr>rip := a\<rparr>\<rparr>)"
    "on_stop K child (s\<lparr>t_w := w0\<rparr>) = Ok (s\<lparr>t_count := Suc (t_count s),
      t_file := Some (concat (map hex_pair (drop (Suc (t_count s)) bs))),
      t_w := (case k_cont K w child of Inl e \<Rightarrow> w | Inr w' \<Rightarrow> w')\<rparr>)" by auto
  from w(1) patch_step.stop [OF assms(4,5) w(2)] show ?thesis by blast
qed

text \<open>After the last byte of the file, a trap is overwritten with eight bytes of ones.\<close>

lemma trap_after_last:
  assumes "(patch_step K child)\<^sup>*\<^sup>* s0 s" "t_count s0 = 0" "t_file s0 = Some (concat (map hex_pair bs))"
    "k_waitpid K (t_w s) child = Some (Inr (st, w0))" "WIFSTOPPED st" "view w0 child = Some t" "rip (regs t) = a + 1"
    "holds_word (mem t) a v" "byte_of v 0 = 0xcc" "length bs \<le> t_count s"
  shows "\<exists>w. view w child = Some (t\<lparr>mem := poke_mem (mem t) a (- 1), regs := (regs t)\<lparr>rip := a\<rparr>\<rparr>) \<and>
    patch_step K child s (s\<lparr>t_count := Suc (t_count s), t_w := (case k_cont K w child of Inl e \<Rightarrow> w | Inr w' \<Rightarrow> w')\<rparr>)"
proof -
  have "t_file s = Some []" using patch_steps_file [OF assms(1,3)] assms(2,10) by (simp add: drop_hex)
  with trap_past_end [of "s\<lparr>t_w := w0\<rparr>" child t a v, OF _ assms(7-9)] assms(6)
  obtain w where w: "view w child = Some (t\<lparr>mem := poke_mem (mem t) a (- 1), regs := (regs t)\<lparr>rip := a\<rparr>\<rparr>)"
    "on_stop K child (s\<lparr>t_w := w0\<rparr>) = Ok (s\<lparr>t_count := Suc (t_count s),
      t_w := (case k_cont K w child of Inl e \<Rightarrow> w | Inr w' \<Rightarrow> w')\<rparr>)" by auto
  from w(1) patch_step.stop [OF assms(4,5) w(2)] show ?thesis by blast
qed

end

end
