(* ===== verification/Traceme.thy ===== *)
theory Traceme
  imports Ctext
begin

text \<open>
  \<open>CTF/ptrace/traceme/traceme2.c\<close>, a program that asks to be traced: untraced, its own signal ends it; under a
  tracer that takes the signal, it goes on and builds a text in memory, which it never prints. The array \<open>data\<close>
  and the function \<open>f\<close>, which the file elides, are parameters.
\<close>

record traceme =
  tm_traced :: int
  tm_caught :: bool
  tm_printed :: string
  tm_output :: "u8 list"

definition tm_start :: traceme where
  "tm_start = \<lparr>tm_traced = 1, tm_caught = False, tm_printed = [], tm_output = replicate 64 0\<rparr>"

definition tm_handler :: "traceme \<Rightarrow> traceme outcome" where
  "tm_handler s = Exit 0 (s\<lparr>tm_traced := 0, tm_caught := False, tm_printed := tm_printed s @ ''trace me, please.'' @ [newline]\<rparr>)"

text \<open>The assignment in the loop: an index outside \<open>data\<close>, or a sum that overflows, is undefined.\<close>

definition tm_byte :: "u8 list \<Rightarrow> (int \<Rightarrow> int) \<Rightarrow> nat \<Rightarrow> traceme \<Rightarrow> traceme outcome" where
  "tm_byte data f i s =
     (let k = 1337 + f (int i) in
      if 0 \<le> k \<and> k < int (length data) \<and> k < 2 ^ 31 then Ok (s\<lparr>tm_output := (tm_output s)[i := data ! nat k]\<rparr>) else Undef)"

function tm_loop :: "u8 list \<Rightarrow> (int \<Rightarrow> int) \<Rightarrow> nat \<Rightarrow> traceme \<Rightarrow> traceme outcome" where
  "tm_loop data f i s =
     (if i < 37 then seq (tm_byte data f i s) (tm_loop data f (i + 1)) else Ok (s\<lparr>tm_output := (tm_output s)[i := 0]\<rparr>))"
  by auto

termination by (relation "measure (\<lambda>(data, f, i, s). 37 - i)") simp_all

text \<open>\<open>delivered\<close>: whether the signal of \<open>raise\<close> reaches the process, or a tracer takes it.\<close>

definition tm_main :: "u8 list \<Rightarrow> (int \<Rightarrow> int) \<Rightarrow> bool \<Rightarrow> traceme \<Rightarrow> traceme outcome" where
  "tm_main data f delivered s =
     (let s = s\<lparr>tm_caught := True\<rparr> in
      seq (if delivered then tm_handler s else Ok s) (\<lambda>s.
      let s = s\<lparr>tm_printed := tm_printed s @ ''traced'' @ [newline]\<rparr> in
      seq (tm_loop data f 0 s) (\<lambda>s. Exit 0 s)))"

subsection \<open>What a run leaves\<close>

declare tm_loop.simps [simp del]

text \<open>The text: 37 bytes of \<open>data\<close>, in the order \<open>f\<close> gives, and a terminator.\<close>

definition tm_text :: "u8 list \<Rightarrow> (int \<Rightarrow> int) \<Rightarrow> u8 list" where
  "tm_text data f = map (\<lambda>i. data ! nat (1337 + f (int i))) [0..<37] @ [0]"

definition tm_inside :: "u8 list \<Rightarrow> (int \<Rightarrow> int) \<Rightarrow> bool" where
  "tm_inside data f \<longleftrightarrow> length data < 2 ^ 31 \<and> list_all (\<lambda>i. 0 \<le> 1337 + f (int i) \<and> 1337 + f (int i) < int (length data)) [0..<37]"

lemma tm_loop_from:
  assumes "tm_inside data f" "i \<le> 37" "length (tm_output s) = 64" "take i (tm_output s) = take i (tm_text data f)"
  shows "tm_loop data f i s = Ok (s\<lparr>tm_output := tm_text data f @ drop 38 (tm_output s)\<rparr>)"
  using assms(2-)
proof (induction "37 - i" arbitrary: i s)
  case 0
  then have i: "i = 37" by simp
  have "(tm_output s)[37 := 0] = take 37 (tm_output s) @ 0 # drop 38 (tm_output s)"
    using 0 by (simp add: upd_conv_take_nth_drop)
  also have "take 37 (tm_output s) = take 37 (tm_text data f)" using 0 i by simp
  finally show ?case unfolding i by (simp add: tm_loop.simps [of _ _ 37] tm_text_def)
next
  case (Suc n)
  then have i: "i < 37" by simp
  let ?k = "1337 + f (int i)"
  have k: "0 \<le> ?k" "?k < int (length data)" using assms(1) i by (auto simp: tm_inside_def list_all_iff)
  then have "?k < 2 ^ 31" using assms(1) by (simp add: tm_inside_def)
  note k = k this
  have t: "tm_text data f ! i = data ! nat ?k" "length (tm_text data f) = 38" using i by (simp_all add: tm_text_def nth_append)
  let ?s = "s\<lparr>tm_output := (tm_output s)[i := data ! nat ?k]\<rparr>"
  have "take (i + 1) (tm_output ?s) = take (i + 1) (tm_text data f)"
    using i Suc.prems t by (simp add: take_Suc_conv_app_nth)
  moreover have "drop 38 (tm_output ?s) = drop 38 (tm_output s)" using i by simp
  ultimately show ?case
    using Suc.hyps(1) [of "i + 1" ?s] Suc.hyps(2) Suc.prems i k tm_loop.simps [of data f i s] by (simp add: tm_byte_def)
qed

lemma traced_builds_text:
  assumes "tm_inside data f"
  shows "\<exists>s. tm_main data f False tm_start = Exit 0 s \<and> tm_printed s = ''traced'' @ [newline] \<and> take 38 (tm_output s) = tm_text data f"
proof -
  have "length (tm_text data f) = 38" by (simp add: tm_text_def)
  then show ?thesis using tm_loop_from [OF assms, of 0] by (simp add: tm_main_def tm_start_def)
qed

lemma untraced_exits:
  "\<exists>s. tm_main data f True tm_start = Exit 0 s \<and> tm_printed s = ''trace me, please.'' @ [newline] \<and> tm_output s = replicate 64 0"
  by (simp add: tm_main_def tm_start_def tm_handler_def)

end
