(* ===== verification/Ctf_Cpu.thy ===== *)
theory Ctf_Cpu
  imports Mini_Asm
begin

text \<open>
  The processor of the exercises in \<open>CTF/assembly\<close>: the x86-64 instructions they use, on registers with
  their 8, 16, 32 and 64-bit parts, the flags, and byte memory, and an interpreter that runs a listing one
  instruction at a time. A flag an instruction leaves undefined is \<open>None\<close>, and a jump that reads one stops
  the run, so that no theorem rests on its value.
\<close>

subsection \<open>Instructions\<close>

datatype width = W8 | W16 | W32 | W64

text \<open>An address: registers with their scales, and a displacement, computed in 64 or in 32 bits.\<close>

datatype addr = A64 "(reg \<times> u64) list" u64 | A32 "(reg \<times> u64) list" u64

text \<open>A register stands for its low part of the width of the instruction; \<open>CH\<close> is the second byte of \<open>rcx\<close>.\<close>

datatype arg = XR reg | CH | XN u64 | At addr

datatype alu = ADD | SUB | CMP | ANDB | ORB | XORB

datatype cond = JL | JLE | JG | JGE | JE | JC | JAE

datatype x86 =
    MOV width arg arg
  | LEA width reg addr
  | ALU alu width arg arg
  | NEG width arg
  | INC width arg
  | DEC width arg
  | SHL width arg nat
  | SHR width arg nat
  | MUL width arg
  | IMUL width arg
  | DIV width arg
  | IDIV width arg
  | CDQ
  | JMP string
  | JCC cond string
  | LOOP string
  | PUSH arg
  | POP reg
  | CALL string
  | RET

datatype xitem = LBL string | INS x86

fun xcode :: "xitem list \<Rightarrow> x86 list" where
  "xcode [] = []"
| "xcode (LBL l # is) = xcode is"
| "xcode (INS i # is) = i # xcode is"

text \<open>The number of instructions before a label.\<close>

fun xlabel :: "xitem list \<Rightarrow> string \<Rightarrow> nat" where
  "xlabel [] l = 0"
| "xlabel (LBL l' # is) l = (if l' = l then 0 else xlabel is l)"
| "xlabel (INS i # is) l = xlabel is l + 1"

subsection \<open>State\<close>

record flags =
  f_c :: "bool option"
  f_z :: "bool option"
  f_s :: "bool option"
  f_o :: "bool option"

record xcpu =
  x_reg :: "reg \<Rightarrow> u64"
  x_pc :: nat
  x_fl :: flags
  x_mem :: memory

text \<open>
  Memory that is not mapped, a division that fails, a jump on an undefined flag or an instruction form the
  exercises do not use, and the end of the listing.
\<close>

datatype cpu_stop = Fault | Divide | Unknown | Ended

fun bits :: "width \<Rightarrow> nat" where
  "bits W8 = 8"
| "bits W16 = 16"
| "bits W32 = 32"
| "bits W64 = 64"

definition low :: "width \<Rightarrow> u64 \<Rightarrow> u64" where
  "low w v = take_bit (bits w) v"

definition sval :: "width \<Rightarrow> u64 \<Rightarrow> int" where
  "sval w v = signed_take_bit (bits w - 1) (uint v)"

text \<open>A 32-bit write clears the upper half of the register, a shorter one keeps the rest.\<close>

fun set_low :: "width \<Rightarrow> u64 \<Rightarrow> u64 \<Rightarrow> u64" where
  "set_low W64 old v = v"
| "set_low W32 old v = low W32 v"
| "set_low W16 old v = (old AND NOT (mask 16)) OR low W16 v"
| "set_low W8 old v = (old AND NOT (mask 8)) OR low W8 v"

definition load_mem :: "memory \<Rightarrow> u64 \<Rightarrow> nat \<Rightarrow> u64 option" where
  "load_mem m a n =
     (if list_all (\<lambda>i. m (a + of_nat i) \<noteq> None) [0..<n]
      then Some (of_nat (le_val (map (\<lambda>i. the (m (a + of_nat i))) [0..<n]))) else None)"

definition store_mem :: "memory \<Rightarrow> u64 \<Rightarrow> nat \<Rightarrow> u64 \<Rightarrow> memory option" where
  "store_mem m a n v =
     (if list_all (\<lambda>i. m (a + of_nat i) \<noteq> None) [0..<n]
      then Some (\<lambda>x. if unat (x - a) < n then Some (byte_of v (unat (x - a))) else m x) else None)"

fun ea :: "addr \<Rightarrow> xcpu \<Rightarrow> u64" where
  "ea (A64 rs d) s = sum_list (map (\<lambda>(r, k). k * x_reg s r) rs) + d"
| "ea (A32 rs d) s = take_bit 32 (sum_list (map (\<lambda>(r, k). k * x_reg s r) rs) + d)"

fun get_arg :: "width \<Rightarrow> arg \<Rightarrow> xcpu \<Rightarrow> cpu_stop + u64" where
  "get_arg w (XR r) s = Inr (low w (x_reg s r))"
| "get_arg w CH s = Inr (take_bit 8 (drop_bit 8 (x_reg s RCX)))"
| "get_arg w (XN v) s = Inr (low w v)"
| "get_arg w (At a) s = (case load_mem (x_mem s) (ea a s) (bits w div 8) of None \<Rightarrow> Inl Fault | Some v \<Rightarrow> Inr v)"

definition put_low :: "width \<Rightarrow> reg \<Rightarrow> u64 \<Rightarrow> xcpu \<Rightarrow> xcpu" where
  "put_low w r v s = s\<lparr>x_reg := (x_reg s)(r := set_low w (x_reg s r) v)\<rparr>"

fun put_arg :: "width \<Rightarrow> arg \<Rightarrow> u64 \<Rightarrow> xcpu \<Rightarrow> cpu_stop + xcpu" where
  "put_arg w (XR r) v s = Inr (put_low w r v s)"
| "put_arg w CH v s = Inr (s\<lparr>x_reg := (x_reg s)(RCX := (x_reg s RCX AND NOT (push_bit 8 (mask 8))) OR push_bit 8 (take_bit 8 v))\<rparr>)"
| "put_arg w (XN i) v s = Inl Unknown"
| "put_arg w (At a) v s =
     (case store_mem (x_mem s) (ea a s) (bits w div 8) v of None \<Rightarrow> Inl Fault | Some m \<Rightarrow> Inr (s\<lparr>x_mem := m\<rparr>))"

subsection \<open>The operations\<close>

definition result_flags :: "width \<Rightarrow> bool \<Rightarrow> u64 \<Rightarrow> int \<Rightarrow> flags" where
  "result_flags w c r exact =
     \<lparr>f_c = Some c, f_z = Some (r = 0), f_s = Some (sval w r < 0), f_o = Some (sval w r \<noteq> exact)\<rparr>"

fun alu_op :: "alu \<Rightarrow> width \<Rightarrow> u64 \<Rightarrow> u64 \<Rightarrow> u64 \<times> flags" where
  "alu_op ADD w a b = (let r = low w (a + b) in (r, result_flags w (2 ^ bits w \<le> unat a + unat b) r (sval w a + sval w b)))"
| "alu_op SUB w a b = (let r = low w (a - b) in (r, result_flags w (a < b) r (sval w a - sval w b)))"
| "alu_op CMP w a b = (let r = low w (a - b) in (r, result_flags w (a < b) r (sval w a - sval w b)))"
| "alu_op ANDB w a b = (let r = a AND b in (r, result_flags w False r (sval w r)))"
| "alu_op ORB w a b = (let r = a OR b in (r, result_flags w False r (sval w r)))"
| "alu_op XORB w a b = (let r = a XOR b in (r, result_flags w False r (sval w r)))"

text \<open>A shift by a constant below the width; by one, the overflow flag is defined.\<close>

definition shl_op :: "width \<Rightarrow> u64 \<Rightarrow> nat \<Rightarrow> u64 \<times> flags" where
  "shl_op w a n =
     (let r = low w (push_bit n a); c = bit a (bits w - n) in
      (r, \<lparr>f_c = Some c, f_z = Some (r = 0), f_s = Some (sval w r < 0), f_o = (if n = 1 then Some (bit r (bits w - 1) \<noteq> c) else None)\<rparr>))"

definition shr_op :: "width \<Rightarrow> u64 \<Rightarrow> nat \<Rightarrow> u64 \<times> flags" where
  "shr_op w a n =
     (let r = drop_bit n a in
      (r, \<lparr>f_c = Some (bit a (n - 1)), f_z = Some (r = 0), f_s = Some (sval w r < 0),
        f_o = (if n = 1 then Some (bit a (bits w - 1)) else None)\<rparr>))"

text \<open>The product in two registers of the width, unsigned and signed.\<close>

definition mul_flags :: "bool \<Rightarrow> flags" where
  "mul_flags c = \<lparr>f_c = Some c, f_z = None, f_s = None, f_o = Some c\<rparr>"

definition mul_op :: "width \<Rightarrow> u64 \<Rightarrow> xcpu \<Rightarrow> xcpu" where
  "mul_op w b s =
     (let p = unat (low w (x_reg s RAX)) * unat b; hi = p div 2 ^ bits w in
      put_low w RDX (of_nat hi) (put_low w RAX (of_nat (p mod 2 ^ bits w)) s)\<lparr>x_fl := mul_flags (hi \<noteq> 0)\<rparr>)"

definition imul_op :: "width \<Rightarrow> u64 \<Rightarrow> xcpu \<Rightarrow> xcpu" where
  "imul_op w b s =
     (let p = sval w (x_reg s RAX) * sval w b; lo = low w (of_int p) in
      put_low w RDX (of_int (p div 2 ^ bits w)) (put_low w RAX lo s)\<lparr>x_fl := mul_flags (sval w lo \<noteq> p)\<rparr>)"

text \<open>The quotient and the remainder of the value in two registers, or the fault of a division.\<close>

definition no_flags :: flags where
  "no_flags = \<lparr>f_c = None, f_z = None, f_s = None, f_o = None\<rparr>"

definition div_op :: "width \<Rightarrow> u64 \<Rightarrow> xcpu \<Rightarrow> cpu_stop + xcpu" where
  "div_op w b s =
     (let n = unat (low w (x_reg s RDX)) * 2 ^ bits w + unat (low w (x_reg s RAX)); d = unat b in
      if d = 0 \<or> 2 ^ bits w \<le> n div d then Inl Divide
      else Inr (put_low w RDX (of_nat (n mod d)) (put_low w RAX (of_nat (n div d)) s)\<lparr>x_fl := no_flags\<rparr>))"

definition idiv_op :: "width \<Rightarrow> u64 \<Rightarrow> xcpu \<Rightarrow> cpu_stop + xcpu" where
  "idiv_op w b s =
     (let n = sval w (x_reg s RDX) * 2 ^ bits w + uint (low w (x_reg s RAX)); d = sval w b;
          q = sgn n * sgn d * (\<bar>n\<bar> div \<bar>d\<bar>) in
      if d = 0 \<or> q < - (2 ^ (bits w - 1)) \<or> 2 ^ (bits w - 1) \<le> q then Inl Divide
      else Inr (put_low w RDX (of_int (n - q * d)) (put_low w RAX (of_int q) s)\<lparr>x_fl := no_flags\<rparr>))"

subsection \<open>One instruction\<close>

fun holds_cond :: "cond \<Rightarrow> flags \<Rightarrow> bool option" where
  "holds_cond JL f = (case (f_s f, f_o f) of (Some a, Some b) \<Rightarrow> Some (a \<noteq> b) | _ \<Rightarrow> None)"
| "holds_cond JGE f = (case (f_s f, f_o f) of (Some a, Some b) \<Rightarrow> Some (a = b) | _ \<Rightarrow> None)"
| "holds_cond JLE f = (case (f_z f, f_s f, f_o f) of (Some z, Some a, Some b) \<Rightarrow> Some (z \<or> a \<noteq> b) | _ \<Rightarrow> None)"
| "holds_cond JG f = (case (f_z f, f_s f, f_o f) of (Some z, Some a, Some b) \<Rightarrow> Some (\<not> z \<and> a = b) | _ \<Rightarrow> None)"
| "holds_cond JE f = f_z f"
| "holds_cond JC f = f_c f"
| "holds_cond JAE f = map_option Not (f_c f)"

definition xpush :: "u64 \<Rightarrow> xcpu \<Rightarrow> cpu_stop + xcpu" where
  "xpush v s =
     (case store_mem (x_mem s) (x_reg s RSP - 8) 8 v of
        None \<Rightarrow> Inl Fault
      | Some m \<Rightarrow> Inr (s\<lparr>x_mem := m, x_reg := (x_reg s)(RSP := x_reg s RSP - 8)\<rparr>))"

definition xpop :: "xcpu \<Rightarrow> cpu_stop + u64 \<times> xcpu" where
  "xpop s =
     (case load_mem (x_mem s) (x_reg s RSP) 8 of
        None \<Rightarrow> Inl Fault
      | Some v \<Rightarrow> Inr (v, s\<lparr>x_reg := (x_reg s)(RSP := x_reg s RSP + 8)\<rparr>))"

text \<open>\<open>org\<close> is the address of the first instruction, \<open>lab\<close> the places of the labels; an instruction takes one address.\<close>

fun x86_exec :: "u64 \<Rightarrow> (string \<Rightarrow> nat) \<Rightarrow> x86 \<Rightarrow> xcpu \<Rightarrow> cpu_stop + xcpu" where
  "x86_exec org lab (MOV w d x) s = bnd (get_arg w x s) (\<lambda>v. put_arg w d v s)"
| "x86_exec org lab (LEA w r a) s = Inr (put_low w r (ea a s) s)"
| "x86_exec org lab (ALU f w d x) s =
     bnd (get_arg w d s) (\<lambda>a. bnd (get_arg w x s) (\<lambda>b.
       let (r, fl) = alu_op f w a b; s = s\<lparr>x_fl := fl\<rparr> in if f = CMP then Inr s else put_arg w d r s))"
| "x86_exec org lab (NEG w d) s =
     bnd (get_arg w d s) (\<lambda>a.
       let r = low w (- a) in put_arg w d r (s\<lparr>x_fl := result_flags w (a \<noteq> 0) r (- sval w a)\<rparr>))"
| "x86_exec org lab (INC w d) s =
     bnd (get_arg w d s) (\<lambda>a.
       let r = low w (a + 1) in put_arg w d r (s\<lparr>x_fl := (result_flags w False r (sval w a + 1))\<lparr>f_c := f_c (x_fl s)\<rparr>\<rparr>))"
| "x86_exec org lab (DEC w d) s =
     bnd (get_arg w d s) (\<lambda>a.
       let r = low w (a - 1) in put_arg w d r (s\<lparr>x_fl := (result_flags w False r (sval w a - 1))\<lparr>f_c := f_c (x_fl s)\<rparr>\<rparr>))"
| "x86_exec org lab (SHL w d n) s =
     (if n = 0 \<or> bits w \<le> n then Inl Unknown
      else bnd (get_arg w d s) (\<lambda>a. let (r, fl) = shl_op w a n in put_arg w d r (s\<lparr>x_fl := fl\<rparr>)))"
| "x86_exec org lab (SHR w d n) s =
     (if n = 0 \<or> bits w \<le> n then Inl Unknown
      else bnd (get_arg w d s) (\<lambda>a. let (r, fl) = shr_op w a n in put_arg w d r (s\<lparr>x_fl := fl\<rparr>)))"
| "x86_exec org lab (MUL w x) s = (if w = W8 then Inl Unknown else bnd (get_arg w x s) (\<lambda>b. Inr (mul_op w b s)))"
| "x86_exec org lab (IMUL w x) s = (if w = W8 then Inl Unknown else bnd (get_arg w x s) (\<lambda>b. Inr (imul_op w b s)))"
| "x86_exec org lab (DIV w x) s = (if w = W8 then Inl Unknown else bnd (get_arg w x s) (\<lambda>b. div_op w b s))"
| "x86_exec org lab (IDIV w x) s = (if w = W8 then Inl Unknown else bnd (get_arg w x s) (\<lambda>b. idiv_op w b s))"
| "x86_exec org lab CDQ s = Inr (put_low W32 RDX (if sval W32 (x_reg s RAX) < 0 then - 1 else 0) s)"
| "x86_exec org lab (JMP l) s = Inr (s\<lparr>x_pc := lab l\<rparr>)"
| "x86_exec org lab (JCC c l) s =
     (case holds_cond c (x_fl s) of None \<Rightarrow> Inl Unknown | Some b \<Rightarrow> Inr (if b then s\<lparr>x_pc := lab l\<rparr> else s))"
| "x86_exec org lab (LOOP l) s =
     (let n = x_reg s RCX - 1; s = s\<lparr>x_reg := (x_reg s)(RCX := n)\<rparr> in Inr (if n \<noteq> 0 then s\<lparr>x_pc := lab l\<rparr> else s))"
| "x86_exec org lab (PUSH x) s = bnd (get_arg W64 x s) (\<lambda>v. xpush v s)"
| "x86_exec org lab (POP r) s = bnd (xpop s) (\<lambda>(v, s). Inr (put_low W64 r v s))"
| "x86_exec org lab (CALL l) s = bnd (xpush (org + of_nat (x_pc s)) s) (\<lambda>s. Inr (s\<lparr>x_pc := lab l\<rparr>))"
| "x86_exec org lab RET s = bnd (xpop s) (\<lambda>(v, s). Inr (s\<lparr>x_pc := unat (v - org)\<rparr>))"

definition xfetch :: "xitem list \<Rightarrow> nat \<Rightarrow> x86 option" where
  "xfetch t k = (if k < length (xcode t) then Some (xcode t ! k) else None)"

definition x86_step :: "u64 \<Rightarrow> xitem list \<Rightarrow> xcpu \<Rightarrow> cpu_stop + xcpu" where
  "x86_step org t s =
     (case xfetch t (x_pc s) of None \<Rightarrow> Inl Ended | Some i \<Rightarrow> x86_exec org (xlabel t) i (s\<lparr>x_pc := x_pc s + 1\<rparr>))"

primrec x86_run :: "u64 \<Rightarrow> xitem list \<Rightarrow> nat \<Rightarrow> xcpu \<Rightarrow> cpu_stop + xcpu" where
  "x86_run org t 0 s = Inr s"
| "x86_run org t (Suc n) s = bnd (x86_step org t s) (x86_run org t n)"

text \<open>A run of some number of instructions, and one that reaches the end of the listing.\<close>

definition gets_to :: "u64 \<Rightarrow> xitem list \<Rightarrow> xcpu \<Rightarrow> xcpu \<Rightarrow> bool" where
  "gets_to org t s s' \<longleftrightarrow> (\<exists>n. x86_run org t n s = Inr s')"

definition finishes :: "u64 \<Rightarrow> xitem list \<Rightarrow> xcpu \<Rightarrow> xcpu \<Rightarrow> bool" where
  "finishes org t s s' \<longleftrightarrow> gets_to org t s s' \<and> x_pc s' = length (xcode t)"

subsection \<open>Runs\<close>

lemma x86_run_add: "x86_run org t (m + n) s = bnd (x86_run org t m s) (x86_run org t n)"
  by (induction m arbitrary: s) (simp_all add: bnd_assoc fun_eq_iff cong: bnd_cong)

lemma x86_run_numeral: "x86_run org t (numeral k) s = bnd (x86_step org t s) (x86_run org t (pred_numeral k))"
  by (simp add: numeral_eq_Suc)

lemma gets_to_refl: "gets_to org t s s"
  unfolding gets_to_def by (rule exI [of _ 0]) simp

lemma gets_to_run: "x86_run org t n s = Inr s' \<Longrightarrow> gets_to org t s s'"
  unfolding gets_to_def by blast

lemma gets_to_trans: "gets_to org t s s' \<Longrightarrow> gets_to org t s' s'' \<Longrightarrow> gets_to org t s s''"
  unfolding gets_to_def
proof (elim exE)
  fix m n
  assume "x86_run org t m s = Inr s'" "x86_run org t n s' = Inr s''"
  then have "x86_run org t (m + n) s = Inr s''" by (simp add: x86_run_add)
  then show "\<exists>n. x86_run org t n s = Inr s''" ..
qed

lemma finishes_run: "x86_run org t n s = Inr s' \<Longrightarrow> x_pc s' = length (xcode t) \<Longrightarrow> finishes org t s s'"
  unfolding finishes_def by (blast intro: gets_to_run)

lemma finishes_trans: "gets_to org t s s' \<Longrightarrow> finishes org t s' s'' \<Longrightarrow> finishes org t s s''"
  unfolding finishes_def by (blast intro: gets_to_trans)

subsection \<open>Words of the widths\<close>

lemma low_word: "low W32 v = ucast (ucast v :: u32)" "low W16 v = ucast (ucast v :: u16)" "low W8 v = ucast (ucast v :: u8)"
  "low W64 v = v"
  by (rule bit_word_eqI, auto simp: low_def bit_take_bit_iff bit_ucast_iff)+

lemma sval_word: "sval W32 v = sint (ucast v :: u32)" "sval W16 v = sint (ucast v :: u16)" "sval W8 v = sint (ucast v :: u8)"
  "sval W64 v = sint v"
  by (simp_all add: sval_def sint_uint unsigned_ucast_eq signed_take_bit_take_bit)

subsection \<open>Memory\<close>

lemma load_None: "load_mem m a n = None \<longleftrightarrow> (\<exists>i<n. m (a + of_nat i) = None)"
  by (auto simp: load_mem_def list_all_iff)

lemma store_None: "store_mem m a n v = None \<longleftrightarrow> load_mem m a n = None"
  by (simp add: load_mem_def store_mem_def)

lemma store_Some: "load_mem m a n \<noteq> None \<Longrightarrow> \<exists>m'. store_mem m a n v = Some m'"
  using store_None [of m a n v] by auto

lemma load_cong: "(\<And>i. i < n \<Longrightarrow> m' (a + of_nat i) = m (a + of_nat i)) \<Longrightarrow> load_mem m' a n = load_mem m a n"
proof -
  assume same: "\<And>i. i < n \<Longrightarrow> m' (a + of_nat i) = m (a + of_nat i)"
  then have e: "map (\<lambda>i. the (m' (a + of_nat i))) [0..<n] = map (\<lambda>i. the (m (a + of_nat i))) [0..<n]"
    by (intro map_cong) simp_all
  show ?thesis unfolding load_mem_def e using same by (simp add: list_all_iff)
qed

lemma store_at:
  assumes "store_mem m a n v = Some m'" "i < n" "n \<le> 8"
  shows "m' (a + of_nat i) = Some (byte_of v i)"
proof -
  have "unat (of_nat i :: u64) = i" using assms(2,3) by (intro unat_small) simp
  then show ?thesis using assms by (auto simp: store_mem_def split: if_splits)
qed

lemma store_keeps: "store_mem m a n v = Some m' \<Longrightarrow> n \<le> unat (x - a) \<Longrightarrow> m' x = m x"
  by (auto simp: store_mem_def split: if_splits)

lemma store_mapped: "store_mem m a n v = Some m' \<Longrightarrow> m' x = None \<longleftrightarrow> m x = None"
proof -
  assume st: "store_mem m a n v = Some m'"
  show ?thesis
  proof (cases "unat (x - a) < n")
    case True
    have x: "a + of_nat (unat (x - a)) = x" by simp
    have "\<forall>i<n. m (a + of_nat i) \<noteq> None" using st by (auto simp: store_mem_def list_all_iff split: if_splits)
    then have "m x \<noteq> None" using True x by metis
    moreover have "m' x \<noteq> None" using st True by (auto simp: store_mem_def split: if_splits)
    ultimately show ?thesis by blast
  qed (use st in \<open>simp add: store_keeps\<close>)
qed

lemma load_stored:
  assumes "store_mem m a n v = Some m'" "n \<le> 8"
  shows "load_mem m' a n = Some (take_bit (8 * n) v)"
proof -
  have at: "m' (a + of_nat i) = Some (byte_of v i)" if "i < n" for i using store_at [OF assms(1) that assms(2)] .
  then have e: "map (\<lambda>i. the (m' (a + of_nat i))) [0..<n] = map (byte_of v) [0..<n]" by (intro map_cong) simp_all
  have "of_nat (unat v mod 256 ^ n) = take_bit (8 * n) v"
  proof -
    have "(256 :: nat) ^ n = 2 ^ (8 * n)" by (simp add: power_mult)
    moreover have "unat (take_bit (8 * n) v) = take_bit (8 * n) (unat v)" by (rule unsigned_take_bit_eq)
    ultimately have "unat v mod 256 ^ n = unat (take_bit (8 * n) v)" by (simp only: take_bit_eq_mod)
    then show ?thesis by (simp only: unat_of_nat) simp
  qed
  then show ?thesis unfolding load_mem_def e using at by (simp add: list_all_iff le_val_byte_of)
qed

lemma load_stored64: "store_mem m a 8 v = Some m' \<Longrightarrow> load_mem m' a 8 = Some v"
  using load_stored [of m a 8 v m'] take_bit_word_eq_self [of 64 v] by simp

text \<open>Ranges that do not wrap and do not overlap.\<close>

definition no_overlap :: "u64 \<Rightarrow> nat \<Rightarrow> u64 \<Rightarrow> nat \<Rightarrow> bool" where
  "no_overlap a n b k \<longleftrightarrow> unat a + n \<le> 2 ^ 64 \<and> unat b + k \<le> 2 ^ 64 \<and> (unat a + n \<le> unat b \<or> unat b + k \<le> unat a)"

lemma load_apart:
  assumes "store_mem m a n v = Some m'" "no_overlap a n b k"
  shows "load_mem m' b k = load_mem m b k"
proof (rule load_cong)
  fix i assume i: "i < k"
  have "unat (b + of_nat i) = unat b + i" using assms(2) i by (intro unat_plus_small) (simp add: no_overlap_def)
  then have "n \<le> unat (b + of_nat i - a)" using assms(2) i by (auto simp: no_overlap_def unat_sub_if')
  then show "m' (b + of_nat i) = m (b + of_nat i)" by (rule store_keeps [OF assms(1)])
qed

lemma load_mapped: "store_mem m a n v = Some m' \<Longrightarrow> load_mem m' b k = None \<longleftrightarrow> load_mem m b k = None"
  by (simp add: load_None store_mapped)

lemma load_bound: "load_mem m a n = Some v \<Longrightarrow> n \<le> 8 \<Longrightarrow> unat v < 256 ^ n"
proof -
  assume "load_mem m a n = Some v" and n: "n \<le> 8"
  then have v: "v = of_nat (le_val (map (\<lambda>i. the (m (a + of_nat i))) [0..<n]))" by (auto simp: load_mem_def split: if_splits)
  have b: "le_val (map (\<lambda>i. the (m (a + of_nat i))) [0..<n]) < 256 ^ n"
    using le_val_bound [of "map (\<lambda>i. the (m (a + of_nat i))) [0..<n]"] by simp
  moreover have "(256 :: nat) ^ n \<le> 256 ^ 8" using n by (intro power_increasing) simp_all
  ultimately show ?thesis unfolding v by (subst unat_small) simp_all
qed

subsection \<open>Arithmetic of the low halves\<close>

lemma ucast_ring:
  fixes a b :: u64
  assumes "LENGTH('a::len) \<le> 64"
  shows "(ucast (a + b) :: 'a word) = ucast a + ucast b" "(ucast (a - b) :: 'a word) = ucast a - ucast b"
    "(ucast (a * b) :: 'a word) = ucast a * ucast b" "(ucast (- a) :: 'a word) = - ucast a"
proof -
  have "(2 :: int) ^ LENGTH('a) dvd 2 ^ 64" by (rule le_imp_power_dvd [OF assms])
  then have cut: "x mod 18446744073709551616 mod 2 ^ LENGTH('a) = x mod 2 ^ LENGTH('a)" for x :: int
    by (simp add: mod_mod_cancel)
  show "(ucast (a + b) :: 'a word) = ucast a + ucast b" "(ucast (a - b) :: 'a word) = ucast a - ucast b"
    "(ucast (a * b) :: 'a word) = ucast a * ucast b" "(ucast (- a) :: 'a word) = - ucast a"
    by (simp_all add: unsigned_ucast_eq word_uint_eq_iff uint_word_ariths take_bit_eq_mod mod_simps cut)
qed

lemma ucast_up_down: "LENGTH('a::len) \<le> 64 \<Longrightarrow> (ucast (ucast (x :: 'a word) :: u64) :: 'a word) = x"
  by (rule bit_word_eqI) (auto simp: bit_ucast_iff)

lemma ucast_cut: "LENGTH('a::len) \<le> n \<Longrightarrow> (ucast (take_bit n (a :: u64)) :: 'a word) = ucast a"
  by (rule bit_word_eqI) (auto simp: bit_take_bit_iff bit_ucast_iff dest: bit_imp_le_length)

lemma ucast_more:
  assumes "LENGTH('a::len) \<le> 64"
  shows "(ucast (push_bit n (a :: u64)) :: 'a word) = push_bit n (ucast a)" "(ucast (of_nat k :: u64) :: 'a word) = of_nat k"
    "(ucast (of_int i :: u64) :: 'a word) = of_int i"
proof -
  show "(ucast (push_bit n a) :: 'a word) = push_bit n (ucast a)"
    using assms by (intro bit_word_eqI) (auto simp: bit_push_bit_iff bit_ucast_iff dest: bit_imp_le_length)
  have "(2 :: int) ^ LENGTH('a) dvd 2 ^ 64" by (rule le_imp_power_dvd [OF assms])
  then have cut: "x mod 18446744073709551616 mod 2 ^ LENGTH('a) = x mod 2 ^ LENGTH('a)" for x :: int
    by (simp add: mod_mod_cancel)
  have int: "(ucast (of_int i :: u64) :: 'a word) = of_int i" for i :: int
    by (simp add: unsigned_ucast_eq word_uint_eq_iff take_bit_eq_mod cut uint_word_of_int)
  then show "(ucast (of_int i :: u64) :: 'a word) = of_int i" .
  show "(ucast (of_nat k :: u64) :: 'a word) = of_nat k" using int [of "int k"] by simp
qed

lemmas ring32 = ucast_ring [where 'a = 32, simplified] ucast_up_down [where 'a = 32, simplified]
  ucast_more [where 'a = 32, simplified] ucast_cut [where 'a = 32 and n = 32, simplified]

lemma mul_low32: "(of_nat (unat (ucast a :: u64) * unat (ucast b :: u64) mod 4294967296) :: u32) = a * b"
proof -
  have u: "unat (ucast x :: u64) = unat x" for x :: u32
    using unsigned_less [of x, where 'a = nat] by (simp add: unsigned_ucast_eq take_bit_nat_eq_self)
  have "(of_nat (n mod 4294967296) :: u32) = of_nat n" for n by (simp add: word_unat_eq_iff unat_of_nat)
  then show ?thesis by (simp only: u of_nat_mult) simp
qed

text \<open>Symbolic execution: what a step of a known listing does.\<close>

lemmas x86_core = x86_run_numeral x86_step_def xfetch_def Let_def put_low_def
lemmas x86_steps = x86_core low_word

lemma finishes_ex:
  "\<exists>s'. x86_run org t n s = Inr s' \<and> x_pc s' = length (xcode t) \<and> Q s' \<Longrightarrow> \<exists>s'. finishes org t s s' \<and> Q s'"
  by (blast intro: finishes_run)

subsection \<open>Arrays of 32-bit integers\<close>

definition dwords_at :: "memory \<Rightarrow> u64 \<Rightarrow> u32 list \<Rightarrow> bool" where
  "dwords_at m a xs \<longleftrightarrow> list_all (\<lambda>i. load_mem m (a + 4 * of_nat i) 4 = Some (ucast (xs ! i))) [0..<length xs]"

lemma dwords_nth: "dwords_at m a xs \<Longrightarrow> i < length xs \<Longrightarrow> load_mem m (a + 4 * of_nat i) 4 = Some (ucast (xs ! i))"
  by (simp add: dwords_at_def list_all_iff)

lemma dwords_Nil: "dwords_at m a []"
  by (simp add: dwords_at_def)

lemma dwords_Cons: "dwords_at m a (x # xs) \<longleftrightarrow> load_mem m a 4 = Some (ucast x) \<and> dwords_at m (a + 4) xs"
proof -
  have e: "[0..<length (x # xs)] = 0 # map Suc [0..<length xs]" by (simp add: upt_conv_Cons map_Suc_upt del: upt_Suc)
  show ?thesis unfolding dwords_at_def e by (simp add: list.pred_map comp_def algebra_simps)
qed

lemma load_stored32: "store_mem m a 4 (ucast (x :: u32)) = Some m' \<Longrightarrow> load_mem m' a 4 = Some (ucast x)"
proof -
  have "take_bit 32 (ucast x :: u64) = ucast x" by (rule bit_word_eqI) (auto simp: bit_take_bit_iff bit_ucast_iff dest: bit_imp_le_length)
  then show "store_mem m a 4 (ucast x) = Some m' \<Longrightarrow> ?thesis" using load_stored [of m a 4 "ucast x" m'] by simp
qed

lemma dwords_store:
  assumes "dwords_at m a xs" "j < length xs" "unat a + 4 * length xs \<le> 2 ^ 64"
  shows "\<exists>m'. store_mem m (a + 4 * of_nat j) 4 (ucast v) = Some m' \<and> dwords_at m' a (xs[j := v]) \<and> (\<forall>x. m' x = None \<longleftrightarrow> m x = None)"
proof -
  have u: "unat (a + 4 * of_nat i) = unat a + 4 * i" if "i < length xs" for i
    using unat_plus_small [of a "4 * i"] that assms(3) by simp
  obtain m' where m': "store_mem m (a + 4 * of_nat j) 4 (ucast v) = Some m'"
    using store_Some [of m "a + 4 * of_nat j" 4] dwords_nth [OF assms(1,2)] by auto
  have "load_mem m' (a + 4 * of_nat i) 4 = Some (ucast (xs[j := v] ! i))" if i: "i < length xs" for i
  proof (cases "i = j")
    case True
    then show ?thesis using load_stored32 [OF m'] assms(2) by simp
  next
    case False
    then have "no_overlap (a + 4 * of_nat j) 4 (a + 4 * of_nat i) 4"
      using u [OF i] u [OF assms(2)] assms(2,3) i by (auto simp: no_overlap_def)
    then show ?thesis using load_apart [OF m'] dwords_nth [OF assms(1) i] False by simp
  qed
  then show ?thesis using m' store_mapped [OF m'] by (auto simp: dwords_at_def list_all_iff)
qed

end
