(* ===== verification/Ctf_Programs.thy ===== *)
theory Ctf_Programs
  imports Ctf_Cpu
begin

text \<open>
  The twenty-three listings of \<open>CTF/assembly\<close>, instruction by instruction. They run with a data page at
  \<open>0x600000\<close>; each ends at its label \<open>done\<close>.
\<close>

definition addsub1_asm :: "xitem list" where
  "addsub1_asm =
    [INS (MOV W32 (XR RAX) (XN 0xe7723f0a)),
     INS (ALU ADD W32 (XR RAX) (XN 0x5f83036a)),
     INS (ALU SUB W32 (XR RAX) (XN 0xc35e52cd)),
     LBL ''done'']"

definition addsub2_asm :: "xitem list" where
  "addsub2_asm =
    [INS (MOV W32 (XR RAX) (At (A64 [] 0x600000))),
     INS (ALU ADD W32 (XR RAX) (At (A64 [] 0x600004))),
     INS (ALU SUB W32 (XR RAX) (At (A64 [] 0x600008))),
     INS (MOV W32 (At (A64 [] 0x60000c)) (XR RAX)),
     LBL ''done'']"

definition bubble_asm :: "xitem list" where
  "bubble_asm =
    [INS (MOV W32 (XR RCX) (XN 0)),
     LBL ''outloop'',
     INS (MOV W32 (XR RDX) (XN 0)),
     LBL ''inloop'',
     INS (MOV W32 (XR RAX) (At (A32 [(RDX, 4)] 0x600000))),
     INS (MOV W32 (XR RBX) (At (A32 [(RDX, 4)] (0x600000 + 4)))),
     INS (ALU CMP W32 (XR RAX) (XR RBX)),
     INS (JCC JG ''exch''),
     LBL ''check'',
     INS (INC W32 (XR RDX)),
     INS (MOV W32 (XR RAX) (XR RCX)),
     INS (NEG W32 (XR RAX)),
     INS (ALU ADD W32 (XR RAX) (XN 9)),
     INS (ALU CMP W32 (XR RDX) (XR RAX)),
     INS (JCC JGE ''exitin''),
     INS (JMP ''inloop''),
     LBL ''exch'',
     INS (MOV W32 (At (A32 [(RDX, 4)] 0x600000)) (XR RBX)),
     INS (MOV W32 (At (A32 [(RDX, 4)] (0x600000 + 4))) (XR RAX)),
     INS (JMP ''check''),
     LBL ''exitin'',
     INS (INC W32 (XR RCX)),
     INS (ALU CMP W32 (XR RCX) (XN 9)),
     INS (JCC JGE ''exitout''),
     INS (JMP ''outloop''),
     LBL ''exitout'',
     LBL ''done'']"

definition clear17_asm :: "xitem list" where
  "clear17_asm =
    [INS (ALU ANDB W32 (XR RAX) (XN 0xfffdffff)),
     LBL ''done'']"

definition dec2ascii_asm :: "xitem list" where
  "dec2ascii_asm =
    [INS (ALU ORB W8 (XR RAX) (XN 0x30)),
     LBL ''done'']"

definition dispbin_asm :: "xitem list" where
  "dispbin_asm =
    [INS (MOV W32 (XR RCX) (XN 16)),
     INS (MOV W16 (XR RDX) (XR RAX)),
     LBL ''L1'',
     INS (SHL W16 (XR RAX) 1),
     INS (JCC JC ''is1''),
     INS (MOV W8 (XR RBX) (XN 0x30)),
     INS (MOV W32 (XR RDX) (XR RCX)),
     INS (NEG W32 (XR RDX)),
     INS (MOV W8 (At (A32 [(RDX, 1)] (0x600000 + 16))) (XR RBX)),
     INS (LOOP ''L1''),
     LBL ''is1'',
     INS (MOV W8 (XR RBX) (XN 0x31)),
     INS (MOV W32 (XR RDX) (XR RCX)),
     INS (NEG W32 (XR RDX)),
     INS (MOV W8 (At (A32 [(RDX, 1)] (0x600000 + 16))) (XR RBX)),
     INS (LOOP ''L1''),
     LBL ''done'']"

definition eval1_asm :: "xitem list" where
  "eval1_asm =
    [INS (MOV W32 (XR RAX) (At (A64 [] 0x600000))),
     INS (NEG W32 (XR RAX)),
     INS (ALU ADD W32 (XR RAX) (At (A64 [] 0x600004))),
     INS (ALU SUB W32 (XR RAX) (At (A64 [] 0x600008))),
     INS (MOV W32 (At (A64 [] 0x60000c)) (XR RAX)),
     LBL ''done'']"

definition isolatebit_asm :: "xitem list" where
  "isolatebit_asm =
    [INS (SHL W16 (XR RAX) 4),
     INS (SHR W16 (XR RAX) 9),
     INS (MOV W8 (At (A64 [] 0x600000)) (XR RAX)),
     LBL ''done'']"

definition leax_asm :: "xitem list" where
  "leax_asm =
    [INS (LEA W32 RAX (A32 [(RDI, 2)] 0)),
     INS (LEA W32 RBX (A32 [(RDI, 1), (RDI, 2)] 0)),
     INS (LEA W32 RCX (A32 [(RDI, 1), (RDI, 4)] 0)),
     INS (LEA W32 RDX (A32 [(RDI, 1), (RDI, 8)] 0)),
     LBL ''done'']"

definition loop15_asm :: "xitem list" where
  "loop15_asm =
    [INS (MOV W32 (XR RCX) (XN 15)),
     LBL ''L1'',
     INS (MOV W8 (XR RAX) (At (A32 [(RCX, 1)] (0x600000 - 1)))),
     INS (ALU CMP W8 (XR RAX) (XN 0x61)),
     INS (JCC JAE ''L2''),
     INS (ALU ADD W8 (XR RAX) (XN 0x20)),
     INS (MOV W8 (At (A32 [(RCX, 1)] (0x600010 - 1))) (XR RAX)),
     INS (LOOP ''L1''),
     LBL ''L2'',
     INS (MOV W8 (At (A32 [(RCX, 1)] (0x600010 - 1))) (XR RAX)),
     INS (LOOP ''L1''),
     LBL ''done'']"

definition math1_asm :: "xitem list" where
  "math1_asm =
    [INS (MOV W32 (XR RAX) (At (A64 [] 0x600000))),
     INS (MOV W32 (XR RBX) (At (A64 [] 0x600004))),
     INS (MOV W32 (XR RCX) (At (A64 [] 0x600008))),
     INS (ALU ADD W32 (XR RAX) (XR RBX)),
     INS (MUL W32 (XR RCX)),
     INS (MOV W32 (At (A64 [] 0x60000c)) (XR RAX)),
     LBL ''done'']"

definition math2_asm :: "xitem list" where
  "math2_asm =
    [INS (MOV W32 (XR RAX) (At (A64 [] 0x600000))),
     INS (MOV W32 (XR RBX) (At (A64 [] 0x600004))),
     INS (MOV W32 (XR RCX) (At (A64 [] 0x600008))),
     INS (NEG W32 (XR RAX)),
     INS (MUL W32 (XR RBX)),
     INS (ALU ADD W32 (XR RAX) (XR RCX)),
     LBL ''done'']"

definition math3_asm :: "xitem list" where
  "math3_asm =
    [INS (MOV W32 (XR RDX) (XN 0)),
     INS (MOV W32 (XR RAX) (At (A64 [] 0x600000))),
     INS (MOV W32 (XR RBX) (At (A64 [] 0x600004))),
     INS (LEA W32 RAX (A32 [(RAX, 1), (RAX, 4)] 0)),
     INS (ALU SUB W32 (XR RBX) (XN 3)),
     INS (DIV W32 (XR RBX)),
     INS (MOV W32 (At (A64 [] 0x600008)) (XR RAX)),
     LBL ''done'']"

definition math4_asm :: "xitem list" where
  "math4_asm =
    [INS (MOV W32 (XR RAX) (At (A64 [] 0x600000))),
     INS (MOV W32 (XR RBX) (XN (- 5))),
     INS (IMUL W32 (XR RBX)),
     INS (MOV W32 (XR RBX) (XR RAX)),
     INS (MOV W32 (XR RAX) (At (A64 [] 0x600004))),
     INS (NEG W32 (XR RAX)),
     INS CDQ,
     INS (MOV W32 (XR RCX) (At (A64 [] 0x600008))),
     INS (IDIV W32 (XR RCX)),
     INS (MOV W32 (XR RAX) (XR RBX)),
     INS (MOV W32 (XR RBX) (XR RDX)),
     INS CDQ,
     INS (IDIV W32 (XR RBX)),
     INS (MOV W32 (At (A64 [] 0x60000c)) (XR RAX)),
     LBL ''done'']"

definition math5_asm :: "xitem list" where
  "math5_asm =
    [INS (MOV W32 (XR RAX) (At (A64 [] 0x600000))),
     INS (MOV W32 (XR RCX) (At (A64 [] 0x600004))),
     INS (NEG W32 (XR RCX)),
     INS (IMUL W32 (XR RCX)),
     INS (MOV W32 (XR RCX) (At (A64 [] 0x600008))),
     INS (ALU SUB W32 (XR RCX) (XR RBX)),
     INS CDQ,
     INS (IDIV W32 (XR RCX)),
     INS (MOV W32 (At (A64 [] 0x600008)) (XR RAX)),
     LBL ''done'']"

definition minicall_asm :: "xitem list" where
  "minicall_asm =
    [INS (CALL ''a''),
     INS (JMP ''exit''),
     LBL ''a'',
     INS (POP RAX),
     INS (PUSH (XR RAX)),
     INS RET,
     LBL ''exit'',
     LBL ''done'']"

definition mulbyshift_asm :: "xitem list" where
  "mulbyshift_asm =
    [INS (MOV W32 (XR RAX) (At (A64 [] 0x600000))),
     INS (MOV W32 (XR RBX) (At (A64 [] 0x600000))),
     INS (MOV W32 (XR RCX) (At (A64 [] 0x600000))),
     INS (SHL W32 (XR RAX) 4),
     INS (SHL W32 (XR RBX) 3),
     INS (SHL W32 (XR RCX) 1),
     INS (ALU ADD W32 (XR RAX) (XR RBX)),
     INS (ALU ADD W32 (XR RAX) (XR RCX)),
     INS (MOV W32 (At (A64 [] 0x600004)) (XR RAX)),
     LBL ''done'']"

definition posneg_asm :: "xitem list" where
  "posneg_asm =
    [LBL ''IF1'',
     INS (ALU CMP W32 (XR RAX) (XN 0)),
     INS (JCC JL ''L1''),
     INS (MOV W32 (XR RAX) (XN 1)),
     INS (MOV W32 (At (A64 [] 0x600000)) (XR RAX)),
     INS (JMP ''IF2''),
     LBL ''L1'',
     INS (MOV W32 (XR RAX) (XN (- 1))),
     INS (MOV W32 (At (A64 [] 0x600000)) (XR RAX)),
     LBL ''IF2'',
     INS (ALU CMP W32 (XR RBX) (XN 0)),
     INS (JCC JL ''L2''),
     INS (MOV W32 (XR RBX) (XN 1)),
     INS (MOV W32 (At (A64 [] 0x600004)) (XR RBX)),
     INS (JMP ''IF3''),
     LBL ''L2'',
     INS (MOV W32 (XR RBX) (XN (- 1))),
     INS (MOV W32 (At (A64 [] 0x600004)) (XR RBX)),
     LBL ''IF3'',
     INS (ALU CMP W32 (XR RCX) (XN 0)),
     INS (JCC JL ''L3''),
     INS (MOV W32 (XR RCX) (XN 1)),
     INS (MOV W32 (At (A64 [] 0x600008)) (XR RCX)),
     INS (JMP ''IF4''),
     LBL ''L3'',
     INS (MOV W32 (XR RCX) (XN (- 1))),
     INS (MOV W32 (At (A64 [] 0x600008)) (XR RCX)),
     LBL ''IF4'',
     INS (ALU CMP W32 (XR RDX) (XN 0)),
     INS (JCC JL ''L4''),
     INS (MOV W32 (XR RDX) (XN 1)),
     INS (MOV W32 (At (A64 [] 0x60000c)) (XR RDX)),
     INS (JMP ''over''),
     LBL ''L4'',
     INS (MOV W32 (XR RDX) (XN (- 1))),
     INS (MOV W32 (At (A64 [] 0x60000c)) (XR RDX)),
     LBL ''over'',
     LBL ''done'']"

definition recur_asm :: "xitem list" where
  "recur_asm =
    [INS (PUSH (XN 25)),
     INS (CALL ''r''),
     INS (ALU ADD W32 (XR RSP) (XN 8)),
     INS (JMP ''exit''),
     LBL ''r'',
     INS (PUSH (XR RBP)),
     INS (MOV W64 (XR RBP) (XR RSP)),
     INS (MOV W64 (XR RBX) (At (A64 [(RBP, 1)] 16))),
     INS (ALU CMP W64 (XR RBX) (XN 0)),
     INS (JCC JLE ''L1''),
     INS (ALU CMP W64 (XR RBX) (XN 1)),
     INS (JCC JE ''L2''),
     INS (DEC W64 (XR RBX)),
     INS (PUSH (XR RBX)),
     INS (CALL ''r''),
     INS (ALU ADD W32 (XR RSP) (XN 8)),
     LBL ''Return1'',
     INS (MOV W64 (XR RCX) (XN 2)),
     INS (MUL W64 (XR RCX)),
     INS (MOV W64 (XR RDX) (XR RAX)),
     INS (PUSH (XR RDX)),
     INS (MOV W64 (XR RBX) (At (A64 [(RBP, 1)] 16))),
     INS (ALU SUB W64 (XR RBX) (XN 2)),
     INS (PUSH (XR RBX)),
     INS (CALL ''r''),
     INS (ALU ADD W32 (XR RSP) (XN 8)),
     LBL ''Return2'',
     INS (MOV W64 (XR RCX) (XN 3)),
     INS (MUL W64 (XR RCX)),
     INS (POP RDX),
     INS (ALU ADD W64 (XR RAX) (XR RDX)),
     INS (POP RBP),
     INS RET,
     LBL ''L1'',
     INS (MOV W64 (XR RAX) (XN 0)),
     INS (POP RBP),
     INS RET,
     LBL ''L2'',
     INS (MOV W64 (XR RAX) (XN 1)),
     INS (POP RBP),
     INS RET,
     LBL ''exit'',
     LBL ''done'']"

definition swapmem_asm :: "xitem list" where
  "swapmem_asm =
    [INS (MOV W64 (XR RAX) (At (A64 [] 0x600000))),
     INS (MOV W64 (XR RBX) (At (A64 [] 0x600008))),
     INS (MOV W64 (At (A64 [] 0x600000)) (XR RBX)),
     INS (MOV W64 (At (A64 [] 0x600008)) (XR RAX)),
     LBL ''done'']"

definition swapreg_asm :: "xitem list" where
  "swapreg_asm =
    [INS (MOV W64 (XR RCX) (XR RAX)),
     INS (MOV W64 (XR RAX) (XR RBX)),
     INS (MOV W64 (XR RBX) (XR RCX)),
     LBL ''done'']"

definition tolower_asm :: "xitem list" where
  "tolower_asm =
    [INS (MOV W8 (XR RAX) (At (A64 [] 0x600000))),
     INS (ALU SUB W8 (XR RAX) (XN 0x20)),
     INS (MOV W8 (At (A64 [] 0x600001)) (XR RAX)),
     LBL ''done'']"

definition ul_lu_asm :: "xitem list" where
  "ul_lu_asm =
    [INS (ALU XORB W8 CH (XN 0x20)),
     LBL ''done'']"

end
