(* ===== verification/Ctf_Straight.thy ===== *)
theory Ctf_Straight
  imports Ctf_Programs
begin

text \<open>
  The exercises that run straight through, and \<open>posneg\<close>: what each computes from the words at \<open>0x600000\<close> or
  the registers, with 32-bit wrap-around, and when a division of theirs faults.
\<close>

subsection \<open>Words and registers\<close>

lemmas dwords = dwords_Nil dwords_Cons

lemma store_word:
  assumes "dwords_at m 0x600000 xs" "length xs \<le> 1000" "j < length xs"
  shows "\<exists>m'. store_mem m (0x600000 + 4 * of_nat j) 4 (ucast v) = Some m' \<and> dwords_at m' 0x600000 (xs[j := v])"
  using dwords_store [OF assms(1,3)] assms(2) by fastforce

text \<open>A store to word \<open>j\<close> at the end of a straight run.\<close>

lemma store_ends:
  assumes "dwords_at (x_mem s) 0x600000 xs" "length xs \<le> 1000" "j < length xs"
    "\<And>m. store_mem (x_mem s) (0x600000 + 4 * of_nat j) 4 (ucast v) = Some m \<Longrightarrow>
      \<exists>s'. x86_run org t n s = Inr s' \<and> x_pc s' = length (xcode t) \<and> x_mem s' = m"
  shows "\<exists>s'. finishes org t s s' \<and> dwords_at (x_mem s') 0x600000 (xs[j := v])"
  using store_word [OF assms(1-3), of v] assms(4) by (blast intro: finishes_run)

text \<open>The 32-bit part of a register.\<close>

abbreviation reg32 :: "xcpu \<Rightarrow> reg \<Rightarrow> u32" where
  "reg32 s r \<equiv> ucast (x_reg s r)"

subsection \<open>Sums and products\<close>

lemma eval1_computes:
  "x_pc s = 0 \<Longrightarrow> dwords_at (x_mem s) 0x600000 [x, y, z, r] \<Longrightarrow>
    \<exists>s'. finishes org eval1_asm s s' \<and> dwords_at (x_mem s') 0x600000 [x, y, z, - x + y - z]"
  using store_ends [where t = eval1_asm and n = 5 and j = 3 and xs = "[x, y, z, r]" and v = "- x + y - z" and s = s and org = org]
  by (simp add: x86_steps ring32 dwords eval1_asm_def)

lemma addsub2_computes:
  "x_pc s = 0 \<Longrightarrow> dwords_at (x_mem s) 0x600000 [x, y, z, r] \<Longrightarrow>
    \<exists>s'. finishes org addsub2_asm s s' \<and> dwords_at (x_mem s') 0x600000 [x, y, z, x + y - z]"
  using store_ends [where t = addsub2_asm and n = 4 and j = 3 and xs = "[x, y, z, r]" and v = "x + y - z" and s = s and org = org]
  by (simp add: x86_steps ring32 dwords addsub2_asm_def)

lemma math1_computes:
  "x_pc s = 0 \<Longrightarrow> dwords_at (x_mem s) 0x600000 [x, y, z, r] \<Longrightarrow>
    \<exists>s'. finishes org math1_asm s s' \<and> dwords_at (x_mem s') 0x600000 [x, y, z, (x + y) * z]"
  using store_ends [where t = math1_asm and n = 6 and j = 3 and xs = "[x, y, z, r]" and v = "(x + y) * z" and s = s and org = org]
  by (simp add: x86_steps ring32 dwords math1_asm_def mul_op_def mul_low32)

lemma mulbyshift_computes:
  assumes "x_pc s = 0" "dwords_at (x_mem s) 0x600000 [x, r]"
  shows "\<exists>s'. finishes org mulbyshift_asm s s' \<and> dwords_at (x_mem s') 0x600000 [x, 26 * x]"
proof -
  have v: "push_bit 4 x + push_bit 3 x + x * 2 = 26 * x" by (simp add: push_bit_eq_mult)
  have "\<exists>s'. finishes org mulbyshift_asm s s' \<and> dwords_at (x_mem s') 0x600000 ([x, r][1 := push_bit 4 x + push_bit 3 x + x * 2])"
    by (rule store_ends [where n = 9]) (use assms in \<open>simp_all add: x86_steps ring32 dwords mulbyshift_asm_def shl_op_def\<close>)
  then show ?thesis unfolding v by simp
qed

lemma math2_computes:
  assumes "x_pc s = 0" "dwords_at (x_mem s) 0x600000 [x, y, z]"
  shows "\<exists>s'. finishes org math2_asm s s' \<and> reg32 s' RAX = - x * y + z"
  by (rule finishes_ex [where n = 6])
    (use assms mul_low32 [of "- x" y] in \<open>simp add: x86_steps ring32 dwords math2_asm_def mul_op_def\<close>)

lemma addsub1_computes: "x_pc s = 0 \<Longrightarrow> \<exists>s'. finishes org addsub1_asm s s' \<and> x_reg s' RAX = 0x8396efa7"
  by (rule finishes_ex [where n = 3]) (simp add: x86_steps addsub1_asm_def)

lemma leax_computes:
  assumes "x_pc s = 0"
  shows "\<exists>s'. finishes org leax_asm s s' \<and> reg32 s' RAX = 2 * reg32 s RDI \<and> reg32 s' RBX = 3 * reg32 s RDI \<and>
    reg32 s' RCX = 5 * reg32 s RDI \<and> reg32 s' RDX = 9 * reg32 s RDI"
  by (rule finishes_ex [where n = 4]) (use assms in \<open>simp add: x86_steps ring32 leax_asm_def\<close>)

subsection \<open>Bits, bytes and the stack\<close>

text \<open>A write to the low byte of a register.\<close>

abbreviation reg8 :: "xcpu \<Rightarrow> reg \<Rightarrow> u8" where
  "reg8 s r \<equiv> ucast (x_reg s r)"

lemma set_low8: "(ucast (NOT (mask 8) :: u64) :: u8) = 0" "drop_bit 8 (ucast (v :: u8) :: u64) = 0"
  "drop_bit 8 (w :: u64) AND drop_bit 8 (NOT (mask 8)) = drop_bit 8 w"
  by (rule bit_word_eqI, auto simp: bit_ucast_iff bit_and_iff bit_not_iff bit_mask_iff bit_drop_bit_eq
      dest: bit_imp_le_length)+

lemma ucast_bitwise: "LENGTH('a::len) \<le> 64 \<Longrightarrow> (ucast ((a :: u64) AND b) :: 'a word) = ucast a AND ucast b"
  "LENGTH('a::len) \<le> 64 \<Longrightarrow> (ucast ((a :: u64) OR b) :: 'a word) = ucast a OR ucast b"
  "LENGTH('a::len) \<le> 64 \<Longrightarrow> (ucast ((a :: u64) XOR b) :: 'a word) = ucast a XOR ucast b"
  by (rule bit_word_eqI, auto simp: bit_ucast_iff bit_or_iff bit_and_iff bit_xor_iff)+

lemmas ring8 = ucast_ring [where 'a = 8, simplified] ucast_up_down [where 'a = 8, simplified] ucast_bitwise [where 'a = 8, simplified]

lemma clear17_computes:
  assumes "x_pc s = 0"
  shows "\<exists>s'. finishes org clear17_asm s s' \<and> reg32 s' RAX = unset_bit 17 (reg32 s RAX)"
proof -
  have "unset_bit 17 v = v AND 0xfffdffff" for v :: u32
  proof -
    have "(0xfffdffff :: u32) = NOT (push_bit 17 1)" by simp
    then show ?thesis by (simp only: unset_bit_eq_and_not)
  qed
  then show ?thesis
    by (intro finishes_ex [where n = 1])
      (use assms in \<open>simp add: x86_steps ring32 ucast_bitwise [where 'a = 32, simplified] clear17_asm_def\<close>)
qed

lemma dec2ascii_computes:
  assumes "x_pc s = 0" "reg8 s RAX = of_nat d" "d < 10"
  shows "\<exists>s'. finishes org dec2ascii_asm s s' \<and> reg8 s' RAX = byte_of_char (digit_char d) \<and>
    drop_bit 8 (x_reg s' RAX) = drop_bit 8 (x_reg s RAX)"
proof -
  have "list_all (\<lambda>d. (of_nat d :: u8) OR 0x30 = byte_of_char (digit_char d)) [0..<10]" by code_simp
  then have d: "(of_nat d :: u8) OR 0x30 = byte_of_char (digit_char d)" using assms(3) by (simp add: list_all_iff)
  show ?thesis
    by (rule finishes_ex [where n = 1]) (use assms d in \<open>simp add: x86_steps ring8 set_low8 dec2ascii_asm_def\<close>)
qed

text \<open>The letter in \<open>ch\<close>, and the other bytes of \<open>rcx\<close>.\<close>

lemma ul_lu_computes:
  assumes "x_pc s = 0"
  shows "\<exists>s'. finishes org ul_lu_asm s s' \<and> x_reg s' RCX = x_reg s RCX XOR 0x2000"
proof -
  have "(v AND NOT (push_bit 8 (mask 8))) OR push_bit 8 (take_bit 8 (take_bit 8 (drop_bit 8 v) XOR 0x20)) = v XOR 0x2000"
    for v :: u64
  proof (rule bit_word_eqI)
    fix n assume "n < LENGTH(64)"
    have "bit (0x20 :: u64) (n - 8) \<longleftrightarrow> n = 13" if "8 \<le> n" for n
      using that bit_exp_iff [where 'a = "64 word", of 5 "n - 8"] by auto
    moreover have "bit (0x2000 :: u64) n \<longleftrightarrow> n = 13" using bit_exp_iff [where 'a = "64 word", of 13 n] by auto
    ultimately show "bit ((v AND NOT (push_bit 8 (mask 8))) OR push_bit 8 (take_bit 8 (take_bit 8 (drop_bit 8 v) XOR 0x20))) n =
        bit (v XOR 0x2000) n" using \<open>n < LENGTH(64)\<close>
      by (auto simp: bit_or_iff bit_and_iff bit_not_iff bit_push_bit_iff bit_mask_iff bit_take_bit_iff bit_xor_iff bit_drop_bit_eq)
  qed
  then show ?thesis
    by (intro finishes_ex [where n = 1]) (use assms in \<open>simp add: x86_steps ul_lu_asm_def\<close>)
qed

lemma swapreg_swaps:
  assumes "x_pc s = 0"
  shows "\<exists>s'. finishes org swapreg_asm s s' \<and> x_reg s' RAX = x_reg s RBX \<and> x_reg s' RBX = x_reg s RAX"
  by (rule finishes_ex [where n = 3]) (use assms in \<open>simp add: x86_steps swapreg_asm_def\<close>)

lemma load_stored8: "store_mem m a 1 (ucast (x :: u8)) = Some m' \<Longrightarrow> load_mem m' a 1 = Some (ucast x)"
proof -
  have "take_bit 8 (ucast x :: u64) = ucast x" by (rule bit_word_eqI) (auto simp: bit_take_bit_iff bit_ucast_iff dest: bit_imp_le_length)
  then show "store_mem m a 1 (ucast x) = Some m' \<Longrightarrow> ?thesis" using load_stored [of m a 1 "ucast x" m'] by simp
qed

lemma isolatebit_computes:
  assumes "x_pc s = 0" "load_mem (x_mem s) 0x600000 1 \<noteq> None"
  shows "\<exists>s'. finishes org isolatebit_asm s s' \<and> load_mem (x_mem s') 0x600000 1 = Some (take_bit 7 (drop_bit 5 (x_reg s RAX)))"
proof -
  let ?v = "take_bit 7 (drop_bit 5 (x_reg s RAX))"
  have v: "low W8 ((((x AND NOT (mask 16)) OR low W16 (low W16 (push_bit 4 (low W16 x)))) AND NOT (mask 16)) OR
      low W16 (drop_bit 9 (low W16 ((x AND NOT (mask 16)) OR low W16 (low W16 (push_bit 4 (low W16 x))))))) =
    take_bit 7 (drop_bit 5 (x :: u64))" for x
    by (rule bit_word_eqI)
      (auto simp: low_def bit_or_iff bit_and_iff bit_not_iff bit_push_bit_iff bit_mask_iff bit_take_bit_iff bit_drop_bit_eq)
  obtain m where m: "store_mem (x_mem s) 0x600000 1 ?v = Some m" using store_Some [OF assms(2)] by blast
  have "\<exists>s'. x86_run org isolatebit_asm 3 s = Inr s' \<and> x_pc s' = length (xcode isolatebit_asm) \<and> x_mem s' = m"
    using assms m by (simp add: x86_core isolatebit_asm_def shl_op_def shr_op_def v)
  moreover have "take_bit 8 ?v = ?v" by simp
  ultimately show ?thesis using load_stored [OF m] by (auto intro: finishes_run)
qed

lemma tolower_computes:
  assumes "x_pc s = 0" "load_mem (x_mem s) 0x600000 1 = Some (ucast (c :: u8))" "load_mem (x_mem s) 0x600001 1 \<noteq> None"
  shows "\<exists>s'. finishes org tolower_asm s s' \<and> load_mem (x_mem s') 0x600001 1 = Some (ucast (c - 0x20))"
proof -
  obtain m where m: "store_mem (x_mem s) 0x600001 1 (ucast (c - 0x20)) = Some m" using store_Some [OF assms(3)] by blast
  have "\<exists>s'. x86_run org tolower_asm 3 s = Inr s' \<and> x_pc s' = length (xcode tolower_asm) \<and> x_mem s' = m"
    using assms m by (simp add: x86_steps ring8 set_low8 tolower_asm_def)
  then show ?thesis using load_stored8 [OF m] by (auto intro: finishes_run)
qed

lemma swapmem_swaps:
  assumes "x_pc s = 0" "load_mem (x_mem s) 0x600000 8 = Some v" "load_mem (x_mem s) 0x600008 8 = Some w"
  shows "\<exists>s'. finishes org swapmem_asm s s' \<and> load_mem (x_mem s') 0x600000 8 = Some w \<and> load_mem (x_mem s') 0x600008 8 = Some v"
proof -
  have ov: "no_overlap 0x600000 8 0x600008 8" "no_overlap 0x600008 8 0x600000 8" by (simp_all add: no_overlap_def)
  obtain m1 where m1: "store_mem (x_mem s) 0x600000 8 w = Some m1" using store_Some [of "x_mem s" "0x600000" 8 w] assms(2) by auto
  then obtain m2 where m2: "store_mem m1 0x600008 8 v = Some m2"
    using store_Some [of m1 "0x600008" 8 v] load_apart [OF m1 ov(1)] assms(3) by auto
  have "\<exists>s'. x86_run org swapmem_asm 4 s = Inr s' \<and> x_pc s' = length (xcode swapmem_asm) \<and> x_mem s' = m2"
    using assms m1 m2 by (simp add: x86_core low_word(4) swapmem_asm_def)
  then show ?thesis using load_stored64 [OF m2] load_stored64 [OF m1] load_apart [OF m2 ov(2)] by (auto intro: finishes_run)
qed

lemma minicall_reads_return:
  assumes "x_pc s = 0" "load_mem (x_mem s) (x_reg s RSP - 8) 8 \<noteq> None"
  shows "\<exists>s'. finishes org minicall_asm s s' \<and> x_reg s' RAX = org + 1 \<and> x_reg s' RSP = x_reg s RSP"
proof -
  obtain m1 where m1: "store_mem (x_mem s) (x_reg s RSP - 8) 8 (org + 1) = Some m1" using store_Some [OF assms(2)] by blast
  then have l1: "load_mem m1 (x_reg s RSP - 8) 8 = Some (org + 1)" by (rule load_stored64)
  then obtain m2 where m2: "store_mem m1 (x_reg s RSP - 8) 8 (org + 1) = Some m2" using store_Some [of m1] by blast
  then have l2: "load_mem m2 (x_reg s RSP - 8) 8 = Some (org + 1)" by (rule load_stored64)
  show ?thesis
    by (rule finishes_ex [where n = 5])
      (use assms m1 m2 l1 l2 in \<open>simp add: x86_core low_word(4) minicall_asm_def xpush_def xpop_def\<close>)
qed

subsection \<open>\<open>posneg\<close>\<close>

definition sign_word :: "u32 \<Rightarrow> u32" where
  "sign_word v = (if sint v < 0 then - 1 else 1)"

lemma posneg_labels:
  "xlabel posneg_asm ''L1'' = 5"
  "xlabel posneg_asm ''IF2'' = 7"
  "xlabel posneg_asm ''L2'' = 12"
  "xlabel posneg_asm ''IF3'' = 14"
  "xlabel posneg_asm ''L3'' = 19"
  "xlabel posneg_asm ''IF4'' = 21"
  "xlabel posneg_asm ''L4'' = 26"
  "xlabel posneg_asm ''over'' = 28"
  by code_simp+

text \<open>The four parts have the same seven instructions, on four registers and four words.\<close>

definition posneg_part :: "reg \<Rightarrow> u64 \<Rightarrow> string \<Rightarrow> string \<Rightarrow> x86 list" where
  "posneg_part r a neg next =
    [ALU CMP W32 (XR r) (XN 0), JCC JL neg, MOV W32 (XR r) (XN 1), MOV W32 (At (A64 [] a)) (XR r), JMP next,
     MOV W32 (XR r) (XN (- 1)), MOV W32 (At (A64 [] a)) (XR r)]"

lemma posneg_code:
  "xcode posneg_asm = posneg_part RAX 0x600000 ''L1'' ''IF2'' @ posneg_part RBX 0x600004 ''L2'' ''IF3'' @
    posneg_part RCX 0x600008 ''L3'' ''IF4'' @ posneg_part RDX 0x60000c ''L4'' ''over''"
  by (simp add: posneg_asm_def posneg_part_def)

lemma part_runs:
  assumes "take 7 (drop k (xcode t)) = posneg_part r a neg next" "xlabel t neg = k + 5" "xlabel t next = k + 7"
    "x_pc s = k" "store_mem (x_mem s) a 4 (ucast (sign_word (reg32 s r))) = Some m"
  shows "\<exists>s'. gets_to org t s s' \<and> x_pc s' = k + 7 \<and> x_mem s' = m \<and> x_reg s' = (x_reg s)(r := ucast (sign_word (reg32 s r)))"
proof -
  have len: "k + 7 \<le> length (xcode t)"
  proof -
    have "length (take 7 (drop k (xcode t))) = 7" unfolding assms(1) by (simp add: posneg_part_def)
    then show ?thesis by simp
  qed
  have f: "xfetch t (k + i) = Some (posneg_part r a neg next ! i)" if "i < 7" for i
    unfolding assms(1) [symmetric] using that len by (simp add: xfetch_def)
  have f': "xfetch t k = Some (ALU CMP W32 (XR r) (XN 0))" "xfetch t (Suc k) = Some (JCC JL neg)"
    "xfetch t (Suc (Suc k)) = Some (MOV W32 (XR r) (XN 1))" "xfetch t (Suc (Suc (Suc k))) = Some (MOV W32 (At (A64 [] a)) (XR r))"
    "xfetch t (Suc (Suc (Suc (Suc k)))) = Some (JMP next)" "xfetch t (k + 5) = Some (MOV W32 (XR r) (XN (- 1)))"
    "xfetch t (Suc (k + 5)) = Some (MOV W32 (At (A64 [] a)) (XR r))"
    using f [of 0] f [of 1] f [of 2] f [of 3] f [of 4] f [of 5] f [of 6] by (simp_all add: posneg_part_def numeral_eq_Suc)
  note run = x86_run_numeral x86_step_def Let_def put_low_def low_word ring32 sign_word_def result_flags_def sval_word
  show ?thesis
  proof (cases "sint (reg32 s r) < 0")
    case True
    have "\<exists>s'. x86_run org t 4 s = Inr s' \<and> x_pc s' = k + 7 \<and> x_mem s' = m \<and>
        x_reg s' = (x_reg s)(r := ucast (sign_word (reg32 s r)))"
      using True assms(2-5) f' by (simp add: run)
    then show ?thesis by (blast intro: gets_to_run)
  next
    case False
    have "\<exists>s'. x86_run org t 5 s = Inr s' \<and> x_pc s' = k + 7 \<and> x_mem s' = m \<and>
        x_reg s' = (x_reg s)(r := ucast (sign_word (reg32 s r)))"
      using False assms(2-5) f' by (simp add: run)
    then show ?thesis by (blast intro: gets_to_run)
  qed
qed

lemma posneg_signs:
  assumes "x_pc s = 0" "dwords_at (x_mem s) 0x600000 [p, q, u, v]"
  shows "\<exists>s'. finishes org posneg_asm s s' \<and> dwords_at (x_mem s') 0x600000 (map (\<lambda>r. sign_word (reg32 s r)) [RAX, RBX, RCX, RDX])"
proof -
  let ?w = "\<lambda>r. sign_word (reg32 s r)"
  have part: "\<exists>s'. gets_to org posneg_asm t s' \<and> x_pc s' = k + 7 \<and> dwords_at (x_mem s') 0x600000 (xs[j := sign_word (reg32 t r)]) \<and>
      x_reg s' = (x_reg t)(r := ucast (sign_word (reg32 t r)))"
    if "take 7 (drop k (xcode posneg_asm)) = posneg_part r (0x600000 + 4 * of_nat j) neg next" "xlabel posneg_asm neg = k + 5"
      "xlabel posneg_asm next = k + 7" "x_pc t = k" "dwords_at (x_mem t) 0x600000 xs" "length xs = 4" "j < 4" for t r k j neg "next" xs
    using part_runs [OF that(1-4)] store_word [OF that(5), of j "sign_word (reg32 t r)"] that(6,7) by fastforce
  obtain s1 where s1: "gets_to org posneg_asm s s1" "x_pc s1 = 7" "dwords_at (x_mem s1) 0x600000 [?w RAX, q, u, v]"
    "x_reg s1 = (x_reg s)(RAX := ucast (?w RAX))"
    using part [of 0 RAX 0 "''L1''" "''IF2''" s "[p, q, u, v]"] assms by (auto simp: posneg_code posneg_part_def posneg_labels)
  obtain s2 where s2: "gets_to org posneg_asm s1 s2" "x_pc s2 = 14" "dwords_at (x_mem s2) 0x600000 [?w RAX, ?w RBX, u, v]"
    "x_reg s2 = (x_reg s1)(RBX := ucast (?w RBX))"
    using part [of 7 RBX 1 "''L2''" "''IF3''" s1 "[?w RAX, q, u, v]"] s1 by (auto simp: posneg_code posneg_part_def posneg_labels)
  obtain s3 where s3: "gets_to org posneg_asm s2 s3" "x_pc s3 = 21" "dwords_at (x_mem s3) 0x600000 [?w RAX, ?w RBX, ?w RCX, v]"
    "x_reg s3 = (x_reg s2)(RCX := ucast (?w RCX))"
    using part [of 14 RCX 2 "''L3''" "''IF4''" s2 "[?w RAX, ?w RBX, u, v]"] s1(4) s2
    by (auto simp: posneg_code posneg_part_def posneg_labels)
  obtain s4 where s4: "gets_to org posneg_asm s3 s4" "x_pc s4 = 28" "dwords_at (x_mem s4) 0x600000 [?w RAX, ?w RBX, ?w RCX, ?w RDX]"
    using part [of 21 RDX 3 "''L4''" "''over''" s3 "[?w RAX, ?w RBX, ?w RCX, v]"] s1(4) s2(4) s3
    by (auto simp: posneg_code posneg_part_def posneg_labels)
  have "gets_to org posneg_asm s s4" using s1(1) s2(1) s3(1) s4(1) by (blast intro: gets_to_trans)
  moreover have "length (xcode posneg_asm) = 28" by (simp add: posneg_code posneg_part_def)
  ultimately show ?thesis using s4 by (auto simp: finishes_def)
qed

end
