(* ===== verification/Ctf_Divide.thy ===== *)
theory Ctf_Divide
  imports Ctf_Straight "HOL-Library.Signed_Division"
begin

text \<open>
  The exercises that divide, \<open>math3\<close>, \<open>math4\<close> and \<open>math5\<close>: the quotients they store are those of C on 32-bit
  integers, unsigned in the first and towards zero in the others, and they fault exactly when a divisor is
  zero or the quotient does not fit.
\<close>

subsection \<open>Divisions\<close>

text \<open>When \<open>idiv\<close> faults: a divisor of 0, or the one quotient that does not fit.\<close>

definition div_fails :: "u32 \<Rightarrow> u32 \<Rightarrow> bool" where
  "div_fails a b \<longleftrightarrow> b = 0 \<or> a = 0x80000000 \<and> b = - 1"

lemma div32:
  assumes "reg32 t RDX = 0"
  shows "div_op W32 (ucast (d :: u32)) t =
    (if d = 0 then Inl Divide
     else Inr (put_low W32 RDX (ucast (reg32 t RAX mod d)) (put_low W32 RAX (ucast (reg32 t RAX div d)) t)\<lparr>x_fl := no_flags\<rparr>))"
proof -
  have u: "unat (ucast x :: u64) = unat x" for x :: u32
    using unsigned_less [of x, where 'a = nat] by (simp add: unsigned_ucast_eq take_bit_nat_eq_self)
  have q: "unat (reg32 t RAX) div unat d < 2 ^ 32"
    using unsigned_less [of "reg32 t RAX", where 'a = nat] by (intro order.strict_trans1 [OF div_le_dividend]) simp
  have "d = 0 \<longleftrightarrow> unat d = 0" by (simp add: unat_eq_0)
  moreover have "(of_nat (unat x div unat y) :: u64) = ucast (x div y)" "(of_nat (unat x mod unat y) :: u64) = ucast (x mod y)" for x y :: u32
    by (simp_all only: unat_div [symmetric] unat_mod [symmetric] of_nat_unat)
  ultimately show ?thesis using assms q by (simp add: div_op_def Let_def low_word u)
qed

lemma imul_low32: "low W32 (of_int (sval W32 (ucast (a :: u32)) * sval W32 (ucast b))) = ucast (a * (b :: u32))"
proof -
  have "(of_int (sint a * sint b) :: u32) = a * b" by (simp only: of_int_mult of_int_sint scast_id)
  then show ?thesis by (simp only: low_word sval_word ring32)
qed

text \<open>C division of 32-bit integers, towards zero.\<close>

definition cdiv :: "u32 \<Rightarrow> u32 \<Rightarrow> u32" where
  "cdiv a b = of_int (sint a sdiv sint b)"

definition crem :: "u32 \<Rightarrow> u32 \<Rightarrow> u32" where
  "crem a b = of_int (sint a smod sint b)"

lemma sint_uint32: "sint (a :: u32) = uint a - (if sint a < 0 then 2 ^ 32 else 0)"
proof -
  have "sint a = take_bit 32 (uint a) - 2 ^ 32 * of_bool (bit (uint a) 31)"
    by (simp add: sint_uint signed_take_bit_eq_take_bit_minus)
  moreover have "sint a < 0 \<longleftrightarrow> bit (uint a) 31" by (simp add: sint_uint)
  moreover have "take_bit 32 (uint a) = uint a"
    using unsigned_less [of a, where 'a = int] by (intro take_bit_int_eq_self) simp_all
  ultimately show ?thesis by simp
qed

lemma div_overflows:
  fixes a b :: u32
  assumes "b \<noteq> 0"
  shows "(2 :: int) ^ 31 \<le> sint a sdiv sint b \<longleftrightarrow> a = 0x80000000 \<and> b = - 1" "- (2 ^ 31) \<le> sint a sdiv sint b"
proof -
  have a: "- (2 ^ 31) \<le> sint a" "sint a < 2 ^ 31" using sint_greater_eq [of a] sint_less [of a] by simp_all
  have r: "sint a sdiv sint b \<le> \<bar>sint a\<bar>" "- \<bar>sint a\<bar> \<le> sint a sdiv sint b" using sdiv_int_range [of "sint a" "sint b"] by simp_all
  then show "- (2 ^ 31) \<le> sint a sdiv sint b" using a by linarith
  have min: "sint (0x80000000 :: u32) = - (2 ^ 31)" "sint (- 1 :: u32) = - 1" by simp_all
  show "(2 :: int) ^ 31 \<le> sint a sdiv sint b \<longleftrightarrow> a = 0x80000000 \<and> b = - 1"
  proof
    assume q: "2 ^ 31 \<le> sint a sdiv sint b"
    then have s: "sint a = - (2 ^ 31)" using a r by linarith
    have nz: "sint b \<noteq> 0" using assms by (simp add: signed_eq_0_iff)
    have b1: "sint b = - 1"
    proof (rule ccontr)
      assume n: "sint b \<noteq> - 1"
      then consider "sint b = 1" | "1 < \<bar>sint b\<bar>" using nz by linarith
      then show False
      proof cases
        case 2
        then have "(2 :: int) ^ 31 div \<bar>sint b\<bar> < 2 ^ 31" by (intro int_div_less_self) simp_all
        moreover have "0 \<le> (2 :: int) ^ 31 div \<bar>sint b\<bar>" using 2 by (simp add: pos_imp_zdiv_nonneg_iff)
        ultimately show False using q by (simp add: s signed_divide_int_def sgn_if split: if_splits)
      qed (use q s in simp)
    qed
    have e: "sint a = sint (0x80000000 :: u32)" "sint b = sint (- 1 :: u32)" by (simp_all only: s b1 min)
    show "a = 0x80000000 \<and> b = - 1" using signed_word_eqI [OF e(1)] signed_word_eqI [OF e(2)] by blast
  qed (use min in simp)
qed

text \<open>The dividend sign-extended by \<open>cdq\<close>.\<close>

lemma idiv32:
  assumes "reg32 t RDX = (if sint (reg32 t RAX) < 0 then - 1 else 0)"
  shows "idiv_op W32 (ucast (d :: u32)) t =
    (if div_fails (reg32 t RAX) d then Inl Divide
     else Inr (put_low W32 RDX (ucast (crem (reg32 t RAX) d)) (put_low W32 RAX (ucast (cdiv (reg32 t RAX) d)) t)\<lparr>x_fl := no_flags\<rparr>))"
proof -
  let ?a = "sint (reg32 t RAX)"
  have lo: "uint (low W32 (x_reg t RAX)) = uint (reg32 t RAX)" by (simp add: low_def unsigned_take_bit_eq unsigned_ucast_eq)
  have n: "sval W32 (x_reg t RDX) * 2 ^ 32 + uint (low W32 (x_reg t RAX)) = ?a"
    using sint_uint32 [of "reg32 t RAX"] assms unfolding sval_word lo by (cases "sint (reg32 t RAX) < 0") simp_all
  have d: "sval W32 (ucast d) = sint d" by (simp add: sval_word ring32)
  have q: "sgn ?a * sgn (sint d) * (\<bar>?a\<bar> div \<bar>sint d\<bar>) = ?a sdiv sint d" by (simp add: signed_divide_int_def)
  have p: "put_low W32 r (of_int i) s = put_low W32 r (ucast (of_int i :: u32)) s" for r i s
    by (simp add: put_low_def low_word ring32)
  have z: "sint d = 0 \<longleftrightarrow> d = 0" by (rule signed_eq_0_iff)
  have f: "(sint d = 0 \<or> ?a sdiv sint d < - (2 ^ 31) \<or> 2 ^ 31 \<le> ?a sdiv sint d) \<longleftrightarrow> div_fails (reg32 t RAX) d"
    using div_overflows [of d "reg32 t RAX"] z by (auto simp: div_fails_def)
  show ?thesis
    unfolding idiv_op_def Let_def bits.simps n d q cdiv_def crem_def minus_sdiv_mult_eq_smod
    using f p by simp
qed

subsection \<open>The exercises\<close>

lemma math3_computes:
  assumes "x_pc s = 0" "dwords_at (x_mem s) 0x600000 [x, y, r]" "y \<noteq> 3"
  shows "\<exists>s'. finishes org math3_asm s s' \<and> dwords_at (x_mem s') 0x600000 [x, y, x * 5 div (y - 3)]"
proof -
  have "\<exists>s'. finishes org math3_asm s s' \<and> dwords_at (x_mem s') 0x600000 ([x, y, r][2 := x * 5 div (y - 3)])"
    by (rule store_ends [where n = 7])
      (use assms in \<open>simp_all add: x86_steps ring32 dwords math3_asm_def div32 mult.commute\<close>)
  then show ?thesis by simp
qed

lemma math3_faults:
  assumes "x_pc s = 0" "dwords_at (x_mem s) 0x600000 [x, 3, r]"
  shows "x86_run org math3_asm 6 s = Inl Divide"
proof -
  have "div_op W32 0 t = Inl Divide" for t by (simp add: div_op_def)
  then show ?thesis using assms by (simp add: x86_steps ring32 dwords math3_asm_def)
qed

lemma times_minus5: "x * 4294967291 = - (x * 5)" for x :: u32
proof -
  have "(4294967291 :: u32) = - 5" by simp
  then show ?thesis by (simp only: mult_minus_right)
qed

lemmas divisions = idiv32 imul_op_def sval_word times_minus5

text \<open>\<open>math4\<close>: the remainder of the first division is the divisor of the second.\<close>

lemma math4_computes:
  assumes "x_pc s = 0" "dwords_at (x_mem s) 0x600000 [x, y, z, r]"
    "\<not> div_fails (- y) z" "\<not> div_fails (- (x * 5)) (crem (- y) z)"
  shows "\<exists>s'. finishes org math4_asm s s' \<and> dwords_at (x_mem s') 0x600000 [x, y, z, cdiv (- (x * 5)) (crem (- y) z)]"
proof -
  have "\<exists>s'. finishes org math4_asm s s' \<and> dwords_at (x_mem s') 0x600000 ([x, y, z, r][3 := cdiv (- (x * 5)) (crem (- y) z)])"
    by (rule store_ends [where n = 14]) (use assms in \<open>simp_all add: x86_steps ring32 dwords math4_asm_def divisions\<close>)
  then show ?thesis by simp
qed

lemma math4_faults:
  assumes "x_pc s = 0" "dwords_at (x_mem s) 0x600000 [x, y, z, r]"
    "div_fails (- y) z \<or> div_fails (- (x * 5)) (crem (- y) z)"
  shows "x86_run org math4_asm 13 s = Inl Divide"
  using assms by (auto simp: x86_steps ring32 dwords math4_asm_def divisions)

lemma math5_computes:
  assumes "x_pc s = 0" "dwords_at (x_mem s) 0x600000 [x, y, z]" "\<not> div_fails (- (x * y)) (z - reg32 s RBX)"
  shows "\<exists>s'. finishes org math5_asm s s' \<and> dwords_at (x_mem s') 0x600000 [x, y, cdiv (- (x * y)) (z - reg32 s RBX)]"
proof -
  have "\<exists>s'. finishes org math5_asm s s' \<and> dwords_at (x_mem s') 0x600000 ([x, y, z][2 := cdiv (- (x * y)) (z - reg32 s RBX)])"
    by (rule store_ends [where n = 9]) (use assms in \<open>simp_all add: x86_steps ring32 dwords math5_asm_def divisions\<close>)
  then show ?thesis by simp
qed

lemma math5_faults:
  assumes "x_pc s = 0" "dwords_at (x_mem s) 0x600000 [x, y, z]" "div_fails (- (x * y)) (z - reg32 s RBX)"
  shows "x86_run org math5_asm 8 s = Inl Divide"
  using assms by (simp add: x86_steps ring32 dwords math5_asm_def divisions)

end
