(* ===== verification/Ctf_Bubble.thy ===== *)
theory Ctf_Bubble
  imports Ctf_Programs "HOL-Library.Multiset"
begin

text \<open>
  \<open>bubble\<close>: a bubble sort of ten signed 32-bit integers at \<open>0x600000\<close>. The two loops of the listing are the
  passes of a function on lists, which sorts.
\<close>

subsection \<open>Signed comparisons\<close>

lemma signed_take_bit_range:
  fixes d M :: int
  assumes "- (2 * M) < d" "d < 2 * M" "M = 2 ^ n"
  shows "signed_take_bit n d = (if d < - M then d + 2 * M else if d < M then d else d - 2 * M)"
proof -
  have "signed_take_bit n d = (d + M) mod (2 * M) - M"
    by (simp add: signed_take_bit_eq_take_bit_shift take_bit_eq_mod assms(3))
  moreover have "(d + M) mod (2 * M) = (if d < - M then d + 3 * M else if d < M then d + M else d - M)"
  proof -
    have "0 < M" using assms(3) by simp
    consider "d < - M" | "- M \<le> d" "d < M" | "M \<le> d" by linarith
    then show ?thesis
    proof cases
      case 1
      then have "(d + M + 2 * M) mod (2 * M) = d + M + 2 * M" using assms(1) \<open>0 < M\<close> by (intro mod_pos_pos_trivial) simp_all
      moreover have "(d + M + 2 * M) mod (2 * M) = (d + M) mod (2 * M)" by (rule mod_add_self2)
      ultimately show ?thesis using 1 by simp
    next
      case 2
      then show ?thesis by simp
    next
      case 3
      then have "(d + M - 2 * M) mod (2 * M) = d + M - 2 * M" using assms(2) \<open>0 < M\<close> by (intro mod_pos_pos_trivial) simp_all
      moreover have "(d + M - 2 * M) mod (2 * M) = (d + M) mod (2 * M)" by (metis minus_mod_self2)
      ultimately show ?thesis using 3 \<open>0 < M\<close> by simp
    qed
  qed
  ultimately show ?thesis by simp
qed

lemma signed_less:
  fixes a b :: "'a::len word"
  shows "(sint (a - b) < 0 \<longleftrightarrow> sint (a - b) = sint a - sint b) \<longleftrightarrow> sint a < sint b"
proof -
  let ?M = "2 ^ (LENGTH('a) - 1) :: int"
  have "- ?M \<le> sint a" "sint a < ?M" "- ?M \<le> sint b" "sint b < ?M"
    using sint_greater_eq [of a] sint_less [of a] sint_greater_eq [of b] sint_less [of b] by simp_all
  then have r: "- (2 * ?M) < sint a - sint b" "sint a - sint b < 2 * ?M" by linarith+
  have s: "sint (a - b) = signed_take_bit (LENGTH('a) - 1) (sint a - sint b)" by (simp add: sint_word_diff)
  show ?thesis unfolding s signed_take_bit_range [OF r refl] using r by auto
qed

text \<open>The flags of a 32-bit comparison, and the jumps that read them.\<close>

definition cmp_flags :: "u32 \<Rightarrow> u32 \<Rightarrow> flags" where
  "cmp_flags a b = result_flags W32 ((ucast a :: u64) < ucast b) (ucast (a - b)) (sint a - sint b)"

lemma cmp32: "alu_op CMP W32 (ucast (a :: u32)) (ucast (b :: u32)) = (ucast (a - b), cmp_flags a b)"
  by (simp add: cmp_flags_def Let_def low_word ring32 sval_word)

lemma cmp_jumps: "holds_cond JG (cmp_flags a b) = Some (sint b < sint a)" "holds_cond JGE (cmp_flags a b) = Some (sint b \<le> sint a)"
proof -
  have s: "sval W32 (ucast (a - b)) = sint (a - b)" by (simp only: sval_word ring32)
  have z: "(ucast (a - b) :: u64) = 0 \<longleftrightarrow> a = b"
  proof
    assume "(ucast (a - b) :: u64) = 0"
    then have "(ucast (ucast (a - b) :: u64) :: u32) = 0" by simp
    then show "a = b" by (simp only: ring32) simp
  qed simp
  have "sint a = sint b \<longleftrightarrow> a = b" using signed_word_eqI [of a b] by blast
  then have e: "sint b < sint a \<longleftrightarrow> \<not> sint a < sint b \<and> a \<noteq> b" "sint b \<le> sint a \<longleftrightarrow> \<not> sint a < sint b" by auto
  show "holds_cond JG (cmp_flags a b) = Some (sint b < sint a)" "holds_cond JGE (cmp_flags a b) = Some (sint b \<le> sint a)"
    using signed_less [of a b] e by (auto simp: cmp_flags_def result_flags_def s z)
qed

subsection \<open>Bubble sort on lists\<close>

definition swap_at :: "u32 list \<Rightarrow> nat \<Rightarrow> u32 list" where
  "swap_at xs j = (if sint (xs ! (j + 1)) < sint (xs ! j) then xs[j := xs ! (j + 1), j + 1 := xs ! j] else xs)"

definition bubble_pass :: "nat \<Rightarrow> u32 list \<Rightarrow> u32 list" where
  "bubble_pass k xs = foldl swap_at xs [0..<k]"

text \<open>The function of the comment at the head of the file.\<close>

definition bubble_sort :: "u32 list \<Rightarrow> u32 list" where
  "bubble_sort xs = foldl (\<lambda>ys i. bubble_pass (length xs - 1 - i) ys) xs [0..<length xs - 1]"

lemma swap_at_spec:
  assumes "j + 1 < length xs"
  shows "length (swap_at xs j) = length xs" "mset (swap_at xs j) = mset xs"
    "q \<noteq> j \<Longrightarrow> q \<noteq> j + 1 \<Longrightarrow> swap_at xs j ! q = xs ! q"
    "sint (swap_at xs j ! j) \<le> sint (swap_at xs j ! (j + 1))"
    "sint (xs ! j) \<le> sint (swap_at xs j ! (j + 1))"
    "{swap_at xs j ! j, swap_at xs j ! (j + 1)} = {xs ! j, xs ! (j + 1)}"
  using assms mset_swap [of "j + 1" xs j] by (auto simp: swap_at_def nth_list_update)

text \<open>A pass moves the largest of its elements to their end and only permutes them.\<close>

lemma bubble_pass_spec:
  assumes "k < length xs"
  shows "length (bubble_pass k xs) = length xs" "mset (bubble_pass k xs) = mset xs"
    "\<forall>q>k. bubble_pass k xs ! q = xs ! q" "\<forall>p\<le>k. \<exists>p'\<le>k. bubble_pass k xs ! p = xs ! p'"
    "\<forall>p\<le>k. sint (bubble_pass k xs ! p) \<le> sint (bubble_pass k xs ! k)"
proof -
  let ?Q = "\<lambda>k ys. length ys = length xs \<and> mset ys = mset xs \<and> (\<forall>q>k. ys ! q = xs ! q) \<and>
    (\<forall>p\<le>k. \<exists>p'\<le>k. ys ! p = xs ! p') \<and> (\<forall>p\<le>k. sint (ys ! p) \<le> sint (ys ! k))"
  have "?Q k (bubble_pass k xs)" using assms
  proof (induction k)
    case 0
    then show ?case by (simp add: bubble_pass_def)
  next
    case (Suc k)
    let ?y = "bubble_pass k xs"
    have IH: "?Q k ?y" using Suc by simp
    have z: "bubble_pass (Suc k) xs = swap_at ?y k" by (simp add: bubble_pass_def)
    have len: "k + 1 < length ?y" using IH Suc.prems by simp
    note sp = swap_at_spec [OF len]
    have top: "?y ! (k + 1) = xs ! (k + 1)" using IH by simp
    have "\<exists>p'\<le>Suc k. swap_at ?y k ! p = xs ! p'" if p: "p \<le> Suc k" for p
    proof (cases "p < k")
      case True
      then show ?thesis using sp(3) [of p] IH by (metis le_SucI less_imp_le nat_neq_iff not_add_less1)
    next
      case False
      then have "p = k \<or> p = k + 1" using p by auto
      then have "swap_at ?y k ! p \<in> {?y ! k, ?y ! (k + 1)}" using sp(6) by auto
      moreover obtain p' where "p' \<le> k" "?y ! k = xs ! p'" using IH by blast
      ultimately show ?thesis using top by (auto intro: le_SucI)
    qed
    moreover have "sint (swap_at ?y k ! p) \<le> sint (swap_at ?y k ! Suc k)" if p: "p \<le> Suc k" for p
    proof -
      consider "p < k" | "p = k" | "p = Suc k" using p by linarith
      then show ?thesis
      proof cases
        case 1
        then have "swap_at ?y k ! p = ?y ! p" using sp(3) by simp
        moreover have "sint (?y ! p) \<le> sint (?y ! k)" using IH 1 by simp
        ultimately show ?thesis using sp(5) by simp
      qed (use sp(4) in simp_all)
    qed
    ultimately show ?case unfolding z using IH sp(1-3) by auto
  qed
  then show "length (bubble_pass k xs) = length xs" "mset (bubble_pass k xs) = mset xs"
    "\<forall>q>k. bubble_pass k xs ! q = xs ! q" "\<forall>p\<le>k. \<exists>p'\<le>k. bubble_pass k xs ! p = xs ! p'"
    "\<forall>p\<le>k. sint (bubble_pass k xs ! p) \<le> sint (bubble_pass k xs ! k)" by blast+
qed

text \<open>From place \<open>n\<close> on, the elements are in order and none before is larger.\<close>

definition sorted_from :: "nat \<Rightarrow> u32 list \<Rightarrow> bool" where
  "sorted_from n xs \<longleftrightarrow> (\<forall>q<length xs. \<forall>p<q. n \<le> q \<longrightarrow> sint (xs ! p) \<le> sint (xs ! q))"

lemma bubble_pass_sorts:
  assumes "sorted_from (Suc k) xs" "k < length xs"
  shows "sorted_from k (bubble_pass k xs)"
  unfolding sorted_from_def
proof (intro allI impI)
  fix p q assume q: "q < length (bubble_pass k xs)" and p: "p < q" and k: "k \<le> q"
  note sp = bubble_pass_spec [OF assms(2)]
  show "sint (bubble_pass k xs ! p) \<le> sint (bubble_pass k xs ! q)"
  proof (cases "q = k")
    case True
    then show ?thesis using sp(5) p by simp
  next
    case False
    then have qk: "k < q" using k by simp
    obtain p' where "p' < q" "bubble_pass k xs ! p = xs ! p'"
    proof (cases "p \<le> k")
      case True
      then show ?thesis using sp(4) qk that by (meson le_less_trans)
    next
      case False
      then show ?thesis using sp(3) p that by (meson not_le)
    qed
    then show ?thesis using sp(1,3) assms(1) qk q by (simp add: sorted_from_def)
  qed
qed

lemma passes_sort:
  assumes "i \<le> length xs - 1" "xs \<noteq> []"
  shows "length (foldl (\<lambda>ys i. bubble_pass (length xs - 1 - i) ys) xs [0..<i]) = length xs \<and>
    mset (foldl (\<lambda>ys i. bubble_pass (length xs - 1 - i) ys) xs [0..<i]) = mset xs \<and>
    sorted_from (length xs - i) (foldl (\<lambda>ys i. bubble_pass (length xs - 1 - i) ys) xs [0..<i])"
  using assms
proof (induction i)
  case 0
  then show ?case by (simp add: sorted_from_def)
next
  case (Suc i)
  let ?y = "foldl (\<lambda>ys i. bubble_pass (length xs - 1 - i) ys) xs [0..<i]"
  have IH: "length ?y = length xs" "mset ?y = mset xs" "sorted_from (length xs - i) ?y" using Suc by simp_all
  have k: "length xs - 1 - i < length ?y" "Suc (length xs - 1 - i) = length xs - i" using IH(1) Suc.prems by simp_all
  then show ?case using bubble_pass_spec(1,2) [OF k(1)] bubble_pass_sorts [OF _ k(1)] IH Suc.prems by simp
qed

lemma bubble_sort_sorts: "mset (bubble_sort xs) = mset xs" "sorted (map sint (bubble_sort xs))"
proof -
  have "mset (bubble_sort xs) = mset xs \<and> sorted (map sint (bubble_sort xs))"
  proof (cases "xs = []")
    case False
    have "length xs - (length xs - 1) \<le> 1" by simp
    then have "sorted_from 1 (bubble_sort xs)" "mset (bubble_sort xs) = mset xs"
      using passes_sort [OF order.refl False] by (auto simp: bubble_sort_def sorted_from_def)
    then show ?thesis by (force simp: sorted_wrt_iff_nth_less sorted_from_def)
  qed (simp add: bubble_sort_def)
  then show "mset (bubble_sort xs) = mset xs" "sorted (map sint (bubble_sort xs))" by blast+
qed

subsection \<open>The listing\<close>

lemma bubble_code:
  "xcode bubble_asm =
    [MOV W32 (XR RCX) (XN 0), MOV W32 (XR RDX) (XN 0), MOV W32 (XR RAX) (At (A32 [(RDX, 4)] 0x600000)),
     MOV W32 (XR RBX) (At (A32 [(RDX, 4)] 0x600004)), ALU CMP W32 (XR RAX) (XR RBX), JCC JG ''exch'', INC W32 (XR RDX),
     MOV W32 (XR RAX) (XR RCX), NEG W32 (XR RAX), ALU ADD W32 (XR RAX) (XN 9), ALU CMP W32 (XR RDX) (XR RAX), JCC JGE ''exitin'',
     JMP ''inloop'', MOV W32 (At (A32 [(RDX, 4)] 0x600000)) (XR RBX), MOV W32 (At (A32 [(RDX, 4)] 0x600004)) (XR RAX),
     JMP ''check'', INC W32 (XR RCX), ALU CMP W32 (XR RCX) (XN 9), JCC JGE ''exitout'', JMP ''outloop'']"
  by (simp add: bubble_asm_def)

lemma bubble_labels: "xlabel bubble_asm ''outloop'' = 1" "xlabel bubble_asm ''inloop'' = 2" "xlabel bubble_asm ''check'' = 6"
  "xlabel bubble_asm ''exch'' = 13" "xlabel bubble_asm ''exitin'' = 16" "xlabel bubble_asm ''exitout'' = 20"
  by code_simp+

text \<open>The loop counters and the array.\<close>

definition bubble_at :: "nat \<Rightarrow> nat \<Rightarrow> nat \<Rightarrow> u32 list \<Rightarrow> xcpu \<Rightarrow> bool" where
  "bubble_at pc i j xs s \<longleftrightarrow>
     x_pc s = pc \<and> x_reg s RCX = ucast (of_nat i :: u32) \<and> x_reg s RDX = ucast (of_nat j :: u32) \<and>
     dwords_at (x_mem s) 0x600000 xs \<and> length xs = 10"

lemma sint_count: "n < 100 \<Longrightarrow> sint (of_nat n :: u32) = int n"
  by (simp add: sint_uint uint_nat unat_of_nat signed_take_bit_int_eq_self)

lemma bubble_ea:
  assumes "j < 10" "x_reg s RDX = ucast (of_nat j :: u32)"
  shows "ea (A32 [(RDX, 4)] 0x600000) s = 0x600000 + 4 * of_nat j" "ea (A32 [(RDX, 4)] 0x600004) s = 0x600000 + 4 * of_nat (j + 1)"
proof -
  have u: "(ucast (of_nat j :: u32) :: u64) = of_nat j"
    using assms(1) by (simp add: word_unat_eq_iff unsigned_ucast_eq unsigned_of_nat take_bit_nat_eq_self)
  have cut: "take_bit 32 (of_nat n :: u64) = of_nat n" if "n < 2 ^ 32" for n
    using that by (simp add: take_bit_of_nat take_bit_nat_eq_self)
  have e: "ea (A32 [(RDX, 4)] d) s = take_bit 32 (4 * of_nat j + d)" for d
    using assms(2) u by simp
  have "4 * j + 0x600000 < 2 ^ 32" "4 * j + 0x600004 < 2 ^ 32" using assms(1) by simp_all
  note c = this [THEN cut]
  have "(4 * of_nat j + 0x600000 :: u64) = of_nat (4 * j + 0x600000)" "(4 * of_nat j + 0x600004 :: u64) = of_nat (4 * j + 0x600004)"
    by simp_all
  then have "ea (A32 [(RDX, 4)] 0x600000) s = of_nat (4 * j + 0x600000)" "ea (A32 [(RDX, 4)] 0x600004) s = of_nat (4 * j + 0x600004)"
    unfolding e by (simp_all only: c)
  then show "ea (A32 [(RDX, 4)] 0x600000) s = 0x600000 + 4 * of_nat j" "ea (A32 [(RDX, 4)] 0x600004) s = 0x600000 + 4 * of_nat (j + 1)"
    by simp_all
qed

lemma bubble_compare:
  assumes "bubble_at 2 i j xs s" "j < 9"
  shows "\<exists>s'. gets_to org bubble_asm s s' \<and> bubble_at (if sint (xs ! (j + 1)) < sint (xs ! j) then 13 else 6) i j xs s' \<and>
    x_reg s' RAX = ucast (xs ! j) \<and> x_reg s' RBX = ucast (xs ! (j + 1))"
proof -
  have j: "j < 10" using assms(2) by simp
  have ea: "ea (A32 [(RDX, 4)] 0x600000) t = 0x600000 + 4 * of_nat j" "ea (A32 [(RDX, 4)] 0x600004) t = 0x600000 + 4 * of_nat (j + 1)"
    if "x_reg t RDX = ucast (of_nat j :: u32)" for t using bubble_ea [OF j that] by blast+
  have ld: "load_mem (x_mem s) (0x600000 + 4 * of_nat j) 4 = Some (ucast (xs ! j))"
    "load_mem (x_mem s) (0x600000 + 4 * of_nat (j + 1)) 4 = Some (ucast (xs ! (j + 1)))"
    using assms dwords_nth [of "x_mem s" "0x600000" xs] by (simp_all add: bubble_at_def del: of_nat_add of_nat_Suc)
  have "\<exists>s'. x86_run org bubble_asm 4 s = Inr s' \<and> bubble_at (if sint (xs ! (j + 1)) < sint (xs ! j) then 13 else 6) i j xs s' \<and>
    x_reg s' RAX = ucast (xs ! j) \<and> x_reg s' RBX = ucast (xs ! (j + 1))"
    using assms(1) ld
    by (simp add: bubble_at_def x86_steps ring32 bubble_code bubble_labels ea cmp32 cmp_jumps
        del: alu_op.simps(3) ea.simps holds_cond.simps of_nat_add of_nat_Suc)
  then show ?thesis by (blast intro: gets_to_run)
qed

text \<open>The exchange stores the two registers the comparison loaded.\<close>

lemma bubble_exchange:
  assumes "bubble_at 13 i j xs s" "j < 9" "x_reg s RAX = ucast (a :: u32)" "x_reg s RBX = ucast (b :: u32)"
  shows "\<exists>s'. gets_to org bubble_asm s s' \<and> bubble_at 6 i j (xs[j := b, j + 1 := a]) s'"
proof -
  have j: "j < 10" using assms(2) by simp
  have ea: "ea (A32 [(RDX, 4)] 0x600000) t = 0x600000 + 4 * of_nat j" "ea (A32 [(RDX, 4)] 0x600004) t = 0x600000 + 4 * of_nat (j + 1)"
    if "x_reg t RDX = ucast (of_nat j :: u32)" for t using bubble_ea [OF j that] by blast+
  have xs: "dwords_at (x_mem s) 0x600000 xs" "length xs = 10" using assms(1) by (simp_all add: bubble_at_def)
  obtain m where m: "store_mem (x_mem s) (0x600000 + 4 * of_nat j) 4 (ucast b) = Some m" "dwords_at m 0x600000 (xs[j := b])"
    using dwords_store [OF xs(1), of j b] xs(2) j by auto
  obtain m' where m': "store_mem m (0x600000 + 4 * of_nat (j + 1)) 4 (ucast a) = Some m'" "dwords_at m' 0x600000 (xs[j := b, j + 1 := a])"
    using dwords_store [OF m(2), of "j + 1" a] xs(2) assms(2) by auto
  have "\<exists>s'. x86_run org bubble_asm 3 s = Inr s' \<and> bubble_at 6 i j (xs[j := b, j + 1 := a]) s'"
    using assms m m'
    by (simp add: bubble_at_def x86_steps ring32 bubble_code bubble_labels ea del: ea.simps of_nat_add of_nat_Suc)
  then show ?thesis by (blast intro: gets_to_run)
qed

text \<open>The end of the inner loop: the counter goes up and is compared with \<open>9 - i\<close>.\<close>

lemma bubble_next:
  assumes "bubble_at 6 i j xs s" "j < 9" "i < 9"
  shows "\<exists>s'. gets_to org bubble_asm s s' \<and> bubble_at (if 9 - i \<le> j + 1 then 16 else 2) i (j + 1) xs s'"
proof -
  let ?i = "of_nat i :: u32" and ?j = "of_nat j :: u32"
  have c: "1 + ?j = of_nat (j + 1)" "9 - ?i = of_nat (9 - i)" using assms(3) by (simp_all add: of_nat_diff)
  have s: "sint (1 + ?j) = int (j + 1)" "sint (9 - ?i) = int (9 - i)"
    unfolding c using assms(2,3) by (intro sint_count; simp)+
  have le: "8 - int i \<le> int j \<longleftrightarrow> 9 - i \<le> Suc j" using assms(3) by linarith
  have "\<exists>s'. x86_run org bubble_asm (if 9 - i \<le> j + 1 then 6 else 7) s = Inr s' \<and> bubble_at (if 9 - i \<le> j + 1 then 16 else 2) i (j + 1) xs s'"
    using assms
    by (simp add: bubble_at_def x86_steps ring32 bubble_code bubble_labels cmp32 cmp_jumps s le add.commute [of ?j 1]
        del: alu_op.simps(3) holds_cond.simps)
  then show ?thesis by (blast intro: gets_to_run)
qed


text \<open>An iteration of the inner loop is an exchange, the inner loop a pass, the outer loop the sort.\<close>

lemma bubble_inner_step:
  assumes "bubble_at 2 i j xs s" "j < 9 - i"
  shows "\<exists>s'. gets_to org bubble_asm s s' \<and> bubble_at (if 9 - i \<le> j + 1 then 16 else 2) i (j + 1) (swap_at xs j) s'"
proof -
  have j: "j < 9" "i < 9" using assms(2) by simp_all
  obtain t where t: "gets_to org bubble_asm s t" "bubble_at (if sint (xs ! (j + 1)) < sint (xs ! j) then 13 else 6) i j xs t"
    "x_reg t RAX = ucast (xs ! j)" "x_reg t RBX = ucast (xs ! (j + 1))"
    using bubble_compare [OF assms(1) j(1)] by blast
  have "\<exists>u. gets_to org bubble_asm t u \<and> bubble_at 6 i j (swap_at xs j) u"
  proof (cases "sint (xs ! (j + 1)) < sint (xs ! j)")
    case True
    then show ?thesis using bubble_exchange [OF _ j(1) t(3,4)] t(2) by (simp add: swap_at_def)
  next
    case False
    then show ?thesis using t(2) gets_to_refl by (auto simp: swap_at_def)
  qed
  then obtain u where u: "gets_to org bubble_asm t u" "bubble_at 6 i j (swap_at xs j) u" by blast
  show ?thesis using bubble_next [OF u(2) j] gets_to_trans [OF t(1) gets_to_trans [OF u(1)]] by blast
qed

lemma bubble_inner:
  assumes "bubble_at 2 i 0 xs s" "i < 9" "k \<le> 9 - i" "0 < k"
  shows "\<exists>s'. gets_to org bubble_asm s s' \<and> bubble_at (if 9 - i \<le> k then 16 else 2) i k (bubble_pass k xs) s'"
  using assms(4,3)
proof (induction k rule: nat_induct_non_zero)
  case 1
  then show ?case using bubble_inner_step [OF assms(1)] assms(2) by (simp add: bubble_pass_def)
next
  case (Suc k)
  then obtain t where t: "gets_to org bubble_asm s t" "bubble_at 2 i k (bubble_pass k xs) t" by auto
  show ?case using bubble_inner_step [OF t(2)] gets_to_trans [OF t(1)] Suc.prems by (fastforce simp: bubble_pass_def)
qed

lemma bubble_outer_step:
  assumes "bubble_at 2 i 0 xs s" "i < 9"
  shows "\<exists>j s'. gets_to org bubble_asm s s' \<and> bubble_at (if i = 8 then 20 else 2) (i + 1) j (bubble_pass (9 - i) xs) s' \<and>
    (i < 8 \<longrightarrow> j = 0)"
proof -
  let ?xs = "bubble_pass (9 - i) xs"
  obtain t where t: "gets_to org bubble_asm s t" "bubble_at 16 i (9 - i) ?xs t"
    using bubble_inner [OF assms order.refl] assms(2) by auto
  have s: "sint (1 + of_nat i :: u32) = int (i + 1)" using sint_count [of "i + 1"] assms(2) by simp
  have nine: "alu_op CMP W32 (ucast a) 9 = (ucast (a - 9), cmp_flags a 9)" for a :: u32
    using cmp32 [of a 9] by (simp only: unsigned_numeral) simp
  have "alu_op CMP W32 9 9 = (ucast (0 :: u32), cmp_flags 9 9)" using nine [of 9] by simp
  note nine = nine this
  have "\<exists>s'. x86_run org bubble_asm (if i = 8 then 3 else 5) t = Inr s' \<and>
    bubble_at (if i = 8 then 20 else 2) (i + 1) (if i = 8 then 1 else 0) ?xs s'"
    using t(2) assms(2)
    by (auto simp: bubble_at_def x86_steps ring32 bubble_code bubble_labels nine cmp_jumps s add.commute [of "of_nat i :: u32" 1]
        simp del: alu_op.simps(3) holds_cond.simps)
  then show ?thesis using gets_to_trans [OF t(1)] by (fastforce dest: gets_to_run)
qed

lemma bubble_outer:
  assumes "x_pc s = 0" "dwords_at (x_mem s) 0x600000 xs" "length xs = 10" "k < 9"
  shows "\<exists>s'. gets_to org bubble_asm s s' \<and> bubble_at 2 k 0 (foldl (\<lambda>xs i. bubble_pass (9 - i) xs) xs [0..<k]) s'"
  using assms(4)
proof (induction k)
  case 0
  have "\<exists>s'. x86_run org bubble_asm 2 s = Inr s' \<and> bubble_at 2 0 0 xs s'"
    using assms by (simp add: bubble_at_def x86_steps bubble_code)
  then show ?case by (auto intro: gets_to_run)
next
  case (Suc k)
  then obtain t where t: "gets_to org bubble_asm s t" "bubble_at 2 k 0 (foldl (\<lambda>xs i. bubble_pass (9 - i) xs) xs [0..<k]) t"
    by auto
  show ?case using bubble_outer_step [OF t(2)] gets_to_trans [OF t(1)] Suc.prems by fastforce
qed

lemma bubble_finishes:
  assumes "x_pc s = 0" "dwords_at (x_mem s) 0x600000 xs" "length xs = 10"
  shows "\<exists>s'. finishes org bubble_asm s s' \<and> dwords_at (x_mem s') 0x600000 (bubble_sort xs)"
proof -
  let ?f = "\<lambda>xs i. bubble_pass (9 - i) xs"
  obtain t where t: "gets_to org bubble_asm s t" "bubble_at 2 8 0 (foldl ?f xs [0..<8]) t"
    using bubble_outer [OF assms, of 8] by auto
  obtain j u where u: "gets_to org bubble_asm t u" "bubble_at 20 9 j (bubble_pass 1 (foldl ?f xs [0..<8])) u"
    using bubble_outer_step [OF t(2), of org] by auto
  have "[0..<9] = [0..<8] @ [8]" by (simp add: upt_rec)
  then have "bubble_pass 1 (foldl ?f xs [0..<8]) = bubble_sort xs" using assms(3) by (simp add: bubble_sort_def)
  moreover have "finishes org bubble_asm s u"
    using gets_to_trans [OF t(1) u(1)] u(2) by (simp add: finishes_def bubble_at_def bubble_code)
  ultimately show ?thesis using u(2) by (auto simp: bubble_at_def)
qed

end
