(* ===== verification/Ctf_Recur.thy ===== *)
theory Ctf_Recur
  imports Ctf_Programs
begin

text \<open>
  \<open>recur\<close>: the recursive function, by its calling convention. A call takes its argument above the return
  address, uses at most \<open>24 n + 8\<close> bytes below it, and leaves the stack from there up as it was.
\<close>

fun r_fun :: "nat \<Rightarrow> nat" where
  "r_fun 0 = 0"
| "r_fun (Suc 0) = 1"
| "r_fun (Suc (Suc n)) = 2 * r_fun (Suc n) + 3 * r_fun n"

text \<open>The closed form of the recurrence.\<close>

lemma r_fun_closed: "4 * int (r_fun n) = 3 ^ n - (- 1) ^ n"
  by (induction n rule: r_fun.induct) simp_all

lemma r_fun_25: "r_fun 25 = 211822152361"
  using r_fun_closed [of 25] by simp

subsection \<open>The stack\<close>

definition stack_below :: "memory \<Rightarrow> u64 \<Rightarrow> nat \<Rightarrow> bool" where
  "stack_below m a n \<longleftrightarrow> list_all (\<lambda>k. m (a - of_nat k) \<noteq> None) [1..<Suc n]"

text \<open>Memory from \<open>a\<close> up is kept, and what is mapped stays mapped.\<close>

definition keeps_above :: "u64 \<Rightarrow> memory \<Rightarrow> memory \<Rightarrow> bool" where
  "keeps_above a m m' \<longleftrightarrow> (\<forall>x. a \<le> x \<longrightarrow> m' x = m x) \<and> (\<forall>x. m' x = None \<longleftrightarrow> m x = None)"

lemma stack_slot: "stack_below m a n \<Longrightarrow> 8 \<le> k \<Longrightarrow> k \<le> n \<Longrightarrow> load_mem m (a - of_nat k) 8 \<noteq> None"
proof
  assume st: "stack_below m a n" and k: "8 \<le> k" "k \<le> n" and "load_mem m (a - of_nat k) 8 = None"
  then obtain i where i: "i < 8" "m (a - of_nat k + of_nat i) = None" by (auto simp: load_None)
  have e: "a - of_nat k + of_nat i = a - of_nat (k - i)" using i k by (simp add: of_nat_diff)
  have "k - i \<in> set [1..<Suc n]" using i(1) k unfolding set_upt by (simp add: le_diff_conv2 less_Suc_eq_le)
  then have "m (a - of_nat (k - i)) \<noteq> None" using st by (auto simp: stack_below_def list_all_iff)
  then show False using i(2) unfolding e by simp
qed

lemma stack_shift: "stack_below m a (n + k) \<Longrightarrow> stack_below m (a - of_nat k) n"
proof -
  assume st: "stack_below m a (n + k)"
  have "m (a - of_nat k - of_nat j) \<noteq> None" if "j \<in> set [1..<Suc n]" for j
  proof -
    have "a - of_nat k - of_nat j = a - of_nat (j + k)" by simp
    moreover have "j + k \<in> set [1..<Suc (n + k)]" using that by (simp del: upt_Suc)
    ultimately show ?thesis using st by (fastforce simp only: stack_below_def list_all_iff)
  qed
  then show ?thesis by (simp only: stack_below_def list_all_iff) blast
qed

lemma stack_kept: "keeps_above b m m' \<Longrightarrow> stack_below m' a n = stack_below m a n"
  by (simp add: stack_below_def keeps_above_def)

lemma keeps_trans: "keeps_above a m m' \<Longrightarrow> keeps_above a m' m'' \<Longrightarrow> keeps_above a m m''"
  by (simp add: keeps_above_def)

lemma keeps_mono: "keeps_above b m m' \<Longrightarrow> b \<le> a \<Longrightarrow> keeps_above a m m'"
  by (auto simp: keeps_above_def)

lemma keeps_load: "keeps_above a m m' \<Longrightarrow> a \<le> b \<Longrightarrow> unat b + 8 \<le> 2 ^ 64 \<Longrightarrow> load_mem m' b 8 = load_mem m b 8"
proof (rule load_cong)
  fix i :: nat
  assume k: "keeps_above a m m'" "a \<le> b" "unat b + 8 \<le> 2 ^ 64" "i < 8"
  then have "unat (b + of_nat i) = unat b + i" by (intro unat_plus_small) simp
  then have "a \<le> b + of_nat i" using k(2) by (simp add: word_le_nat_alt)
  then show "m' (b + of_nat i) = m (b + of_nat i)" using k(1) by (simp add: keeps_above_def)
qed

lemma store_keeps_above:
  assumes "store_mem m a 8 v = Some m'" "unat a + 8 \<le> unat b"
  shows "keeps_above b m m'"
proof -
  have "m' x = m x" if "b \<le> x" for x
  proof (rule store_keeps [OF assms(1)])
    have "a \<le> x" "unat a + 8 \<le> unat x" using that assms(2) by (simp_all add: word_le_nat_alt)
    then show "8 \<le> unat (x - a)" by (simp add: unat_sub word_le_nat_alt)
  qed
  then show ?thesis using store_mapped [OF assms(1)] by (simp add: keeps_above_def)
qed

text \<open>A push below \<open>a\<close>.\<close>

lemma push_slot:
  assumes "stack_below m a n" "8 \<le> k" "k \<le> n" "n \<le> unat a"
  obtains m' where "store_mem m (a - of_nat k) 8 v = Some m'" "load_mem m' (a - of_nat k) 8 = Some v"
    "keeps_above (a - of_nat (k - 8)) m m'"
proof -
  obtain m' where m': "store_mem m (a - of_nat k) 8 v = Some m'" using store_Some [OF stack_slot [OF assms(1-3)]] by blast
  have u: "unat (a - of_nat j) = unat a - j" if "j \<le> n" for j
  proof -
    have "unat (of_nat j :: u64) = j" using that assms(4) unsigned_less [of a, where 'a = nat] by (intro unat_small) simp
    then show ?thesis using that assms(4) by (simp add: unat_sub_if')
  qed
  have "keeps_above (a - of_nat (k - 8)) m m'"
    by (rule store_keeps_above [OF m']) (use u [of k] u [of "k - 8"] assms in simp)
  then show ?thesis using that [OF m' load_stored64 [OF m']] by blast
qed

subsection \<open>The listing\<close>

lemma recur_code:
  "xcode recur_asm =
    [PUSH (XN 25), CALL ''r'', ALU ADD W32 (XR RSP) (XN 8), JMP ''exit'',
     PUSH (XR RBP), MOV W64 (XR RBP) (XR RSP), MOV W64 (XR RBX) (At (A64 [(RBP, 1)] 16)), ALU CMP W64 (XR RBX) (XN 0), JCC JLE ''L1'',
     ALU CMP W64 (XR RBX) (XN 1), JCC JE ''L2'', DEC W64 (XR RBX), PUSH (XR RBX), CALL ''r'', ALU ADD W32 (XR RSP) (XN 8),
     MOV W64 (XR RCX) (XN 2), MUL W64 (XR RCX), MOV W64 (XR RDX) (XR RAX), PUSH (XR RDX), MOV W64 (XR RBX) (At (A64 [(RBP, 1)] 16)),
     ALU SUB W64 (XR RBX) (XN 2), PUSH (XR RBX), CALL ''r'', ALU ADD W32 (XR RSP) (XN 8),
     MOV W64 (XR RCX) (XN 3), MUL W64 (XR RCX), POP RDX, ALU ADD W64 (XR RAX) (XR RDX), POP RBP, RET,
     MOV W64 (XR RAX) (XN 0), POP RBP, RET, MOV W64 (XR RAX) (XN 1), POP RBP, RET]"
  by (simp add: recur_asm_def)

lemma recur_labels: "xlabel recur_asm ''r'' = 4" "xlabel recur_asm ''L1'' = 30" "xlabel recur_asm ''L2'' = 33"
  "xlabel recur_asm ''exit'' = 36"
  by code_simp+

text \<open>\<open>add esp, 8\<close> is exact while the stack is in the low 4 GB.\<close>

lemma esp_add: "unat a + 8 < 2 ^ 32 \<Longrightarrow> low W32 (low W32 a + 8) = a + 8"
proof -
  assume a: "unat a + 8 < 2 ^ 32"
  have cut: "take_bit 32 x = x" if "unat x < 2 ^ 32" for x :: u64
    using that by (simp add: word_unat_eq_iff unsigned_take_bit_eq take_bit_nat_eq_self)
  have "unat (a + 8) = unat a + 8" using a unat_plus_small [of a 8] by simp
  then show ?thesis using a cut [of a] cut [of "a + 8"] by (simp add: low_def)
qed

lemma low_take [simp]: "low w (low w a) = low w a"
  by (simp add: low_def)

text \<open>The comparisons with 0 and 1 on small arguments.\<close>

lemma cmp64_small:
  assumes "n < 1000"
  shows "holds_cond JLE (snd (alu_op CMP W64 (of_nat n) 0)) = Some (n = 0)" "holds_cond JE (snd (alu_op CMP W64 (of_nat n) 1)) = Some (n = 1)"
proof -
  have s: "sint (of_nat n :: u64) = int n" using assms by (simp add: sint_uint uint_nat unat_of_nat signed_take_bit_int_eq_self)
  have u: "unat (of_nat n :: u64) = n" using assms by (intro unat_small) simp
  have "(of_nat n :: u64) = 0 \<longleftrightarrow> n = 0" "(of_nat n :: u64) - 1 = 0 \<longleftrightarrow> n = 1"
    using u by (simp_all add: word_unat_eq_iff [of "of_nat n"] right_minus_eq del: word_of_nat_eq_0_iff)
  then show "holds_cond JLE (snd (alu_op CMP W64 (of_nat n) 0)) = Some (n = 0)"
    "holds_cond JE (snd (alu_op CMP W64 (of_nat n) 1)) = Some (n = 1)"
    by (simp_all add: Let_def result_flags_def low_word(4) sval_word(4) s)
qed

text \<open>The states at the entry of a call: the return place \<open>k\<close>, the stack \<open>a\<close>, the argument \<open>n\<close>.\<close>

definition call_at :: "u64 \<Rightarrow> nat \<Rightarrow> u64 \<Rightarrow> nat \<Rightarrow> xcpu \<Rightarrow> bool" where
  "call_at org k a n s \<longleftrightarrow>
     x_pc s = 4 \<and> x_reg s RSP = a \<and> load_mem (x_mem s) a 8 = Some (org + of_nat k) \<and> load_mem (x_mem s) (a + 8) 8 = Some (of_nat n) \<and>
     k < 100 \<and> n < 1000 \<and> unat a + 16 \<le> 2 ^ 32 \<and> 24 * n + 8 \<le> unat a \<and> stack_below (x_mem s) a (24 * n + 8)"

definition returned :: "nat \<Rightarrow> u64 \<Rightarrow> nat \<Rightarrow> xcpu \<Rightarrow> xcpu \<Rightarrow> bool" where
  "returned k a v s s' \<longleftrightarrow>
     x_pc s' = k \<and> x_reg s' RSP = a + 8 \<and> x_reg s' RAX = of_nat v \<and> x_reg s' RBP = x_reg s RBP \<and>
     keeps_above a (x_mem s) (x_mem s')"

lemma return_place: "k < 100 \<Longrightarrow> unat (org + of_nat k - org :: u64) = k"
  using unat_small [of k] by simp

lemma call_base:
  assumes "call_at org k a n s" "n < 2"
  shows "\<exists>s'. gets_to org recur_asm s s' \<and> returned k a n s s'"
proof -
  have c: "x_pc s = 4" "x_reg s RSP = a" "load_mem (x_mem s) a 8 = Some (org + of_nat k)" "load_mem (x_mem s) (a + 8) 8 = Some (of_nat n)"
    "k < 100" "n < 1000" "unat a + 16 \<le> 2 ^ 32" "8 \<le> unat a" "stack_below (x_mem s) a (24 * n + 8)"
    using assms(1) by (simp_all add: call_at_def)
  obtain m where m: "store_mem (x_mem s) (a - 8) 8 (x_reg s RBP) = Some m" "load_mem m (a - 8) 8 = Some (x_reg s RBP)" "keeps_above a (x_mem s) m"
    using push_slot [OF c(9), of 8 "x_reg s RBP"] assms(1) by (auto simp: call_at_def)
  have u: "unat (a + 8) = unat a + 8" using c(7) unat_plus_small [of a 8] by simp
  have l: "load_mem m a 8 = Some (org + of_nat k)" "load_mem m (8 + a) 8 = Some (of_nat n)"
    using keeps_load [OF m(3), of a] keeps_load [OF m(3), of "a + 8"] c(3,4,7) u by (simp_all add: word_le_nat_alt add.commute)
  have "\<exists>s'. x86_run org recur_asm (if n = 0 then 8 else 10) s = Inr s' \<and> returned k a n s s'"
    using assms(2) c(1,2,5) m l cmp64_small [OF c(6)] return_place [OF c(5)]
    by (auto simp: less_2_cases_iff returned_def x86_core low_word(4) recur_code recur_labels xpush_def xpop_def case_prod_beta
        simp del: alu_op.simps holds_cond.simps)
  then show ?thesis by (blast intro: gets_to_run)
qed

text \<open>A state between the calls of the body: the saved base register, and what the caller left.\<close>

definition in_call :: "u64 \<Rightarrow> xcpu \<Rightarrow> xcpu \<Rightarrow> bool" where
  "in_call a s t \<longleftrightarrow>
     x_reg t RBP = a - 8 \<and> load_mem (x_mem t) (a - 8) 8 = Some (x_reg s RBP) \<and> keeps_above a (x_mem s) (x_mem t)"

lemma stack_less: "stack_below m a n \<Longrightarrow> k \<le> n \<Longrightarrow> stack_below m a k"
  by (auto simp: stack_below_def list_all_iff)

lemma below_le: "k \<le> j \<Longrightarrow> unat j \<le> unat a \<Longrightarrow> a - j \<le> a - k"
  by (simp add: word_le_nat_alt unat_sub)

lemma mul_low64: "(of_nat (unat a * unat b mod 18446744073709551616) :: u64) = a * b"
  by (simp add: word_unat_eq_iff unat_of_nat unat_word_ariths)

lemma call_stack:
  assumes "call_at org k a (Suc (Suc n)) s"
  shows "56 \<le> unat a" "unat a + 16 \<le> 2 ^ 32" "unat (a - 8) = unat a - 8" "unat (a - 16) = unat a - 16"
    "unat (a - 24) = unat a - 24" "unat (a - 32) = unat a - 32" "unat (a + 8) = unat a + 8"
  using assms unat_plus_small [of a 8] by (simp_all add: call_at_def unat_sub_if' word_le_nat_alt)

lemma call_loads:
  assumes "call_at org k a (Suc (Suc n)) s" "keeps_above a (x_mem s) m"
  shows "load_mem m a 8 = Some (org + of_nat k)" "load_mem m (8 + a) 8 = Some (of_nat (Suc (Suc n)))" "stack_below m a (24 * n + 56)"
proof -
  have "a \<le> a + 8" using call_stack [OF assms(1)] by (simp add: word_le_nat_alt)
  then show "load_mem m a 8 = Some (org + of_nat k)" "load_mem m (8 + a) 8 = Some (of_nat (Suc (Suc n)))"
    using assms(1) keeps_load [OF assms(2), of a] keeps_load [OF assms(2), of "a + 8"] call_stack [OF assms(1)]
    by (simp_all add: call_at_def add.commute)
  show "stack_below m a (24 * n + 56)" using assms(1) by (simp add: call_at_def stack_kept [OF assms(2)] add.commute)
qed

text \<open>Up to the first call.\<close>

lemma call_first:
  assumes "call_at org k a (Suc (Suc n)) s"
  shows "\<exists>t. gets_to org recur_asm s t \<and> call_at org 14 (a - 24) (Suc n) t \<and> in_call a s t"
proof -
  have c: "x_pc s = 4" "x_reg s RSP = a" "n < 998" "24 * n + 56 \<le> unat a" using assms by (simp_all add: call_at_def)
  note st = call_stack [OF assms]
  have "keeps_above a (x_mem s) (x_mem s)" by (simp add: keeps_above_def)
  then have b0: "stack_below (x_mem s) a (24 * n + 56)" by (rule call_loads [OF assms])
  obtain m1 where m1: "store_mem (x_mem s) (a - 8) 8 (x_reg s RBP) = Some m1" "load_mem m1 (a - 8) 8 = Some (x_reg s RBP)" "keeps_above a (x_mem s) m1"
    using push_slot [OF b0, of 8 "x_reg s RBP"] c(4) by auto
  note l1 = call_loads [OF assms m1(3)]
  obtain m2 where m2: "store_mem m1 (a - 16) 8 (of_nat (Suc n)) = Some m2" "load_mem m2 (a - 16) 8 = Some (of_nat (Suc n))" "keeps_above (a - 8) m1 m2"
    using push_slot [OF l1(3), of 16 "of_nat (Suc n)"] c(4) by auto
  have b2: "stack_below m2 a (24 * n + 56)" using l1(3) stack_kept [OF m2(3)] by simp
  obtain m3 where m3: "store_mem m2 (a - 24) 8 (org + 14) = Some m3" "load_mem m3 (a - 24) 8 = Some (org + 14)" "keeps_above (a - 16) m2 m3"
    using push_slot [OF b2, of 24 "org + 14"] c(4) by auto
  have le: "a - 16 \<le> a - 8" "a - 8 \<le> a" "a - 16 \<le> a" using st by (simp_all add: word_le_nat_alt)
  have k: "keeps_above a (x_mem s) m3"
    using keeps_trans [OF m1(3) keeps_trans [OF keeps_mono [OF m2(3) le(2)] keeps_mono [OF m3(3) le(3)]]] .
  have l3: "load_mem m3 (a - 16) 8 = Some (of_nat (Suc n))" "load_mem m3 (a - 8) 8 = Some (x_reg s RBP)"
    using keeps_load [OF m3(3) order.refl] keeps_load [OF m3(3) le(1)] keeps_load [OF m2(3) order.refl] m2(2) m1(2) st by simp_all
  have b3: "stack_below m3 (a - 24) (24 * Suc n + 8)"
    using stack_shift [of m3 a "24 * Suc n + 8" 24] b2 stack_kept [OF m3(3)] by (simp add: add.commute)
  have bd: "unat a - 8 \<le> 4294967296" "32 + 24 * n \<le> unat a - 24" using c(4) st(2) by simp_all
  have "\<exists>t. x86_run org recur_asm 10 s = Inr t \<and> call_at org 14 (a - 24) (Suc n) t \<and> in_call a s t"
    using c m1(1) m2(1) m3 l1(2) l3 k b3 st bd cmp64_small [of "Suc (Suc n)"]
    by (simp add: call_at_def in_call_def x86_core low_word(4) recur_code recur_labels xpush_def xpop_def case_prod_beta
        del: alu_op.simps holds_cond.simps)
  then show ?thesis by (blast intro: gets_to_run)
qed

text \<open>What a call made in the body keeps, and the stack pointer after \<open>add esp, 8\<close>.\<close>

lemma call_kept:
  assumes "in_call a s t" "returned k b v t t'" "b \<le> a - 8" "b \<le> a" "unat (a - 8) + 8 \<le> 2 ^ 64"
  shows "in_call a s t'"
proof -
  have k: "keeps_above b (x_mem t) (x_mem t')" using assms(2) by (simp add: returned_def)
  show ?thesis using assms keeps_trans [OF _ keeps_mono [OF k assms(4)]] keeps_load [OF k assms(3,5)]
    by (auto simp: in_call_def returned_def)
qed

lemma esp_sub:
  assumes "unat b + 8 < 2 ^ 32"
  shows "low W32 (low W32 b + low W32 8) = b + 8" "low W32 (b + 8) = b + 8"
proof -
  have "low W32 8 = 8" by (simp add: low_def)
  then show "low W32 (low W32 b + low W32 8) = b + 8" using esp_add [OF assms] by simp
  then show "low W32 (b + 8) = b + 8" by (metis low_take)
qed

lemma call_second:
  assumes "call_at org k a (Suc (Suc n)) s" "in_call a s t" "returned 14 (a - 24) v t t'"
  shows "\<exists>u. gets_to org recur_asm t' u \<and> call_at org 23 (a - 32) n u \<and> in_call a s u \<and>
    load_mem (x_mem u) (a - 16) 8 = Some (of_nat (2 * v))"
proof -
  have n: "n < 998" "24 * n + 56 \<le> unat a" using assms(1) by (simp_all add: call_at_def)
  note st = call_stack [OF assms(1)]
  have ic: "in_call a s t'" using call_kept [OF assms(2,3)] st by (simp add: word_le_nat_alt)
  then have k0: "keeps_above a (x_mem s) (x_mem t')" by (simp add: in_call_def)
  have r: "x_pc t' = 14" "x_reg t' RSP = a - 16" "x_reg t' RAX = of_nat v" "x_reg t' RBP = a - 8" "load_mem (x_mem t') (a - 8) 8 = Some (x_reg s RBP)"
    using assms(3) ic by (simp_all add: returned_def in_call_def)
  note l0 = call_loads [OF assms(1) k0]
  obtain m1 where m1: "store_mem (x_mem t') (a - 16) 8 (of_nat v * 2) = Some m1" "load_mem m1 (a - 16) 8 = Some (of_nat v * 2)" "keeps_above (a - 8) (x_mem t') m1"
    using push_slot [OF l0(3), of 16 "of_nat v * 2"] n(2) by auto
  have b1: "stack_below m1 a (24 * n + 56)" using l0(3) stack_kept [OF m1(3)] by simp
  obtain m2 where m2: "store_mem m1 (a - 24) 8 (of_nat n) = Some m2" "load_mem m2 (a - 24) 8 = Some (of_nat n)" "keeps_above (a - 16) m1 m2"
    using push_slot [OF b1, of 24 "of_nat n"] n(2) by auto
  have b2: "stack_below m2 a (24 * n + 56)" using b1 stack_kept [OF m2(3)] by simp
  obtain m3 where m3: "store_mem m2 (a - 32) 8 (org + 23) = Some m3" "load_mem m3 (a - 32) 8 = Some (org + 23)" "keeps_above (a - 24) m2 m3"
    using push_slot [OF b2, of 32 "org + 23"] n(2) by auto
  have le: "a - 24 \<le> a - 16" "a - 24 \<le> a - 8" "a - 16 \<le> a - 8" "a - 8 \<le> a" "a - 16 \<le> a" "a - 24 \<le> a"
    using st by (simp_all add: word_le_nat_alt)
  have k1: "keeps_above a (x_mem s) m1" using keeps_trans [OF k0 keeps_mono [OF m1(3) le(4)]] .
  have k: "keeps_above a (x_mem s) m3"
    using keeps_trans [OF k1 keeps_trans [OF keeps_mono [OF m2(3) le(5)] keeps_mono [OF m3(3) le(6)]]] .
  have l3: "load_mem m3 (a - 24) 8 = Some (of_nat n)" "load_mem m3 (a - 16) 8 = Some (of_nat v * 2)" "load_mem m3 (a - 8) 8 = Some (x_reg s RBP)"
    using keeps_load [OF m3(3) order.refl] keeps_load [OF m3(3) le(1)] keeps_load [OF m3(3) le(2)] keeps_load [OF m2(3) order.refl]
      keeps_load [OF m2(3) le(3)] keeps_load [OF m1(3) order.refl] m2(2) m1(2) r(5) st by simp_all
  have b3: "stack_below m3 (a - 32) (24 * n + 8)"
    using stack_shift [of m3 a "24 * n + 8" 32] stack_less [OF b2, of "24 * n + 8 + 32"] stack_kept [OF m3(3)] by simp
  have bd: "unat a - 16 \<le> 4294967296" "8 + 24 * n \<le> unat a - 32" using n(2) st(2) by simp_all
  have e: "low W32 (low W32 (a - 16) + low W32 8) = a - 8" "low W32 (a - 8) = a - 8" using esp_sub [of "a - 16"] st by simp_all
  have l1: "load_mem m1 (8 + a) 8 = Some (of_nat (Suc (Suc n)))" by (rule call_loads [OF assms(1) k1])
  have "\<exists>u. x86_run org recur_asm 9 t' = Inr u \<and> call_at org 23 (a - 32) n u \<and> in_call a s u \<and>
    load_mem (x_mem u) (a - 16) 8 = Some (of_nat (2 * v))"
    using n r m1(1) m2(1) m3 l1 l3 k b3 st bd e
    by (simp add: call_at_def in_call_def x86_core low_word(4) recur_code recur_labels xpush_def xpop_def mul_op_def mul_low64 add.commute)
  then show ?thesis by (blast intro: gets_to_run)
qed

lemma call_last:
  assumes "call_at org k a (Suc (Suc n)) s" "in_call a s t" "load_mem (x_mem t) (a - 16) 8 = Some (of_nat (2 * v))"
    "returned 23 (a - 32) w t t'"
  shows "\<exists>u. gets_to org recur_asm t' u \<and> returned k a (2 * v + 3 * w) s u"
proof -
  note st = call_stack [OF assms(1)]
  have k: "k < 100" using assms(1) by (simp add: call_at_def)
  have le: "a - 32 \<le> a - 16" "a - 32 \<le> a - 8" "a - 32 \<le> a" using st by (simp_all add: word_le_nat_alt)
  have ic: "in_call a s t'" using call_kept [OF assms(2,4) le(2,3)] st by simp
  have k0: "keeps_above a (x_mem s) (x_mem t')" using ic by (simp add: in_call_def)
  have kt: "keeps_above (a - 32) (x_mem t) (x_mem t')" using assms(4) by (simp add: returned_def)
  have l: "load_mem (x_mem t') (a - 16) 8 = Some (of_nat (2 * v))" using keeps_load [OF kt le(1)] assms(3) st by simp
  have r: "x_pc t' = 23" "x_reg t' RSP = a - 24" "x_reg t' RAX = of_nat w" "load_mem (x_mem t') (a - 8) 8 = Some (x_reg s RBP)"
    using assms(4) ic by (simp_all add: returned_def in_call_def)
  have e: "low W32 (low W32 (a - 24) + low W32 8) = a - 16" "low W32 (a - 16) = a - 16" using esp_sub [of "a - 24"] st by simp_all
  have "\<exists>u. x86_run org recur_asm 7 t' = Inr u \<and> returned k a (2 * v + 3 * w) s u"
    using r l k0 e call_loads(1) [OF assms(1) k0] return_place [OF k]
    by (simp add: returned_def x86_core low_word(4) recur_code recur_labels xpush_def xpop_def mul_op_def mul_low64
        mult.commute [of _ "2 :: u64"] mult.commute [of _ "3 :: u64"] add.commute [of _ "2 * of_nat v"])
  then show ?thesis by (blast intro: gets_to_run)
qed

lemma recur_call: "call_at org k a n s \<Longrightarrow> \<exists>s'. gets_to org recur_asm s s' \<and> returned k a (r_fun n) s s'"
proof (induction n arbitrary: k a s rule: r_fun.induct)
  case (3 n)
  obtain t where t: "gets_to org recur_asm s t" "call_at org 14 (a - 24) (Suc n) t" "in_call a s t"
    using call_first [OF "3.prems"] by blast
  obtain t' where t': "gets_to org recur_asm t t'" "returned 14 (a - 24) (r_fun (Suc n)) t t'"
    using "3.IH"(1) [OF t(2)] by blast
  obtain u where u: "gets_to org recur_asm t' u" "call_at org 23 (a - 32) n u" "in_call a s u"
    "load_mem (x_mem u) (a - 16) 8 = Some (of_nat (2 * r_fun (Suc n)))"
    using call_second [OF "3.prems" t(3) t'(2)] by blast
  obtain u' where u': "gets_to org recur_asm u u'" "returned 23 (a - 32) (r_fun n) u u'" using "3.IH"(2) [OF u(2)] by blast
  obtain s' where s': "gets_to org recur_asm u' s'" "returned k a (r_fun (Suc (Suc n))) s s'"
    using call_last [OF "3.prems" u(3,4) u'(2)] by auto
  have "gets_to org recur_asm s s'" using t(1) t'(1) u(1) u'(1) s'(1) by (meson gets_to_trans)
  then show ?case using s'(2) by blast
qed (use call_base in force)+

text \<open>The exercise: \<open>r(25)\<close>, with 624 bytes of stack in the low 4 GB.\<close>

lemma recur_finishes:
  assumes "x_pc s = 0" "unat (x_reg s RSP) < 2 ^ 32" "624 \<le> unat (x_reg s RSP)" "stack_below (x_mem s) (x_reg s RSP) 624"
  shows "\<exists>s'. finishes org recur_asm s s' \<and> x_reg s' RAX = of_nat (r_fun 25) \<and> x_reg s' RSP = x_reg s RSP \<and>
    x_reg s' RBP = x_reg s RBP \<and> keeps_above (x_reg s RSP) (x_mem s) (x_mem s')"
proof -
  let ?a = "x_reg s RSP"
  have u: "unat (?a - 8) = unat ?a - 8" "unat (?a - 16) = unat ?a - 16" using assms(3) by (simp_all add: unat_sub_if')
  obtain m1 where m1: "store_mem (x_mem s) (?a - 8) 8 25 = Some m1" "load_mem m1 (?a - 8) 8 = Some 25" "keeps_above ?a (x_mem s) m1"
    using push_slot [OF assms(4), of 8 25] assms(3) by auto
  have b1: "stack_below m1 ?a 624" using assms(4) stack_kept [OF m1(3)] by simp
  obtain m2 where m2: "store_mem m1 (?a - 16) 8 (org + 2) = Some m2" "load_mem m2 (?a - 16) 8 = Some (org + 2)" "keeps_above (?a - 8) m1 m2"
    using push_slot [OF b1, of 16 "org + 2"] assms(3) by auto
  have b2: "stack_below m2 (?a - 16) 608" using stack_shift [of m2 ?a 608 16] b1 stack_kept [OF m2(3)] by simp
  have le: "?a - 8 \<le> ?a" "?a - 16 \<le> ?a" using u by (simp_all add: word_le_nat_alt)
  have k2: "keeps_above ?a (x_mem s) m2" using keeps_trans [OF m1(3) keeps_mono [OF m2(3) le(1)]] .
  have l2: "load_mem m2 (?a - 8) 8 = Some 25" using keeps_load [OF m2(3) order.refl] m1(2) u assms(2) by simp
  have "\<exists>t. x86_run org recur_asm 2 s = Inr t \<and> call_at org 2 (?a - 16) 25 t \<and> x_reg t RBP = x_reg s RBP \<and> x_mem t = m2"
    using assms m1(1) m2(1,2) l2 b2 u by (simp add: call_at_def x86_core low_word(4) recur_code recur_labels xpush_def)
  then obtain t where t: "gets_to org recur_asm s t" "call_at org 2 (?a - 16) 25 t" "x_reg t RBP = x_reg s RBP" "x_mem t = m2"
    by (blast intro: gets_to_run)
  obtain t' where t': "gets_to org recur_asm t t'" "returned 2 (?a - 16) (r_fun 25) t t'" using recur_call [OF t(2)] by blast
  have e: "low W32 (low W32 (?a - 8) + low W32 8) = ?a" "low W32 ?a = ?a" using esp_sub [of "?a - 8"] u assms(2,3) by simp_all
  have "keeps_above ?a (x_mem s) (x_mem t')"
    using keeps_trans [OF k2 keeps_mono [OF _ le(2)]] t'(2) t(4) by (simp add: returned_def)
  then have "\<exists>s'. x86_run org recur_asm 2 t' = Inr s' \<and> x_pc s' = length (xcode recur_asm) \<and> x_reg s' RAX = of_nat (r_fun 25) \<and>
    x_reg s' RSP = ?a \<and> x_reg s' RBP = x_reg s RBP \<and> keeps_above ?a (x_mem s) (x_mem s')"
    using t'(2) t(3) e by (simp add: returned_def x86_core recur_code recur_labels)
  then show ?thesis using finishes_ex finishes_trans [OF gets_to_trans [OF t(1) t'(1)]] by (blast intro: finishes_run)
qed

end
