(* ===== verification/Ctf_Loops.thy ===== *)
theory Ctf_Loops
  imports Ctf_Straight
begin

text \<open>
  The two exercises that loop over the bytes at \<open>0x600000\<close> with \<open>loop\<close>: \<open>dispbin\<close> and \<open>loop15\<close>. Each has two
  branches that end in a \<open>loop\<close> of their own, and the first branch, when it is the last to run, goes on into
  the second with the counter at 0: the runs that end do so in the second branch, the others go on until a fault.
\<close>

subsection \<open>Arrays of bytes\<close>

definition bytes_at :: "memory \<Rightarrow> u64 \<Rightarrow> u8 list \<Rightarrow> bool" where
  "bytes_at m a bs \<longleftrightarrow> list_all (\<lambda>i. m (a + of_nat i) = Some (bs ! i)) [0..<length bs]"

lemma bytes_nth: "bytes_at m a bs \<Longrightarrow> i < length bs \<Longrightarrow> m (a + of_nat i) = Some (bs ! i)"
  by (simp add: bytes_at_def list_all_iff)

lemma load_byte: "load_mem m a (Suc 0) = map_option ucast (m a)"
  by (cases "m a") (auto simp: load_mem_def unsigned_def of_nat_unat)

lemma store_byte: "store_mem m a (Suc 0) v = (if m a = None then None else Some (m(a \<mapsto> ucast v)))"
proof -
  have "byte_of v 0 = ucast v" by (simp add: byte_of_def)
  moreover have "unat (x - a) = 0 \<longleftrightarrow> x = a" for x by (simp add: unat_eq_0)
  ultimately show ?thesis by (auto simp: store_mem_def fun_eq_iff)
qed

lemma bytes_store:
  assumes "bytes_at m a bs" "i < length bs" "length bs \<le> 2 ^ 64"
  shows "bytes_at (m(a + of_nat i \<mapsto> v)) a (bs[i := v])"
proof -
  have "(of_nat j :: u64) = of_nat i \<longleftrightarrow> j = i" if "j < length bs" for j
    using that assms(2,3) by (metis le_trans less_le_trans unat_small)
  then show ?thesis using assms(1) by (auto simp: bytes_at_def list_all_iff nth_list_update)
qed

text \<open>The low 16 bits of a register.\<close>

abbreviation reg16 :: "xcpu \<Rightarrow> reg \<Rightarrow> u16" where
  "reg16 s r \<equiv> ucast (x_reg s r)"

lemma set_low16: "(ucast (set_low W16 old v) :: u16) = ucast v"
  by (rule bit_word_eqI) (auto simp: low_def bit_simps)

lemmas ring16 = ucast_ring [where 'a = 16, simplified] ucast_up_down [where 'a = 16, simplified]
  ucast_more [where 'a = 16, simplified] ucast_cut [where 'a = 16 and n = 16, simplified]

lemma run_fails: "gets_to org t s s' \<Longrightarrow> x86_run org t n s' = Inl e \<Longrightarrow> \<exists>n. x86_run org t n s = Inl e"
proof -
  assume "gets_to org t s s'" "x86_run org t n s' = Inl e"
  then obtain k where "x86_run org t (k + n) s = Inl e" by (metis bnd.simps(2) gets_to_def x86_run_add)
  then show ?thesis ..
qed

text \<open>No instruction maps or unmaps memory.\<close>

lemma put_arg_mapped: "put_arg w d v s = Inr s' \<Longrightarrow> x_mem s' x = None \<longleftrightarrow> x_mem s x = None"
  by (cases d) (auto simp: put_low_def store_mapped split: option.splits)

lemma exec_mapped:
  assumes "x86_exec org lab i s = Inr s'"
  shows "x_mem s' x = None \<longleftrightarrow> x_mem s x = None"
  using assms
  by (cases i)
    (auto simp: bnd_Inr_iff Let_def put_low_def mul_op_def imul_op_def div_op_def idiv_op_def xpush_def xpop_def store_mapped case_prod_beta
      dest!: put_arg_mapped [where x = x] split: option.splits if_splits)

lemma run_mapped: "gets_to org t s s' \<Longrightarrow> x_mem s' x = None \<longleftrightarrow> x_mem s x = None"
proof -
  have "x86_run org t n s = Inr s' \<Longrightarrow> x_mem s' x = None \<longleftrightarrow> x_mem s x = None" for n s
  proof (induction n arbitrary: s)
    case (Suc n)
    then obtain u where "x86_step org t s = Inr u" "x86_run org t n u = Inr s'" by (auto simp: bnd_Inr_iff)
    then show ?case using Suc.IH exec_mapped [of org "xlabel t" _ "s\<lparr>x_pc := x_pc s + 1\<rparr>" u x]
      by (auto simp: x86_step_def split: option.splits)
  qed simp
  then show "gets_to org t s s' \<Longrightarrow> ?thesis" by (auto simp: gets_to_def)
qed

subsection \<open>\<open>dispbin\<close>\<close>

lemma dispbin_code:
  "xcode dispbin_asm =
    [MOV W32 (XR RCX) (XN 16), MOV W16 (XR RDX) (XR RAX), SHL W16 (XR RAX) 1, JCC JC ''is1'', MOV W8 (XR RBX) (XN 0x30),
     MOV W32 (XR RDX) (XR RCX), NEG W32 (XR RDX), MOV W8 (At (A32 [(RDX, 1)] 0x600010)) (XR RBX), LOOP ''L1'',
     MOV W8 (XR RBX) (XN 0x31), MOV W32 (XR RDX) (XR RCX), NEG W32 (XR RDX), MOV W8 (At (A32 [(RDX, 1)] 0x600010)) (XR RBX), LOOP ''L1'']"
  by (simp add: dispbin_asm_def)

lemma dispbin_labels: "xlabel dispbin_asm ''L1'' = 2" "xlabel dispbin_asm ''is1'' = 9"
  by code_simp+

text \<open>The place \<open>p\<close> to write next, the rest \<open>a\<close> of the number, and the bytes so far.\<close>

definition disp_at :: "nat \<Rightarrow> nat \<Rightarrow> u16 \<Rightarrow> u8 list \<Rightarrow> xcpu \<Rightarrow> bool" where
  "disp_at pc p a bs s \<longleftrightarrow>
     x_pc s = pc \<and> x_reg s RCX = 16 - of_nat p \<and> reg16 s RAX = a \<and> bytes_at (x_mem s) 0x600000 bs \<and> length bs < 2 ^ 31"

lemma disp_ea:
  assumes "p < 2 ^ 31"
  shows "take_bit 32 (ucast (of_nat p - 16 :: u32) + 0x600010 :: u64) = 0x600000 + of_nat p"
proof -
  have "of_nat p - 16 + 0x600010 = (of_nat (p + 0x600000) :: u32)" by simp
  moreover have "(ucast (of_nat (p + 0x600000) :: u32) :: u64) = of_nat (p + 0x600000)"
    using assms by (simp only: word_unat_eq_iff) (simp add: unsigned_ucast_eq unat_of_nat take_bit_eq_mod del: of_nat_add)
  ultimately have "(ucast (of_nat p - 16 + 0x600010 :: u32) :: u64) = of_nat (p + 0x600000)" by (simp only:)
  moreover have "take_bit 32 x = ucast (ucast x :: u32)" for x :: u64 using low_word(1) [of x] by (simp add: low_def)
  ultimately show ?thesis by (simp add: ring32)
qed

lemma disp_shift:
  assumes "disp_at 2 p a bs s"
  shows "\<exists>s'. gets_to org dispbin_asm s s' \<and> disp_at (if bit a 15 then 9 else 4) p (push_bit 1 a) bs s'"
proof -
  have c: "bit (ucast a :: u64) 15 = bit a 15" by (simp add: bit_simps)
  have "\<exists>s'. x86_run org dispbin_asm 2 s = Inr s' \<and> disp_at (if bit a 15 then 9 else 4) p (push_bit 1 a) bs s'"
    using assms
    by (auto simp: disp_at_def x86_steps dispbin_code dispbin_labels shl_op_def ring16 c set_low16 simp del: set_low.simps)
  then show ?thesis by (blast intro: gets_to_run)
qed

text \<open>A branch writes its digit at place \<open>p\<close>; \<open>loop\<close> goes on unless 16 places are written.\<close>

lemma disp_count: "p < 2 ^ 31 \<Longrightarrow> (16 - of_nat p :: u64) = 1 \<longleftrightarrow> p = 15"
proof -
  assume p: "p < 2 ^ 31"
  have "(16 - of_nat p :: u64) = 1 \<longleftrightarrow> (of_nat p :: u64) = of_nat 15"
    by (auto simp: algebra_simps)
  moreover have "unat (of_nat p :: u64) = p" "unat (of_nat 15 :: u64) = 15" using p by (simp_all add: unat_small)
  ultimately show ?thesis by metis
qed

lemma disp_write:
  assumes "disp_at pc p a bs s" "pc = 4 \<and> c = 0x30 \<or> pc = 9 \<and> c = 0x31" "p < length bs"
  shows "\<exists>s'. gets_to org dispbin_asm s s' \<and> disp_at (if p = 15 then pc + 5 else 2) (p + 1) a (bs[p := c]) s'"
proof -
  have p: "p < 2 ^ 31" using assms(1,3) by (simp add: disp_at_def)
  have at: "x_mem s (0x600000 + of_nat p) \<noteq> None" "bytes_at ((x_mem s)(0x600000 + of_nat p \<mapsto> c)) 0x600000 (bs[p := c])"
    using assms bytes_nth [of "x_mem s" "0x600000" bs p] bytes_store [of "x_mem s" "0x600000" bs p c] by (auto simp: disp_at_def)
  have last: "take_bit 32 (ucast (- 1 :: u32) + 0x600010 :: u64) = 0x60000f" using disp_ea [of 15] by simp
  have "\<exists>s'. x86_run org dispbin_asm 5 s = Inr s' \<and> disp_at (if p = 15 then pc + 5 else 2) (p + 1) a (bs[p := c]) s'"
    using assms(1,2) at disp_count [OF p]
    by (auto simp: disp_at_def x86_steps dispbin_code dispbin_labels ring32 ring8 set_low8 disp_ea [OF p] last store_byte)
  then show ?thesis by (blast intro: gets_to_run)
qed

lemma disp_fault:
  assumes "disp_at pc (length bs) a bs s" "pc = 4 \<or> pc = 9" "x_mem s (0x600000 + of_nat (length bs)) = None"
  shows "x86_run org dispbin_asm 4 s = Inl Fault"
proof -
  have p: "length bs < 2 ^ 31" using assms(1) by (simp add: disp_at_def)
  show ?thesis using assms disp_ea [OF p]
    by (auto simp: disp_at_def x86_steps dispbin_code dispbin_labels ring32 ring8 set_low8 store_byte)
qed

text \<open>The sixteen digits of a number, highest first.\<close>

definition bin_digits :: "u16 \<Rightarrow> u8 list" where
  "bin_digits a = map (\<lambda>i. if bit a (15 - i) then 0x31 else 0x30) [0..<16]"

lemma disp_digit:
  assumes "disp_at 2 p (push_bit p a) (take p (bin_digits a) @ drop p bs) s" "p < 16" "16 \<le> length bs"
  shows "\<exists>s'. gets_to org dispbin_asm s s' \<and>
    disp_at (if p = 15 then if bit a 0 then 14 else 9 else 2) (p + 1) (push_bit (p + 1) a) (take (p + 1) (bin_digits a) @ drop (p + 1) bs) s'"
proof -
  let ?bs = "take p (bin_digits a) @ drop p bs" and ?pc = "if bit a (15 - p) then 9 else 4 :: nat"
  let ?c = "if bit a (15 - p) then 0x31 else 0x30 :: u8"
  have l: "length (bin_digits a) = 16" "bin_digits a ! p = ?c" using assms(2) by (simp_all add: bin_digits_def)
  have "bit (push_bit p a) 15 = bit a (15 - p)" using assms(2) by (simp add: bit_push_bit_iff)
  then obtain t where t: "gets_to org dispbin_asm s t" "disp_at ?pc p (push_bit (p + 1) a) ?bs t"
    using disp_shift [OF assms(1)] by auto
  have up: "?bs[p := ?c] = take (p + 1) (bin_digits a) @ drop (p + 1) bs"
    using assms(2,3) l by (simp add: list_update_append take_Suc_conv_app_nth Cons_nth_drop_Suc [symmetric, of p bs])
  have pc: "?pc = 4 \<and> ?c = 0x30 \<or> ?pc = 9 \<and> ?c = 0x31" by simp
  have len: "p < length ?bs" using assms(2,3) l by simp
  obtain u where u: "gets_to org dispbin_asm t u" "disp_at (if p = 15 then ?pc + 5 else 2) (p + 1) (push_bit (p + 1) a) (?bs[p := ?c]) u"
    using disp_write [OF t(2) pc len, of org] by blast
  moreover have "(if p = 15 then ?pc + 5 else 2) = (if p = 15 then if bit a 0 then 14 else 9 else 2)" by auto
  ultimately show ?thesis using gets_to_trans [OF t(1) u(1)] unfolding up by (auto simp only:)
qed

lemma disp_digits:
  assumes "x_pc s = 0" "bytes_at (x_mem s) 0x600000 bs" "16 \<le> length bs" "length bs < 2 ^ 31" "p < 16"
  shows "\<exists>s'. gets_to org dispbin_asm s s' \<and> disp_at 2 p (push_bit p (reg16 s RAX)) (take p (bin_digits (reg16 s RAX)) @ drop p bs) s'"
  using assms(5)
proof (induction p)
  case 0
  have "\<exists>s'. x86_run org dispbin_asm 2 s = Inr s' \<and> disp_at 2 0 (reg16 s RAX) bs s'"
    using assms by (simp add: disp_at_def x86_steps dispbin_code)
  then show ?case by (auto intro: gets_to_run)
next
  case (Suc p)
  then obtain t where t: "gets_to org dispbin_asm s t"
    "disp_at 2 p (push_bit p (reg16 s RAX)) (take p (bin_digits (reg16 s RAX)) @ drop p bs) t" by auto
  show ?case using disp_digit [OF t(2)] gets_to_trans [OF t(1)] Suc.prems assms(3) by fastforce
qed

lemma disp_sixteen:
  assumes "x_pc s = 0" "bytes_at (x_mem s) 0x600000 bs" "16 \<le> length bs" "length bs < 2 ^ 31"
  shows "\<exists>s'. gets_to org dispbin_asm s s' \<and>
    disp_at (if bit (x_reg s RAX) 0 then 14 else 9) 16 0 (bin_digits (reg16 s RAX) @ drop 16 bs) s'"
proof -
  obtain t where t: "gets_to org dispbin_asm s t"
    "disp_at 2 15 (push_bit 15 (reg16 s RAX)) (take 15 (bin_digits (reg16 s RAX)) @ drop 15 bs) t"
    using disp_digits [OF assms, of 15] by auto
  have z: "push_bit 16 (reg16 s RAX) = 0" by (rule bit_word_eqI) (simp add: bit_push_bit_iff)
  have "bit (reg16 s RAX) 0 = bit (x_reg s RAX) 0" "take 16 (bin_digits (reg16 s RAX)) = bin_digits (reg16 s RAX)"
    by (simp_all add: bit_ucast_iff bin_digits_def)
  then obtain u where "gets_to org dispbin_asm t u"
    "disp_at (if bit (x_reg s RAX) 0 then 14 else 9) 16 0 (bin_digits (reg16 s RAX) @ drop 16 bs) u"
    using disp_digit [OF t(2), of org] assms(3) z by auto
  then show ?thesis using gets_to_trans [OF t(1)] by blast
qed

lemma dispbin_finishes:
  assumes "x_pc s = 0" "bytes_at (x_mem s) 0x600000 bs" "16 \<le> length bs" "length bs < 2 ^ 31" "bit (x_reg s RAX) 0"
  shows "\<exists>s'. finishes org dispbin_asm s s' \<and> bytes_at (x_mem s') 0x600000 (bin_digits (reg16 s RAX) @ drop 16 bs)"
  using disp_sixteen [OF assms(1-4), of org] assms(5) by (auto simp: finishes_def disp_at_def dispbin_code)

text \<open>After an even number the run goes on past the sixteen digits, place by place.\<close>

lemma disp_on:
  assumes "disp_at 9 16 0 bs s" "16 < k" "k \<le> length bs"
  shows "\<exists>bs' s'. gets_to org dispbin_asm s s' \<and> disp_at 2 k 0 bs' s' \<and> length bs' = length bs"
proof -
  have "17 + j \<le> length bs \<Longrightarrow>
    \<exists>bs' s'. gets_to org dispbin_asm s s' \<and> disp_at 2 (17 + j) 0 bs' s' \<and> length bs' = length bs" for j
  proof (induction j)
    case 0
    then obtain s' where "gets_to org dispbin_asm s s'" "disp_at 2 17 0 (bs[16 := 0x31]) s'"
      using disp_write [OF assms(1), of "0x31" org] by auto
    then show ?case by force
  next
    case (Suc j)
    then obtain bs' t where t: "gets_to org dispbin_asm s t" "disp_at 2 (17 + j) 0 bs' t" "length bs' = length bs" by auto
    obtain u where u: "gets_to org dispbin_asm t u" "disp_at 4 (17 + j) 0 bs' u" using disp_shift [OF t(2), of org] by auto
    obtain v where "gets_to org dispbin_asm u v" "disp_at 2 (17 + Suc j) 0 (bs'[17 + j := 0x30]) v"
      using disp_write [OF u(2), of "0x30" org] Suc.prems t(3) by auto
    then show ?case using gets_to_trans [OF t(1) gets_to_trans [OF u(1)]] t(3) by (metis length_list_update)
  qed
  from this [of "k - 17"] show ?thesis using assms(2,3) by simp
qed

lemma dispbin_runs_off:
  assumes "x_pc s = 0" "bytes_at (x_mem s) 0x600000 bs" "16 \<le> length bs" "length bs < 2 ^ 31" "\<not> bit (x_reg s RAX) 0"
    "x_mem s (0x600000 + of_nat (length bs)) = None"
  shows "\<exists>n. x86_run org dispbin_asm n s = Inl Fault"
proof -
  let ?bs = "bin_digits (reg16 s RAX) @ drop 16 bs"
  have len: "length ?bs = length bs" using assms(3) by (simp add: bin_digits_def)
  obtain t where t: "gets_to org dispbin_asm s t" "disp_at 9 16 0 ?bs t" using disp_sixteen [OF assms(1-4), of org] assms(5) by auto
  obtain pc bs' u where u: "gets_to org dispbin_asm t u" "disp_at pc (length bs) 0 bs' u" "pc = 4 \<or> pc = 9" "length bs' = length bs"
  proof (cases "length bs = 16")
    case True
    then show ?thesis using that gets_to_refl t(2) len by metis
  next
    case False
    then obtain bs' v where v: "gets_to org dispbin_asm t v" "disp_at 2 (length bs) 0 bs' v" "length bs' = length bs"
      using disp_on [OF t(2), of "length bs" org] assms(3) len by auto
    obtain w where "gets_to org dispbin_asm v w" "disp_at 4 (length bs) 0 bs' w" using disp_shift [OF v(2), of org] by auto
    then show ?thesis using that gets_to_trans [OF v(1)] v(3) by blast
  qed
  have "gets_to org dispbin_asm s u" using gets_to_trans [OF t(1) u(1)] .
  moreover have "x_mem u (0x600000 + of_nat (length bs)) = None" using run_mapped [OF calculation] assms(6) by simp
  ultimately show ?thesis using run_fails [OF _ disp_fault [of pc bs' 0 u org]] u by simp
qed

subsection \<open>\<open>loop15\<close>\<close>

lemma loop15_code:
  "xcode loop15_asm =
    [MOV W32 (XR RCX) (XN 15), MOV W8 (XR RAX) (At (A32 [(RCX, 1)] 0x5fffff)), ALU CMP W8 (XR RAX) (XN 0x61), JCC JAE ''L2'',
     ALU ADD W8 (XR RAX) (XN 0x20), MOV W8 (At (A32 [(RCX, 1)] 0x60000f)) (XR RAX), LOOP ''L1'',
     MOV W8 (At (A32 [(RCX, 1)] 0x60000f)) (XR RAX), LOOP ''L1'']"
  by (simp add: loop15_asm_def)

lemma loop15_labels: "xlabel loop15_asm ''L1'' = 1" "xlabel loop15_asm ''L2'' = 7"
  by code_simp+

text \<open>What a letter becomes: anything below \<open>'a'\<close> counts as upper case.\<close>

definition lower15 :: "u8 \<Rightarrow> u8" where
  "lower15 c = (if c < 0x61 then c + 0x20 else c)"

text \<open>The places \<open>0..<j\<close> are still to do; \<open>c\<close> is the letter in \<open>al\<close>.\<close>

definition low_at :: "nat \<Rightarrow> nat \<Rightarrow> u8 list \<Rightarrow> xcpu \<Rightarrow> bool" where
  "low_at pc j bs s \<longleftrightarrow> x_pc s = pc \<and> x_reg s RCX = of_nat j \<and> bytes_at (x_mem s) 0x600000 bs \<and> 31 \<le> length bs \<and> length bs < 2 ^ 31"

lemma low_ea: "j < 15 \<Longrightarrow> take_bit 32 (0x600000 + of_nat j :: u64) = 0x600000 + of_nat j"
  "j < 15 \<Longrightarrow> take_bit 32 (0x600010 + of_nat j :: u64) = 0x600000 + of_nat (16 + j)"
proof -
  have c: "take_bit 32 (of_nat n :: u64) = of_nat n" if "n < 2 ^ 32" for n
    using that by (simp add: take_bit_of_nat take_bit_nat_eq_self)
  show "j < 15 \<Longrightarrow> take_bit 32 (0x600000 + of_nat j :: u64) = 0x600000 + of_nat j"
    "j < 15 \<Longrightarrow> take_bit 32 (0x600010 + of_nat j :: u64) = 0x600000 + of_nat (16 + j)"
    using c [of "0x600000 + j"] c [of "0x600010 + j"] by simp_all
qed

lemma low_letter:
  assumes "low_at 1 (Suc j) bs s" "j < 15"
  shows "\<exists>s'. gets_to org loop15_asm s s' \<and> reg8 s' RAX = lower15 (bs ! j) \<and>
    low_at (if j \<noteq> 0 then 1 else if bs ! j < 0x61 then 7 else 9) j (bs[16 + j := lower15 (bs ! j)]) s'"
proof -
  let ?c = "lower15 (bs ! j)"
  have at: "x_mem s (0x600000 + of_nat j) = Some (bs ! j)" "x_mem s (0x600010 + of_nat j) \<noteq> None"
    "bytes_at ((x_mem s)(0x600010 + of_nat j \<mapsto> ?c)) 0x600000 (bs[16 + j := ?c])"
    using assms bytes_nth [of "x_mem s" "0x600000" bs j] bytes_nth [of "x_mem s" "0x600000" bs "16 + j"]
      bytes_store [of "x_mem s" "0x600000" bs "16 + j" ?c] by (auto simp: low_at_def)
  have lt: "(ucast (bs ! j) :: u64) < 0x61 \<longleftrightarrow> bs ! j < 0x61"
    using unsigned_less [of "bs ! j", where 'a = nat] by (simp add: word_less_nat_alt unsigned_ucast_eq take_bit_nat_eq_self)
  have z: "(of_nat j :: u64) = 0 \<longleftrightarrow> j = 0" using unat_small [of j] assms(2)
    by (simp add: word_unat_eq_iff [of "of_nat j"] del: word_of_nat_eq_0_iff)
  have "\<exists>s'. x86_run org loop15_asm (if bs ! j < 0x61 then 6 else 5) s = Inr s' \<and> reg8 s' RAX = ?c \<and>
    low_at (if j \<noteq> 0 then 1 else if bs ! j < 0x61 then 7 else 9) j (bs[16 + j := ?c]) s'"
    using assms at lt z
    by (auto simp: low_at_def lower15_def x86_steps loop15_code loop15_labels ring8 set_low8 low_ea load_byte store_byte result_flags_def)
  then show ?thesis by (blast intro: gets_to_run)
qed

text \<open>The bytes once the places from \<open>j\<close> on are done.\<close>

definition lowered :: "nat \<Rightarrow> u8 list \<Rightarrow> u8 list" where
  "lowered j bs = map (\<lambda>i. if 16 + j \<le> i \<and> i < 31 then lower15 (bs ! (i - 16)) else bs ! i) [0..<length bs]"

lemma lowered_step:
  assumes "j < 15" "31 \<le> length bs"
  shows "(lowered (Suc j) bs)[16 + j := lower15 (lowered (Suc j) bs ! j)] = lowered j bs" "lowered (Suc j) bs ! j = bs ! j"
proof -
  show "lowered (Suc j) bs ! j = bs ! j" using assms by (simp add: lowered_def)
  then show "(lowered (Suc j) bs)[16 + j := lower15 (lowered (Suc j) bs ! j)] = lowered j bs"
    using assms by (intro nth_equalityI) (auto simp: lowered_def nth_list_update)
qed

lemma lowered_done: "31 \<le> length bs \<Longrightarrow> lowered 0 bs = take 16 bs @ map lower15 (take 15 bs) @ drop 31 bs"
  by (intro nth_equalityI) (auto simp: lowered_def nth_append)

lemma low_letters:
  assumes "x_pc s = 0" "bytes_at (x_mem s) 0x600000 bs" "31 \<le> length bs" "length bs < 2 ^ 31" "k < 15"
  shows "\<exists>s'. gets_to org loop15_asm s s' \<and> low_at 1 (15 - k) (lowered (15 - k) bs) s'"
  using assms(5)
proof (induction k)
  case 0
  have "lowered 15 bs = bs" by (intro nth_equalityI) (auto simp: lowered_def)
  then have "\<exists>s'. x86_run org loop15_asm (Suc 0) s = Inr s' \<and> low_at 1 15 (lowered 15 bs) s'"
    using assms by (simp add: low_at_def x86_steps loop15_code)
  then show ?case using gets_to_run by fastforce
next
  case (Suc k)
  obtain j where j: "15 - k = Suc j" "15 - Suc k = j" "0 < j" "j < 15" using Suc.prems by (intro that [of "14 - k"]) simp_all
  obtain t where t: "gets_to org loop15_asm s t" "low_at 1 (Suc j) (lowered (Suc j) bs) t" using Suc j(1) by auto
  show ?case using low_letter [OF t(2) j(4), of org] gets_to_trans [OF t(1)] lowered_step [OF j(4) assms(3)] j by auto
qed

text \<open>The first letter is the last to be done.\<close>

lemma low_first:
  assumes "x_pc s = 0" "bytes_at (x_mem s) 0x600000 bs" "31 \<le> length bs" "length bs < 2 ^ 31"
  shows "\<exists>s'. gets_to org loop15_asm s s' \<and> low_at (if bs ! 0 < 0x61 then 7 else 9) 0 (lowered 0 bs) s'"
proof -
  obtain t where t: "gets_to org loop15_asm s t" "low_at 1 (Suc 0) (lowered (Suc 0) bs) t" using low_letters [OF assms, of 14] by auto
  then obtain u where "gets_to org loop15_asm t u" "low_at (if bs ! 0 < 0x61 then 7 else 9) 0 (lowered 0 bs) u"
    using low_letter [OF t(2), of org] lowered_step [of 0 bs] assms(3) by auto
  then show ?thesis using gets_to_trans [OF t(1)] by blast
qed

lemma loop15_finishes:
  assumes "x_pc s = 0" "bytes_at (x_mem s) 0x600000 bs" "31 \<le> length bs" "length bs < 2 ^ 31" "\<not> bs ! 0 < 0x61"
  shows "\<exists>s'. finishes org loop15_asm s s' \<and> bytes_at (x_mem s') 0x600000 (take 16 bs @ map lower15 (take 15 bs) @ drop 31 bs)"
  using low_first [OF assms(1-4), of org] assms(5) lowered_done [OF assms(3)] by (auto simp: finishes_def low_at_def loop15_code)

lemma loop15_runs_off:
  assumes "x_pc s = 0" "bytes_at (x_mem s) 0x600000 bs" "31 \<le> length bs" "length bs < 2 ^ 31" "bs ! 0 < 0x61" "x_mem s 0x5ffffe = None"
  shows "\<exists>n. x86_run org loop15_asm n s = Inl Fault"
proof -
  obtain t where t: "gets_to org loop15_asm s t" "low_at 7 0 (lowered 0 bs) t" using low_first [OF assms(1-4), of org] assms(5) by auto
  have "x_mem t (0x600000 + of_nat 15) = Some (lowered 0 bs ! 15)"
    using t(2) by (intro bytes_nth [where bs = "lowered 0 bs"]) (simp_all add: low_at_def)
  moreover have "x_mem t 0x5ffffe = None" using run_mapped [OF t(1)] assms(6) by simp
  ultimately have "x86_run org loop15_asm 3 t = Inl Fault"
    using t(2) by (simp add: low_at_def x86_steps loop15_code loop15_labels load_byte store_byte)
  then show ?thesis by (rule run_fails [OF t(1)])
qed

end
