(* ===== verification/Ctf_Demo.thy ===== *)
theory Ctf_Demo
  imports Ctf_Divide Ctf_Bubble Ctf_Recur Ctf_Loops
begin

text \<open>Machines the witnesses about the exercises run: a page of data at \<open>0x600000\<close>, and a stack.\<close>

definition page :: "u8 list \<Rightarrow> memory" where
  "page bs = (\<lambda>x. if unat (x - 0x600000) < length bs then Some (bs ! unat (x - 0x600000)) else None)"

definition dword_bytes :: "u32 list \<Rightarrow> u8 list" where
  "dword_bytes xs = map (\<lambda>k. byte_of (ucast (xs ! (k div 4))) (k mod 4)) [0..<4 * length xs]"

definition cpu_on :: "memory \<Rightarrow> u64 \<Rightarrow> u64 \<Rightarrow> xcpu" where
  "cpu_on m a p =
     \<lparr>x_reg = (\<lambda>r. case r of RAX \<Rightarrow> a | RSP \<Rightarrow> p | _ \<Rightarrow> 0), x_pc = 0, x_fl = no_flags, x_mem = m\<rparr>"

lemma cpu_on_fields [simp]:
  "x_pc (cpu_on m a p) = 0" "x_mem (cpu_on m a p) = m" "x_reg (cpu_on m a p) RAX = a" "x_reg (cpu_on m a p) RSP = p"
  by (simp_all add: cpu_on_def)

lemma page_bytes: "length bs < 2 ^ 31 \<Longrightarrow> bytes_at (page bs) 0x600000 bs"
proof -
  assume l: "length bs < 2 ^ 31"
  have "unat (of_nat i :: u64) = i" if "i < length bs" for i using that l by (intro unat_small) simp
  then show ?thesis by (simp add: bytes_at_def list_all_iff page_def)
qed

lemma page_end: "length bs < 2 ^ 31 \<Longrightarrow> page bs (0x600000 + of_nat (length bs)) = None"
  using unat_small [of "length bs"] by (simp add: page_def)

lemma page_dwords:
  assumes "length xs < 1000"
  shows "dwords_at (page (dword_bytes xs)) 0x600000 xs"
proof -
  have "load_mem (page (dword_bytes xs)) (0x600000 + 4 * of_nat i) 4 = Some (ucast (xs ! i))" if i: "i < length xs" for i
  proof -
    have b: "page (dword_bytes xs) (0x600000 + 4 * of_nat i + of_nat k) = Some (byte_of (ucast (xs ! i)) k)" if k: "k < 4" for k
    proof -
      have "unat (of_nat (4 * i + k) :: u64) = 4 * i + k" using assms i k by (intro unat_small) simp
      moreover have "(0x600000 + 4 * of_nat i + of_nat k :: u64) - 0x600000 = of_nat (4 * i + k)" by simp
      ultimately have u: "unat ((0x600000 + 4 * of_nat i + of_nat k :: u64) - 0x600000) = 4 * i + k" by (simp only:)
      show ?thesis unfolding page_def u using i k by (simp add: dword_bytes_def)
    qed
    then have e: "map (\<lambda>k. the (page (dword_bytes xs) (0x600000 + 4 * of_nat i + of_nat k))) [0..<4] = map (byte_of (ucast (xs ! i))) [0..<4]"
      by (intro map_cong) simp_all
    have "unat (ucast (xs ! i) :: u64) < 256 ^ 4"
      using unsigned_less [of "xs ! i", where 'a = nat] by (simp add: unsigned_ucast_eq take_bit_nat_eq_self)
    then have "of_nat (le_val (map (byte_of (ucast (xs ! i))) [0..<4])) = (ucast (xs ! i) :: u64)"
      unfolding le_val_byte_of by (simp add: of_nat_unat)
    then show ?thesis unfolding load_mem_def e using b by (simp add: list_all_iff)
  qed
  then show ?thesis by (simp add: dwords_at_def list_all_iff)
qed

text \<open>A stack of one page below \<open>0x1000\<close>.\<close>

definition stack_page :: memory where
  "stack_page = (\<lambda>x. if x < 0x1000 then Some 0 else None)"

lemma stack_page_below: "stack_below stack_page 0x1000 624"
proof -
  have "(0x1000 - of_nat k :: u64) < 0x1000" if "1 \<le> k" "k < 625" for k
  proof -
    have "unat (of_nat k :: u64) = k" using that by (intro unat_small) simp
    then show ?thesis using that by (simp add: word_less_nat_alt unat_sub_if')
  qed
  then show ?thesis by (simp add: stack_below_def list_all_iff stack_page_def del: upt_Suc)
qed

end
