(* ===== verification/Spec2Isabelle.thy ===== *)
theory Spec2Isabelle
  imports Sdb_Demo Wrap_Test Launcher Lsof_Demo Mini_Tests Traps Traceme Ctf_Demo
begin

text \<open>
  A verification development of the C++, C and assembly programs of this repository: four course
  projects, each a small systems program on top of the Linux kernel, and a set of exercises.

  \<^bold>\<open>The programs\<close>
  \<^item> \<open>project4/hw4.cpp\<close>, \<open>hw4.h\<close>: a debugger. It loads an ELF file, starts the program under \<open>ptrace\<close>,
    keeps a list of breakpoints as saved words, decodes wait statuses, and reads commands from a script
    or a prompt.
  \<^item> \<open>project2/share.cpp\<close>, \<open>logger.h\<close>, \<open>logger.cpp\<close>: a library that \<open>LD_PRELOAD\<close> puts in front of the C
    library and that logs eighteen file functions, and the launcher that sets its environment;
    \<open>test.cpp\<close>, the program it is tried on.
  \<^item> \<open>project1/hw1.cpp\<close>: a lister of the open files of every process, read from \<open>/proc\<close>.
  \<^item> \<open>project3/libmini.c\<close>, \<open>libmini.h\<close>, \<open>libmini64.asm\<close>, \<open>start.asm\<close>: a small C library over raw system
    calls, with signal functions in C and \<open>setjmp\<close>, \<open>longjmp\<close>, \<open>open\<close> and \<open>sleep\<close> in assembly;
    \<open>alarm1.c\<close>, \<open>alarm2.c\<close>, \<open>alarm3.c\<close>, \<open>jmp1.c\<close>: four programs linked with it.
  \<^item> \<open>CTF/ptrace/no_more_traps/test.cpp\<close>: a tracer that replaces trap bytes by bytes read from a file;
    \<open>CTF/ptrace/traceme/traceme2.c\<close>: a program that goes on only when it is traced.
  \<^item> \<open>CTF/assembly\<close>: twenty-three exercises in assembly, run in an emulator on a page of data at \<open>0x600000\<close>.
  A test program calls the library beside it; the other programs do not call one another. The debugger and
  the tracer share the kernel model, the debugger and the lister the output streams, the two assembly
  models the registers and memory, and all of them the machine integers and the text functions.

  \<^bold>\<open>Shared theories\<close>
  \<^item> \<open>Prelude\<close>: words, their bytes, little-endian values, the outcome of an operation (\<open>Ok\<close>, \<open>Exit n\<close>,
    \<open>Undef\<close> for undefined behaviour of the language, \<open>Blocked\<close> for a wait that never ends) and its sequencing.
  \<^item> \<open>Ctext\<close>: the C and C++ text functions the sources call (numerals, \<open>strtok\<close>, words, lines), with
    read-back lemmas. \<open>Ostream\<close>: \<open>iostream\<close> insertions with the flags that stay in force.
  \<^item> \<open>Kernel\<close>: registers and byte memory of a traced process; one record field per call the debugger
    makes; the locales \<open>ptrace_kernel\<close> and \<open>debug_kernel\<close> with the documented laws of \<open>ptrace(2)\<close>,
    interpreted on \<open>machine_kernel\<close>, a byte machine over any CPU function.

  \<^bold>\<open>The debugger\<close>
  \<^item> \<open>Sdb_State\<close> (the globals and wait-status macros), \<open>Sdb_Show\<close> (printing, \<open>getcode\<close>, \<open>disasm\<close>, \<open>dump\<close>,
    registers, \<open>vmmap\<close>; a disassembly that reads past the code buffer and a \<open>vmmap\<close> whose uninitialised line
    pointer \<open>getline\<close> cannot use are undefined behaviour), \<open>Sdb_Break\<close> (\<open>bp\<close>, \<open>chkbp\<close>, \<open>del\<close>), \<open>Elf_Load\<close> (\<open>load\<close>), \<open>Sdb_Run\<close> (\<open>chkstat\<close>, \<open>cont\<close>,
    \<open>si\<close>, \<open>start\<close>, \<open>run\<close>), \<open>Sdb_Main\<close> (\<open>split\<close>, the dispatch, script and prompt): every function of the
    source, under its own name. The prompt, which does not notice the end of its input, is a partial
    function: \<open>None\<close> is a session that never ends.
  \<^item> \<open>Sdb_Inv\<close>, \<open>Sdb_Session\<close>: for any kernel, the invariant of the state and the moves between
    \<open>NONLOAD\<close>, \<open>LOADED\<close> and \<open>RUNNING\<close>, over the inductive predicate of reachable states.
  \<^item> \<open>Sdb_Hits\<close>: for a kernel with the laws, the refinement \<open>traced\<close>: the memory of the tracee is the
    program's own with trap bytes at some of the breakpoints, and the saved words are the program's own; what
    each command does to it. A hit and a deletion write a whole saved word of eight bytes back: two
    breakpoints may be nearer than that, and the theorems say what becomes of the nearer one.
  \<^item> \<open>Sdb_Dump\<close>, \<open>Sdb_Cmds\<close>: the text of \<open>dump\<close>, \<open>list\<close> and \<open>vmmap\<close>, and typed commands.
    \<open>Sdb_Demo\<close>: the session the witnesses run.

  \<^bold>\<open>The logger\<close>
  \<^item> \<open>Wrap\<close>: the eighteen wrappers over a record of the real library's functions. \<open>show_loop\<close>, whose
    index may never reach its bound, is a partial function: \<open>None\<close> is a wrapper that does not return.
  \<^item> \<open>Wrap_Log\<close>: the locale \<open>log_sink\<close>, in which \<open>dprintf\<close> appends to the log of its descriptor and the
    look-ups of names (\<open>realpath\<close>, \<open>readlink\<close>) change \<open>errno\<close> at most, interpreted on \<open>with_log\<close>, which adds a
    log and an \<open>errno\<close> to any library; transparency of the wrappers and the text of the lines.
  \<^item> \<open>Wrap_Test\<close>: the test program on the wrappers, against the same calls on the library behind.
  \<^item> \<open>Launcher\<close>: the argument loop, with the size of the block \<open>malloc\<close> gives as a parameter.

  \<^bold>\<open>The lister\<close>: \<open>Lsof\<close> (every function; the path buffer is carried from entry to entry, because
  \<open>readlink\<close> does not terminate it), \<open>Lsof_Facts\<close> (the table and the filters), \<open>Lsof_Demo\<close>.

  \<^bold>\<open>The small C library\<close>
  \<^item> \<open>Mini_Mem\<close>: memory with unmapped addresses, the system call as a parameter that may change memory
    and its own state or not return, results as \<open>mini_stop + _\<close>. \<open>Mini\<close>: every wrapper with the \<open>errno\<close>
    contract, \<open>memset\<close>, \<open>bzero\<close>, \<open>strlen\<close>. \<open>Mini_Signal\<close>: signal sets, \<open>sigaction\<close>, \<open>signal\<close>, \<open>perror\<close>.
  \<^item> \<open>Mini_Sets\<close>: the abstraction of a word to a set of signals and the simulation of the set functions,
    the choice of \<open>perror\<close>, and what \<open>signal\<close> asks of the kernel. \<open>Mini_Consts\<close>: the numbers of the header
    and what they agree on. \<open>Mini_Text\<close>: texts in memory, the locale \<open>console_kernel\<close> (\<open>write\<close> that
    takes everything) and what \<open>perror\<close> prints.
  \<^item> \<open>Mini_Asm\<close>: the instructions and the routines as the assembly files list them, and \<open>run_asm\<close>, which
    runs a given number of instructions. A theorem about a routine gives a number that suffices, so
    it says that the routine returns. An instruction takes one address; \<open>placed\<close> says where code is.
  \<^item> \<open>Mini_Run\<close>: the stubs, \<open>open\<close> against the C contract, \<open>sleep\<close> against the C function in the source,
    \<open>_start\<close> up to the call of \<open>main\<close> and after it, \<open>__myrt\<close>, whose system call goes on with the registers
    of the signal frame (\<open>sigreturn\<close>) and not behind it.
    \<open>Mini_Jump\<close>: \<open>setjmp\<close> and \<open>longjmp\<close>, and the memory they leave alone, in the locale \<open>mask_kernel\<close> (\<open>rt_sigprocmask\<close> as documented),
    interpreted in \<open>Mini_Demo\<close> on a kernel with a mask.
  \<^item> \<open>Mini_Kernel\<close>: the signals of a process (blocked, pending, actions, timer, what will be sent to it) and a
    wait, in which signals come in turn until one reaches the process; the locale \<open>signal_kernel\<close> with
    the calls the alarm programs make. Time is in milliseconds and passes in waiting calls only.
  \<^item> \<open>Mini_Alarm\<close>: the three alarm programs at the level of C. \<open>Mini_Jmp1\<close>: \<open>jmp1\<close> on the processor: the
    statements of its functions at the level of C, its calls of \<open>setjmp\<close> and \<open>longjmp\<close> as runs of the routines,
    after which \<open>main\<close> goes on with the registers and at the address the routine left. What the compiler chose
    (the place of \<open>i\<close>, the return addresses, the registers a function uses) is the argument \<open>jump_code\<close>.
    \<open>Mini_Machine\<close>: a kernel with signals, a timer, a mask and output, on which the locales are
    interpreted; \<open>Mini_Tests\<close>: processes on it that the witnesses run.

  \<^bold>\<open>The trap patcher\<close>: \<open>Traps\<close>, over the locale \<open>ptrace_kernel\<close>; one turn of its loop is the inductive
  relation \<open>patch_step\<close>, and the loop, a partial function, is a run of such turns (\<open>patch_loop_steps\<close>,
  \<open>patch_steps_loop\<close>). \<open>Traceme\<close>: \<open>traceme2.c\<close>, with the array and the function its file elides as parameters,
  untraced and traced.

  \<^bold>\<open>The assembly exercises\<close>
  \<^item> \<open>Ctf_Cpu\<close>: the x86-64 instructions of the exercises on registers with their parts, flags and byte
    memory. A flag that an instruction leaves undefined is \<open>None\<close>, and a jump on one stops the run;
    \<open>finishes\<close> is a run of some number of instructions to the end of the listing. Arrays of words, and
    what a store leaves of them.
  \<^item> \<open>Ctf_Programs\<close>: the listings, one definition per file, \<open>x.asm\<close> as \<open>x_asm\<close>.
  \<^item> \<open>Ctf_Straight\<close>, \<open>Ctf_Divide\<close>: the exercises without a loop, each with what it computes (\<open>x_computes\<close>) and
    when its division faults. \<open>Ctf_Bubble\<close>: the two loops of \<open>bubble\<close> are the passes of a sort on lists.
    \<open>Ctf_Recur\<close>: the calling convention of \<open>recur\<close>, by induction on the argument. \<open>Ctf_Loops\<close>: \<open>dispbin\<close> and
    \<open>loop15\<close>, the inputs on which they end (\<open>loop15_finishes\<close>) and on which they run off their data
    (\<open>loop15_runs_off\<close>). \<open>Ctf_Demo\<close>: the memories of the witnesses.

  \<^bold>\<open>Parameters and bounds\<close>
  The kernel, the CPU, the real C library behind the wrappers, Capstone, \<open>/proc\<close> and \<open>malloc\<close>'s block
  sizes are parameters; what a theorem uses of them is a hypothesis or a law of a locale. There is
  no fuel in a definition: loops are structural, have a measure, or are partial functions; the count of
  instructions of \<open>run_asm\<close> and \<open>x86_run\<close> is an argument, and the theorems give counts that suffice.
  In the small library the upper half of the register of an \<open>int\<close> argument is zero, the locals of
  \<open>signal\<close> and \<open>sleep\<close> are at a frame address that is an argument, and no signal is delivered during
  \<open>rt_sigprocmask\<close> (\<open>quiet\<close>).

  \<^bold>\<open>Not modelled\<close>
  \<open>CTF/ptrace/capstone/test.py\<close>, a script of pure input and output around Capstone, and the executables;
  the child side of the forks; the code between the kernel and a signal handler, so a handler is an
  address at which a function returns; the numbers of \<open>sigaction\<close> flags no function uses.

  Below, each property follows the sentence that states it; a theorem with hypotheses is followed by an
  application at concrete data.
\<close>

section \<open>Breakpoints\<close>

text \<open>
  C1. Setting a breakpoint: with a kernel that keeps the laws of \<open>ptrace(2)\<close>, on a running tracee whose
  memory is the program's own with trap bytes at some of the breakpoints and whose saved words are the
  program's own, \<open>bp\<close> at an address that is not null, where the program's byte is not \<open>0xcc\<close>, with no
  breakpoint in the eight bytes from it on, and that can be disassembled, changes exactly the byte at that
  address, to \<open>0xcc\<close>; it appends one entry, with the next index as id and the program's own word saved.
\<close>

theorem bp_sets_one_trap_byte:
  assumes "debug_kernel K view" "traced view m0 s t"
    "a \<noteq> 0" "\<And>b. b \<in> set (d_bps s) \<Longrightarrow> 8 \<le> unat (bp_addr b - a)"
    "holds_word m0 a c" "byte_of c 0 \<noteq> 0xcc" "code_ready K s a"
  shows "\<exists>s'. bp K a s = Ok s' \<and> d_pid s' = d_pid s \<and>
    d_bps s' = d_bps s @ [\<lparr>bp_id = int (length (d_bps s)), bp_addr = a, bp_orig = c\<rparr>] \<and>
    traced view m0 s' (t\<lparr>mem := (mem t)(a \<mapsto> 0xcc)\<rparr>)"
  using assms(2-) by (rule debug_kernel.bp_traced [OF assms(1)])

theorem bp_sets_one_trap_byte_witness:
  "\<exists>s'. bp demo_kernel 0x400010 (demo_sdb [] (demo_at demo_tracee)) = Ok s' \<and> d_bps s' = [demo_bp] \<and>
    traced m_procs demo_mem s' demo_armed"
  using bp_sets_one_trap_byte [OF demo_laws demo_traced _ _ demo_holds demo_word_first demo_code_ready]
  by (auto simp: demo_bp_def demo_armed_def demo_tracee_def)

text \<open>
  C2. Hitting a breakpoint: when the tracee stops with \<open>SIGTRAP\<close> one past a breakpoint that can be
  disassembled, no two breakpoints having one address (as in every reachable state) and none being one byte
  below it, \<open>chkstat\<close> writes the saved word back, all eight bytes of it, moves the program counter back to
  the breakpoint and keeps the list and every other byte and register. So trap bytes in the seven bytes
  above, those of other breakpoints included, become what they were when the word was saved: where the
  saved words are the program's own, the program's bytes.
\<close>

theorem hit_restores_byte_and_rip:
  assumes "debug_kernel K view" "d_state s = RUNNING"
    "k_waitpid K (d_w s) (d_pid s) = Some (Inr (stop_status 5, w))" "view w (d_pid s) = Some t"
    "readable (mem t) (bp_addr b)" "distinct (map bp_addr (d_bps s))"
    "\<And>c. c \<in> set (d_bps s) \<Longrightarrow> bp_addr c \<noteq> bp_addr b - 1"
    "b \<in> set (d_bps s)" "rip (regs t) = bp_addr b + 1" "code_ready K (s\<lparr>d_w := w\<rparr>) (bp_addr b)"
  shows "\<exists>s'. chkstat K s = Ok s' \<and> d_state s' = RUNNING \<and> d_bps s' = d_bps s \<and> d_pid s' = d_pid s \<and>
    view (d_w s') (d_pid s) = Some (t\<lparr>mem := poke_mem (mem t) (bp_addr b) (bp_orig b), regs := (regs t)\<lparr>rip := bp_addr b\<rparr>\<rparr>) \<and>
    (\<forall>m0. overlay m0 (d_bps s) (mem t) \<longrightarrow>
      traced view m0 s' (t\<lparr>mem := (\<lambda>x. if unat (x - bp_addr b) < 8 then m0 x else mem t x),
                           regs := (regs t)\<lparr>rip := bp_addr b\<rparr>\<rparr>))"
proof -
  from debug_kernel.chkstat_hits [OF assms] obtain s' where
    "chkstat K s = Ok s'" "d_state s' = RUNNING" "d_bps s' = d_bps s" "d_pid s' = d_pid s"
    "view (d_w s') (d_pid s) = Some (t\<lparr>mem := poke_mem (mem t) (bp_addr b) (bp_orig b), regs := (regs t)\<lparr>rip := bp_addr b\<rparr>\<rparr>)"
    by blast
  then show ?thesis using overlay_restore [OF _ assms(8)]
    by (intro exI [of _ s'] conjI allI impI tracedI) (simp_all add: overlay_clear)
qed

theorem hit_restores_byte_and_rip_witness:
  "\<exists>s'. chkstat demo_kernel (demo_sdb [demo_bp] demo_stopped) = Ok s' \<and> d_bps s' = [demo_bp] \<and>
    m_procs (d_w s') 7 = Some demo_back"
  using hit_restores_byte_and_rip [OF demo_laws, of "demo_sdb [demo_bp] demo_stopped" demo_stopped demo_hit demo_bp]
    tracedD(2) [OF demo_traced_hit] demo_code_ready [of "[demo_bp]" demo_stopped] demo_wait demo_hit_back demo_armed_readable
  by (simp add: demo_hit_def demo_regs_def) metis

text \<open>
  C3. \<open>chkbp\<close>, called before every resume, terminates and puts a trap byte at exactly the breakpoints
  above the program counter: every other byte, those of the breakpoints at or below the counter
  included, stays as it was, and the list is unchanged.
\<close>

theorem chkbp_rearms_above_rip:
  assumes "debug_kernel K view" "traced view m0 s t"
  shows "\<exists>w. chkbp K s = Ok (s\<lparr>d_w := w\<rparr>) \<and>
    traced view m0 (s\<lparr>d_w := w\<rparr>)
      (t\<lparr>mem := (\<lambda>x. if x \<in> bp_addr ` set (d_bps s) \<and> rip (regs t) < x then Some 0xcc else mem t x)\<rparr>)"
  using debug_kernel.chkbp_rearms [OF assms(1) tracedD [OF assms(2)]] tracedD [OF assms(2)]
  by (auto simp: traced_def overlay_rearm rearm_def [symmetric])

theorem chkbp_rearms_above_rip_witness:
  "\<exists>w. chkbp demo_kernel (demo_sdb [demo_bp] (demo_at demo_tracee)) = Ok (demo_sdb [demo_bp] w) \<and>
    traced m_procs demo_mem (demo_sdb [demo_bp] w) demo_armed"
  using chkbp_rearms_above_rip [OF demo_laws demo_traced_clear] by (simp only: demo_rearm_upd demo_sdb_fields)

text \<open>
  C4. \<open>cont\<close>: with a code buffer and a breakpoint that can be disassembled, no two breakpoints at one address
  and none one byte below it, the tracee is resumed with its breakpoints above the program counter armed;
  when that run stops one past the breakpoint, and has not written to its text (its memory is the
  program's own with trap bytes at some of the breakpoints), the debugger ends with the program counter back
  on the breakpoint and the program's own eight bytes there, and every other byte and register as the run
  left it.
\<close>

theorem cont_runs_to_breakpoint:
  assumes "debug_kernel K view" "traced view m0 s t"
    "\<And>w. view w (d_pid s) = Some (t\<lparr>mem := rearm (rip (regs t)) (d_bps s) (mem t)\<rparr>) \<Longrightarrow>
      \<exists>w1 w2. k_cont K w (d_pid s) = Inr w1 \<and> k_waitpid K w1 (d_pid s) = Some (Inr (stop_status 5, w2)) \<and>
        view w2 (d_pid s) = Some u"
    "overlay m0 (d_bps s) (mem u)" "distinct (map bp_addr (d_bps s))"
    "\<And>c. c \<in> set (d_bps s) \<Longrightarrow> bp_addr c \<noteq> bp_addr b - 1" "b \<in> set (d_bps s)" "rip (regs u) = bp_addr b + 1"
    "d_code s \<noteq> None" "code_ready K s (bp_addr b)"
  shows "\<exists>s'. cont K s = Ok s' \<and> d_bps s' = d_bps s \<and> d_pid s' = d_pid s \<and>
    traced view m0 s' (u\<lparr>mem := (\<lambda>x. if unat (x - bp_addr b) < 8 then m0 x else mem u x),
                         regs := (regs u)\<lparr>rip := bp_addr b\<rparr>\<rparr>)"
  using assms(2-) by (rule debug_kernel.cont_traced [OF assms(1)])

theorem cont_runs_to_breakpoint_witness:
  "\<exists>s'. cont demo_kernel (demo_sdb [demo_bp] (demo_at demo_tracee)) = Ok s' \<and> d_bps s' = [demo_bp] \<and>
    traced m_procs demo_mem s' demo_back"
proof -
  have "\<exists>w1 w2. k_cont demo_kernel w 7 = Inr w1 \<and> k_waitpid demo_kernel w1 7 = Some (Inr (stop_status 5, w2)) \<and>
      m_procs w2 7 = Some demo_hit"
    if "m_procs w 7 = Some (demo_tracee\<lparr>mem := demo_mem(0x400010 \<mapsto> 0xcc)\<rparr>)" for w
    using that by (simp add: demo_kernel_def machine_kernel_def m_resume_def m_wait_def demo_cpu_def demo_hit_def
        demo_armed_def demo_tracee_def)
  then show ?thesis
    using cont_runs_to_breakpoint [OF demo_laws demo_traced_clear, of demo_hit demo_bp] demo_rearm
      demo_code_ready [of "[demo_bp]" "demo_at demo_tracee"] tracedD(3) [OF demo_traced_hit] demo_hit_back_m0
    by (simp add: demo_hit_def demo_regs_def) metis
qed

text \<open>
  C5. Deleting a breakpoint through an id that some entry has, on a list where the id is an index, where it
  can be disassembled: \<open>del\<close> removes exactly the entry at that index and writes its saved word back, all
  eight bytes of it; no other byte and no register changes.
\<close>

theorem del_restores_byte:
  assumes "debug_kernel K view" "d_state s = RUNNING" "i < length (d_bps s)" "list_ex (\<lambda>b. bp_id b = int i) (d_bps s)"
    "view (d_w s) (d_pid s) = Some t" "readable (mem t) (bp_addr (d_bps s ! i))" "code_ready K s (bp_addr (d_bps s ! i))"
  shows "\<exists>s'. del K (int i) s = Ok s' \<and> d_state s' = RUNNING \<and> d_pid s' = d_pid s \<and>
    d_bps s' = take i (d_bps s) @ drop (Suc i) (d_bps s) \<and>
    view (d_w s') (d_pid s) = Some (t\<lparr>mem := poke_mem (mem t) (bp_addr (d_bps s ! i)) (bp_orig (d_bps s ! i))\<rparr>)"
  using debug_kernel.del_entry [OF assms] by (auto simp: core_def remove_at_def)

theorem del_restores_byte_witness:
  "\<exists>s'. del demo_kernel 0 (demo_sdb [demo_bp] (demo_at demo_armed)) = Ok s' \<and> d_bps s' = [] \<and>
    m_procs (d_w s') 7 = Some demo_tracee"
  using del_restores_byte [OF demo_laws, of "demo_sdb [demo_bp] (demo_at demo_armed)" 0 demo_armed]
    demo_code_ready [of "[demo_bp]" "demo_at demo_armed"] demo_armed_back demo_armed_readable tracedD(2) [OF demo_traced_bp]
  by simp metis

text \<open>
  C6. Setting a breakpoint at an address that is not null, where the program's byte is not \<open>0xcc\<close>, with no
  breakpoint in the eight bytes from it on, with a code buffer in which the address can be disassembled, and
  deleting it by the id it got, leaves the list and the tracee, memory and registers, exactly as they were.
\<close>

theorem bp_del_roundtrip:
  assumes "debug_kernel K view" "traced view m0 s t"
    "a \<noteq> 0" "\<And>b. b \<in> set (d_bps s) \<Longrightarrow> 8 \<le> unat (bp_addr b - a)"
    "holds_word m0 a c" "byte_of c 0 \<noteq> 0xcc" "d_code s \<noteq> None" "code_ready K s a"
  shows "\<exists>s1 s2. bp K a s = Ok s1 \<and> del K (int (length (d_bps s))) s1 = Ok s2 \<and> d_bps s2 = d_bps s \<and>
    traced view m0 s2 t"
  using assms(2-) by (rule debug_kernel.bp_del_traced [OF assms(1)])

theorem bp_del_roundtrip_witness:
  "\<exists>s1 s2. bp demo_kernel 0x400010 (demo_sdb [] (demo_at demo_tracee)) = Ok s1 \<and> del demo_kernel 0 s1 = Ok s2 \<and>
    d_bps s2 = [] \<and> traced m_procs demo_mem s2 demo_tracee"
  using bp_del_roundtrip [OF demo_laws demo_traced _ _ demo_holds demo_word_first _ demo_code_ready] by auto



section \<open>Sessions\<close>

text \<open>
  C8. In every state a session can reach, from the argument loop through any typed or scripted lines,
  the breakpoint list has no address twice and no null address, every saved word starts with a byte
  that is not a trap, no entry has an id below its index, the header buffers keep their size, a running
  debugger has a process, and an unloaded one has neither a process nor breakpoints.
\<close>

theorem session_invariant:
  assumes "session K s" "fork_parent K"
  shows "distinct (map bp_addr (d_bps s)) \<and>
    list_all (\<lambda>b. bp_addr b \<noteq> 0 \<and> byte_of (bp_orig b) 0 \<noteq> 0xcc) (d_bps s) \<and>
    list_all (\<lambda>(i, b). int i \<le> bp_id b) (enumerate 0 (d_bps s)) \<and> hdr_ok s \<and>
    (d_state s = RUNNING \<longrightarrow> d_pid s \<noteq> 0) \<and> (d_state s = NONLOAD \<longrightarrow> d_pid s = 0 \<and> d_bps s = [])"
  using session_inv [OF assms] by (simp add: sdb_inv_def bps_ok_def)

theorem session_invariant_witness:
  "\<exists>s. main_args demo_kernel [''a.out''] None (sdb0 demo_disk) = Ok (s, None) \<and> d_state s = LOADED \<and> hdr_ok s"
proof -
  obtain s where s: "main_args demo_kernel [''a.out''] None (sdb0 demo_disk) = Ok (s, None)" "d_state s = LOADED"
    using demo_main_args by blast
  from session_invariant [OF started [OF s(1)] demo_fork] s show ?thesis by blast
qed

text \<open>
  C9. The state machine: a line leaves the state as it was or makes one of the moves of its command:
  \<open>load\<close> to \<open>LOADED\<close> (from \<open>RUNNING\<close> too, where \<open>README.md\<close> allows it in the not loaded state only: the code
  refuses a second load only while nothing runs), \<open>start\<close> from \<open>LOADED\<close> to \<open>RUNNING\<close>, \<open>run\<close> between the two, \<open>cont\<close> and \<open>si\<close> from
  \<open>RUNNING\<close> to \<open>LOADED\<close>; no other command changes it and none leads back to \<open>NONLOAD\<close>.
\<close>

theorem exec_line_moves:
  assumes "exec_line K l s = Ok t"
  shows "d_state t = d_state s \<or> (d_state s, d_state t) \<in> set (moves (nth_arg 0 (split l)))"
  using assms dispatch_moves [of K "nth_arg 0 (split l)" _ _ s]
  by (simp add: exec_line_def Let_def ok_in_def moved_def)

theorem exec_line_moves_witness:
  "\<exists>t. exec_line demo_kernel ''start'' ((demo_sdb [] demo_world)\<lparr>d_state := LOADED, d_pid := 0\<rparr>) = Ok t \<and>
    d_state t = RUNNING \<and> (LOADED, d_state t) \<in> set (moves (nth_arg 0 (split ''start'')))"
proof -
  obtain t where t: "exec_line demo_kernel ''start'' ((demo_sdb [] demo_world)\<lparr>d_state := LOADED, d_pid := 0\<rparr>) = Ok t"
    "d_state t = RUNNING" using demo_start by blast
  from exec_line_moves [OF t(1)] t show ?thesis by auto
qed

text \<open>
  C10. How a script ends: its lines run in order until the last one, an \<open>exit\<close> or \<open>q\<close>, or one that fails. In the
  first two cases the debugger exits with code 0, after it has sent \<open>SIGTERM\<close> to the process if there is
  one, with no process and no code buffer; in the third with code -1 (\<open>error\<close>), in undefined behaviour of
  that line, or not at all, when the tracee the line waits for never stops.
\<close>

theorem run_script_exits:
  "\<exists>k\<le>length ls. \<exists>u. run_lines K (take k ls) s = Ok u \<and>
     ((k = length ls \<or> quits (ls ! k)) \<and>
        run_script K ls s = Exit 0 (u\<lparr>d_w := if d_pid u = 0 then d_w u else k_kill K (d_w u) (d_pid u),
          d_pid := 0, d_code := None\<rparr>) \<or>
      k < length ls \<and> \<not> quits (ls ! k) \<and> run_script K ls s = exec_line K (ls ! k) u \<and>
        ((\<exists>v. run_script K ls s = Exit (- 1) v) \<or> run_script K ls s = Undef \<or> run_script K ls s = Blocked))"
proof -
  obtain k u where k: "k \<le> length ls" "run_lines K (take k ls) s = Ok u"
    and e: "(k = length ls \<or> quits (ls ! k)) \<and> run_script K ls s = quit K u \<or>
      k < length ls \<and> \<not> quits (ls ! k) \<and> run_script K ls s = exec_line K (ls ! k) u \<and> (\<forall>t. exec_line K (ls ! k) u \<noteq> Ok t)"
    using run_script_ends by blast
  have "quit K u = Exit 0 (u\<lparr>d_w := if d_pid u = 0 then d_w u else k_kill K (d_w u) (d_pid u), d_pid := 0, d_code := None\<rparr>)"
    by (cases u) (simp add: quit_def)
  moreover have "(\<exists>v. exec_line K (ls ! k) u = Exit (- 1) v) \<or> exec_line K (ls ! k) u = Undef \<or> exec_line K (ls ! k) u = Blocked"
    if "\<not> quits (ls ! k)" "\<forall>t. exec_line K (ls ! k) u \<noteq> Ok t"
    using that exec_line_exits [of "ls ! k" K u] by (cases "exec_line K (ls ! k) u") (simp_all add: exits_def)
  ultimately show ?thesis using k e by (intro exI [of _ k] exI [of _ u] conjI) auto
qed

section \<open>Loading\<close>

text \<open>
  C11. Loading a well-formed 64-bit ELF image: the file and string-table headers, the string table and
  the section header named \<open>.text\<close> (the first of that name in table order; the old one when there is
  none) are those of the file, the state becomes \<open>LOADED\<close>, and the process, the breakpoints, the cached
  code and the rest of the world stay as they were.
\<close>

theorem load_reads_image:
  assumes "d_state s \<noteq> LOADED" "k_open K (d_w s) path = Inr f" "elf_image f"
    "length (ehdr (d_elf s)) = hdr_size" "length (str_shdr (d_elf s)) = hdr_size"
  shows "\<exists>t. load K path s = Ok t \<and> d_state t = LOADED \<and>
    d_elf t = \<lparr>ehdr = take hdr_size f, str_shdr = img_strhdr f, str_tab = Some (img_tab f),
      text_shdr = (case find (\<lambda>h. section_name (img_tab f) h = ''.text'') (img_headers f) of
                     None \<Rightarrow> text_shdr (d_elf s) | Some h \<Rightarrow> h)\<rparr> \<and>
    d_path t = d_path s \<and> d_pid t = d_pid s \<and> d_bps t = d_bps s \<and> d_code t = d_code s \<and>
    d_w t = d_w s \<and> d_err t = d_err s"
  using assms by (rule load_image)

theorem load_reads_image_witness:
  "\<exists>t. load demo_kernel ''a.out'' (sdb0 demo_disk) = Ok t \<and> d_state t = LOADED \<and>
    text_shdr (d_elf t) = demo_shdr 11 0x400000 0 96"
  using load_reads_image [of "sdb0 demo_disk" demo_kernel "''a.out''" demo_image] demo_image_ok demo_image_text demo_open
  by (auto simp: sdb0_def elf0_def)

section \<open>Looking at the tracee\<close>

text \<open>
  C12. \<open>dump\<close> prints a listing of the 80 bytes at the address: five lines of sixteen bytes, each with the
  address in twelve columns, the bytes in two hexadecimal digits with a blank behind each, and as
  characters between bars. That blank is all there is before the first bar, where \<open>README.md\<close> shows two.
\<close>

theorem dump_prints_listing:
  assumes "debug_kernel K view" "d_state s = RUNNING" "a \<noteq> 0" "intext (d_elf s) a"
    "view (d_w s) (d_pid s) = Some t" "length bs = 80" "\<And>i. i < 80 \<Longrightarrow> mem t (a + of_nat i) = Some (bs ! i)"
  shows "\<exists>s'. dump K a s = Ok s' \<and> core s' = core s \<and>
    os_text (d_err s') = os_text (d_err s) @ dump_ref 5 a bs"
  using assms(2-) by (rule debug_kernel.dump_text [OF assms(1)])

theorem dump_prints_listing_witness:
  "\<exists>s'. dump demo_kernel 0x400010 (demo_sdb [] (demo_at demo_tracee)) = Ok s' \<and>
    os_text (d_err s') = dump_ref 5 0x400010 (map of_nat [16..<96])"
  using dump_prints_listing [OF demo_laws, where s = "demo_sdb [] (demo_at demo_tracee)" and a = "0x400010" and
      t = demo_tracee and bs = "map of_nat [16..<96]"]
    demo_mem_nth demo_intext
  by (auto simp: demo_at_def demo_sdb_out demo_tracee_def fresh_stream_def simp del: upt_rec_numeral)

text \<open>
  C13. \<open>set\<close> then \<open>get\<close>: for each of the register names but \<open>flags\<close>, typing \<open>set\<close> with a value in
  hexadecimal changes that register of the tracee and no other and no memory, and \<open>get\<close> then prints the
  value in decimal and in hexadecimal.
\<close>

theorem set_then_get:
  assumes "debug_kernel K view" "traced view m0 s t" "n \<in> set reg_names" "n \<noteq> ''flags''"
  shows "\<exists>r s1 s2. exec_line K (join [''set'', n, ''0x'' @ show_nat 16 (unat v)]) s = Ok s1 \<and>
    traced view m0 s1 (t\<lparr>regs := r\<rparr>) \<and> reg_val n r = Some v \<and> (\<forall>m. m = n \<or> reg_val m r = reg_val m (regs t)) \<and>
    get K n s1 = Ok s2 \<and> core s2 = core s1 \<and>
    os_text (d_err s2) = os_text (d_err s) @ n @ '' = '' @ show_nat 10 (unat v) @ '' (0x'' @ show_nat 16 (unat v) @ '')'' @ [newline]"
proof -
  obtain r w where r: "reg_upd n v (regs t) = Some r" and s1: "set_reg K n v s = Ok (s\<lparr>d_w := w\<rparr>)"
    and tr: "traced view m0 (s\<lparr>d_w := w\<rparr>) (t\<lparr>regs := r\<rparr>)"
    using debug_kernel.set_reg_traced [OF assms] by blast
  let ?fs = "[put n, put '' = '', set_dec, put_num (unat v), put '' (0x'', set_hex, put_num (unat v), put ('')'' @ [newline])]"
  have v: "reg_val n r = Some v" by (rule reg_upd_same [OF r])
  have "word_ok n" using assms(3) by (rule reg_names_ok)
  then show ?thesis
    using exec_set [of n K v s] s1 tr v reg_upd_other [OF r] debug_kernel.get_traced [OF assms(1) tr, of n v]
    by (intro exI [of _ r] exI [of _ "s\<lparr>d_w := w\<rparr>"] exI [of _ "warn ?fs (s\<lparr>d_w := w\<rparr>)"] conjI)
      (auto simp: base_of_def)
qed

theorem set_then_get_witness:
  "\<exists>s1 s2. exec_line demo_kernel (join [''set'', ''rax'', ''0x'' @ show_nat 16 (unat (31 :: u64))])
      (demo_sdb [] (demo_at demo_tracee)) = Ok s1 \<and> get demo_kernel ''rax'' s1 = Ok s2"
  using set_then_get [OF demo_laws demo_traced, of "''rax''" 31] by (auto simp: reg_names_def)

section \<open>The end of the tracee\<close>

text \<open>
  C14. When the tracee exits with code \<open>c\<close>, \<open>chkstat\<close> forgets the process, goes back to \<open>LOADED\<close> and prints
  the raw wait status, which is \<open>256 * c\<close>, as the exit code; the breakpoint list is kept.
\<close>

theorem exit_is_reported_raw:
  assumes "k_waitpid K (d_w s) (d_pid s) = Some (Inr (exit_status c, w))" "\<not> os_hex (d_out s)" "0 \<le> d_pid s"
  shows "\<exists>t. chkstat K s = Ok t \<and> d_state t = LOADED \<and> d_pid t = 0 \<and> d_bps t = d_bps s \<and> d_w t = w \<and>
    os_text (d_out t) = os_text (d_out s) @ ''**   child process '' @ show_nat 10 (nat (d_pid s)) @
      '' terminiated normally (code '' @ show_nat 10 (256 * unat c) @ '')'' @ [newline]"
  using chkstat_exit [OF assms(1)] assms(2,3)
  by (simp add: child_msg_def show_int_def nat_mult_distrib)

theorem exit_is_reported_raw_witness:
  "\<exists>t. chkstat demo_kernel (demo_sdb [] (demo_world\<lparr>m_status := Some (exit_status 3)\<rparr>)) = Ok t \<and> d_state t = LOADED \<and>
    os_text (d_out t) = ''**   child process 7 terminiated normally (code 768)'' @ [newline]"
  using exit_is_reported_raw [where K = demo_kernel and s = "demo_sdb [] (demo_world\<lparr>m_status := Some (exit_status 3)\<rparr>)"
      and c = 3 and w = "demo_world\<lparr>m_status := Some (exit_status 3)\<rparr>"] demo_wait_exit
  by (auto simp: demo_sdb_out fresh_stream_def demo_shows)

text \<open>
  C15. A tracee killed by a signal is not noticed: \<open>WIFSIGNALED\<close> is only asked inside the branch for a
  normal exit, where it is never true, so \<open>chkstat\<close> prints nothing and the debugger goes on as \<open>RUNNING\<close>
  with the dead process.
\<close>

theorem killed_tracee_is_not_noticed:
  assumes "k_waitpid K (d_w s) (d_pid s) = Some (Inr (status, w))" "WIFSIGNALED status" "\<not> WIFSTOPPED status"
  shows "chkstat K s = Ok (s\<lparr>d_w := w\<rparr>)"
  using chkstat_signalled [OF assms(1) _ assms(3)] WIFEXITED_not_WIFSIGNALED [of status] assms(2) by blast

theorem killed_tracee_is_not_noticed_witness:
  "WIFSIGNALED 9 \<and> \<not> WIFSTOPPED 9 \<and>
   chkstat demo_kernel (demo_sdb [] (demo_world\<lparr>m_status := Some 9\<rparr>)) = Ok (demo_sdb [] (demo_world\<lparr>m_status := Some 9\<rparr>))"
  using killed_tracee_is_not_noticed [of demo_kernel "demo_sdb [] (demo_world\<lparr>m_status := Some 9\<rparr>)" 9 "demo_world\<lparr>m_status := Some 9\<rparr>"]
    demo_killed by simp

section \<open>The command language\<close>

text \<open>
  C16. An address typed in hexadecimal is the address: \<open>break\<close> followed by \<open>0x\<close> and the digits the
  debugger itself prints for an address sets a breakpoint at that address, for every 64-bit address.
\<close>

theorem typed_break_reaches_address:
  "exec_line K (join [''break'', ''0x'' @ show_nat 16 (unat a)]) s = bp K a s"
  by (rule exec_break)

text \<open>
  C17. The prompt is left by \<open>exit\<close> only: whatever is typed, the loop never ends in the ordinary way, and at
  the end of an input whose last line had its newline it goes round for ever.
\<close>

theorem prompt_never_returns:
  "run_prompt K l raws ended s \<noteq> Some (Ok t) \<and> run_prompt K [] [] ended s = None"
  using prompt_not_Ok prompt_spins by blast

text \<open>
  C18. Ids go stale: when the ids are the indices, as they are before any deletion, and an entry other
  than the last is deleted, deleting the last entry by its id is undefined behaviour, since the id is
  used as an index.
\<close>

theorem last_id_goes_stale:
  assumes "d_state s = RUNNING" "ids_fresh bs" "i < length bs - 1" "d_bps s = remove_at i bs"
  shows "del K (int (length bs - 1)) s = Undef"
  using last_id_stale [OF assms(2,3)] assms(1,4) by (simp add: del_stale)

theorem last_id_goes_stale_witness:
  "del demo_kernel 1 (demo_sdb [demo_bp\<lparr>bp_id := 1, bp_addr := 0x400020\<rparr>] demo_world) = Undef"
  using last_id_goes_stale [of "demo_sdb [demo_bp\<lparr>bp_id := 1, bp_addr := 0x400020\<rparr>] demo_world"
      "[demo_bp, demo_bp\<lparr>bp_id := 1, bp_addr := 0x400020\<rparr>]" 0 demo_kernel]
  by (simp add: ids_fresh_def remove_at_def)

section \<open>The logging library\<close>

text \<open>
  C19. The wrappers are transparent but for \<open>errno\<close>: over a world in which \<open>dprintf\<close> only appends to the log
  of its descriptor, and the look-ups of names change \<open>errno\<close> at most, each of the eighteen wrappers, when it
  returns, gives the result (and the buffer) of the real call, and leaves the world without the log and
  without \<open>errno\<close> as the real call leaves it; \<open>open\<close> passes on the mode when the flags ask for one. The one
  exception is \<open>close(2)\<close>, which reports success and closes nothing.
\<close>

theorem wrappers_are_transparent:
  assumes "log_sink L log rest"
  shows "(chmod L p m w = Ok (r, w') \<longrightarrow> (r, rest w') = apsnd rest (c_chmod L w p m)) \<and>
    (chown L p u g w = Ok (r, w') \<longrightarrow> (r, rest w') = apsnd rest (c_chown L w p u g)) \<and>
    (creat L p m w = Ok (r, w') \<longrightarrow> (r, rest w') = apsnd rest (c_creat L w p m)) \<and>
    (creat64 L p m w = Ok (r, w') \<longrightarrow> (r, rest w') = apsnd rest (c_creat64 L w p m)) \<and>
    (fopen L p k w = Ok (st, w') \<longrightarrow> (st, rest w') = apsnd rest (c_fopen L w p k)) \<and>
    (fopen64 L p k w = Ok (st, w') \<longrightarrow> (st, rest w') = apsnd rest (c_fopen64 L w p k)) \<and>
    (open_w L p fl va w = Ok (r, w') \<longrightarrow> (\<exists>mode passed. open_args fl va = Some (mode, passed) \<and>
      (r, rest w') = apsnd rest (c_open L w p fl passed))) \<and>
    (open64_w L p fl va w = Ok (r, w') \<longrightarrow> (\<exists>mode passed. open_args fl va = Some (mode, passed) \<and>
      (r, rest w') = apsnd rest (c_open64 L w p fl passed))) \<and>
    (rename L p q w = Ok (r, w') \<longrightarrow> (r, rest w') = apsnd rest (c_rename L w p q)) \<and>
    (remove_w L p w = Ok (r, w') \<longrightarrow> (r, rest w') = apsnd rest (c_remove L w p)) \<and>
    (tmpfile L w = Ok (st, w') \<longrightarrow> (st, rest w') = apsnd rest (c_tmpfile L w)) \<and>
    (tmpfile64 L w = Ok (st, w') \<longrightarrow> (st, rest w') = apsnd rest (c_tmpfile64 L w)) \<and>
    (close L fd w = Ok (r, w') \<longrightarrow> (r, rest w') = (if fd = 2 then (0, rest w) else apsnd rest (c_close L w fd))) \<and>
    (fclose L st w = Ok (r, w') \<longrightarrow> (r, rest w') = apsnd rest (c_fclose L w st)) \<and>
    (read_w L fd b c w = Some (Ok ((n, b'), w')) \<longrightarrow> (n, b', rest w') = apsnd (apsnd rest) (c_read L w fd b c)) \<and>
    (write_w L fd b c w = Some (Ok (n, w')) \<longrightarrow> (n, rest w') = apsnd rest (c_write L w fd b c)) \<and>
    (fread_w L b z c st w = Some (Ok ((n, b'), w')) \<longrightarrow> (n, b', rest w') = apsnd (apsnd rest) (c_fread L w b z c st)) \<and>
    (fwrite L b z c st w = Some (Ok (n, w')) \<longrightarrow> (n, rest w') = apsnd rest (c_fwrite L w b z c st))"
  by (intro conjI impI log_sink.path_calls_rest [OF assms] log_sink.open_calls_rest [OF assms]
      log_sink.lookup_first_rest [OF assms] log_sink.fd_calls_rest [OF assms]
      log_sink.transfer_calls_rest [OF assms]; assumption)+

theorem wrappers_are_transparent_witness:
  "\<exists>w'. chmod (with_log demo_errno demo_libc) ''b'' 0x1b6 (5, 0, \<lambda>fd. []) = Ok (0, w') \<and> fst w' = 6"
proof -
  obtain w' where w': "chmod (with_log demo_errno demo_libc) ''b'' 0x1b6 (5, 0, \<lambda>fd. []) = Ok (0, w')"
    using demo_chmod by blast
  note t = wrappers_are_transparent [OF demo_log_laws, THEN conjunct1, rule_format, OF w']
  from t w' demo_chmod_real show ?thesis by auto
qed

text \<open>
  C20. A read is logged on one line with at most the first 32 of the bytes that were read, unprintable
  ones as dots: no byte beyond the count asked for, beyond the result, or beyond 32 is shown, and a
  failed read shows none.
\<close>

theorem read_logs_prefix:
  assumes "log_sink L log rest" "c_read L w fd b c = (n, b', w1)" "fst (fd2name L w1 fd) = Some name"
    "log_out L w1 = Some out" "nat (sint n) \<le> length b'"
  shows "\<exists>w'. read_w L fd b c w = Some (Ok ((n, b'), w')) \<and> rest w' = rest w1 \<and>
    log w' out = log w1 out @ ''[logger] read('' @ name @ '', '' @
      quoted (map ascii_of (take (min 32 (min (unat c) (nat (sint n)))) b')) @ '', '' @ show_dec (sint c) @
      '') = '' @ show_dec (sint n) @ [newline]"
  using assms(2-) by (rule log_sink.read_line [OF assms(1)])

theorem read_logs_prefix_witness:
  "\<exists>w'. read_w (with_log demo_errno demo_libc) 4 (replicate 8 0) 100 (0, 0, \<lambda>fd. []) =
      Some (Ok ((5, [0x63, 0x63, 0x63, 0x63, 0, 0, 0, 0]), w')) \<and>
    snd (snd w') 2 = ''[logger] read(/tmp/b, '' @ quoted ''cccc.'' @ '', 100) = 5'' @ [newline]"
  using read_logs_prefix [where fd = 4 and c = 100 and w = "(0, 0, \<lambda>fd. [])", OF demo_log_laws demo_read demo_name(1) demo_log_out]
  by (simp add: demo_buf_text) blast

text \<open>
  C21. A write to a stream is logged with the first byte of each item only, and only for items that start
  below the number of items written: of four items of four bytes, one byte is shown.
\<close>

theorem fwrite_logs_item_heads:
  assumes "log_sink L log rest" "c_fwrite L w b z c st = (n, w1)" "fst (FILE2name L w1 st) = Some name"
    "log_out L w1 = Some out" "unat n \<le> length b" "0 < unat z" "unat z < 2 ^ 30"
  shows "\<exists>w'. fwrite L b z c st w = Some (Ok (n, w')) \<and> rest w' = rest w1 \<and>
    log w' out = log w1 out @ ''[logger] fwrite('' @
      quoted (map (\<lambda>i. ascii_of (b ! i))
        (filter (\<lambda>i. unat z dvd i) [0..<min 32 (min (unat (z * c)) (unat n))])) @ '', '' @ show_dec (sint z) @ '', '' @
      show_dec (sint c) @ '', '' @ quoted name @ '') = '' @ show_dec (sint n) @ [newline]"
  using log_sink.fwrite_line [OF assms(1) assms(2-)] by (simp add: shown_def)

theorem fwrite_logs_item_heads_witness:
  "\<exists>w'. fwrite (with_log demo_errno demo_libc) (map of_nat [0x61..<0x71]) 4 4 0x5000 (0, 0, \<lambda>fd. []) = Some (Ok (4, w')) \<and>
    snd (snd w') 2 = ''[logger] fwrite('' @ quoted ''a'' @ '', 4, 4, '' @ quoted ''/tmp/b'' @ '') = 4'' @ [newline]"
  using fwrite_logs_item_heads [where b = "map of_nat [0x61..<0x71]" and z = 4 and c = 4 and w = "(0, 0, \<lambda>fd. [])",
      OF demo_log_laws demo_fwrite demo_name(2) demo_log_out]
  by (simp add: demo_buf_text) blast

text \<open>
  C22. A write of items of \<open>2 ^ 32\<close> bytes never returns from the wrapper: the index of the loop that shows
  the data is a 32-bit integer, and adding the item size leaves it at 0.
\<close>

theorem fwrite_wrapper_hangs:
  assumes "c_fwrite L w b (2 ^ 32) c st = (n, w1)" "0 < n" "b \<noteq> []" "0 < 2 ^ 32 * c"
    "fst (FILE2name L w1 st) = Some name" "\<And>w2. FILE2name L w1 st = (Some name, w2) \<Longrightarrow> log_out L w2 = Some out"
  shows "fwrite L b (2 ^ 32) c st w = None"
proof -
  have "(ucast (2 ^ 32 :: u64) :: u32) = 0" by simp
  moreover obtain w2 where "FILE2name L w1 st = (Some name, w2)" using assms(5) by (cases "FILE2name L w1 st") simp
  moreover have "log_out L w2 = Some out" by (rule assms(6) [OF calculation(2)])
  ultimately show ?thesis
    using assms(1-4) by (simp add: fwrite_def show_data_def show_loop_stuck PRINT_SIZE_def)
qed

theorem fwrite_wrapper_hangs_witness:
  "fwrite (with_log demo_errno demo_libc) [0x61] (2 ^ 32) 1 0x5000 (0, 0, \<lambda>fd. []) = None"
  by (rule fwrite_wrapper_hangs [OF demo_fwrite _ _ _ demo_name(2) demo_log_out]) simp_all

text \<open>
  C23. \<open>project2/test.cpp\<close> under the logger: on a library behind that keeps its documented bounds, gives no names
  with a newline, and on which the program's own calls give the stream calls a stream (\<open>plain_main\<close> ends), the
  program runs to its end with status 0, the world is the one its calls on the library behind give (\<open>close(2)\<close>
  left out), and the log has one line, with one newline, for each of the eighteen calls, in their order, with
  the names the program's \<open>LARGE\<close> build calls; whatever the logger makes of \<open>errno\<close>.
\<close>

theorem test_program_runs_logged:
  assumes "lib_ok R out" "length buf1 = 1024" "length buf2 = 1024" "plain_main R buf1 buf2 v = Some v'"
  shows "\<exists>l'. test_main (with_log E R) buf1 buf2 (v, l) = Some (Ok (0, (v', l'))) \<and> lines_to out test_calls l l'"
  using assms by (rule test_runs)

theorem test_program_runs_logged_witness:
  "\<exists>l'. test_main (with_log demo_errno test_libc) (replicate 1024 0) (replicate 1024 0) (0, 0, \<lambda>fd. []) = Some (Ok (0, (17, l'))) \<and>
    (\<exists>lines. list_all2 logged_as test_calls lines \<and> snd l' 2 = concat lines)"
proof -
  have "plain_main test_libc (replicate 1024 0) (replicate 1024 0) 0 = Some 17"
    by (simp add: plain_main_def test_libc_def demo_libc_def FILE2name_def fd2name_def Let_def BUFMAX_def)
  from test_program_runs_logged [OF test_libc_ok _ _ this, of demo_errno "(0, \<lambda>fd. [])"] show ?thesis by (simp add: lines_to_def)
qed

section \<open>The launcher\<close>

text \<open>
  C24. A command line of the usage runs its command, when every block that \<open>malloc(strlen(s))\<close> gives for an
  argument has room for the terminator too (the request is one byte short), the descriptors \<open>open\<close> gives have
  at most nine characters, and \<open>execvp\<close> succeeds: after any sequence of \<open>-o file\<close> and \<open>-p path\<close>, with \<open>--\<close> or
  without it, \<open>execvp\<close> gets the command and the vector of the command and its arguments in order, in the
  environment the options set (the last of each kind wins, the defaults otherwise). An argument of the
  command whose block has no room is written past its end (\<open>Crashed\<close>).
\<close>

theorem launcher_runs_command:
  assumes "small_fds C" "list_all (\<lambda>x. copy_fits C (arg_text x)) xs" "list_all (copy_fits C) (cmd # args)"
    "st = fold (apply_arg C) xs \<lparr>ld_preload = ''./logger.so'', logger_out = ''2'', l_stdout = [], l_w = w\<rparr>"
    "l_exec C (l_w st) cmd" "\<not> copy_fits C long"
  shows "launch_main C (concat (map render xs) @ ''--'' # cmd # args) w = Execd cmd (cmd # args) st \<and>
    (cmd = [] \<or> hd cmd \<noteq> CHR ''-'' \<longrightarrow>
      launch_main C (concat (map render xs) @ cmd # args) w = Execd cmd (cmd # args) st) \<and>
    launch_main C (concat (map render xs) @ ''--'' # cmd # args @ long # others) w = Crashed"
  using launch_line [OF assms(1-5)] launch_long [OF assms(1,2,6)] by blast

theorem launcher_runs_command_witness:
  "launch_main demo_calls [''-o'', ''log'', ''ls'', ''-l''] () =
    Execd ''ls'' [''ls'', ''-l''] \<lparr>ld_preload = ''./logger.so'', logger_out = ''3'', l_stdout = [], l_w = ()\<rparr> \<and>
   launch_main demo_calls [''-o'', ''log'', ''--'', ''ls'', ''-l'', ''/usr/share/dict/usa.word''] () = Crashed"
proof -
  have "show_dec 3 = ''3''" by code_simp
  then show ?thesis
    using launcher_runs_command [of demo_calls "[Out_file ''log'']" "''ls''" "[''-l'']" _ "()" "''/usr/share/dict/usa.word''" "[]"]
      demo_calls_ok
    by (simp add: demo_calls_def copy_fits_def)
qed

section \<open>The lister\<close>

text \<open>
  C25. The filters select rows: when no call of the descriptor walk fails, what it prints is the table of all
  descriptors, cut down to the rows whose name contains the file pattern as a substring and whose type
  contains the type pattern, one line of seven padded cells each, in directory order. (\<open>README.md\<close> calls
  the pattern a regular expression; to the code it is a plain text.)
\<close>

theorem fd_walk_prints_filtered_table:
  assumes "p_opendir P dir = Inr ds" "fd_table P dir ds (p_junk P dir) = Some rows" "p_close P dir = None"
    "os_fill (ls_out s) = CHR '' ''"
  shows "\<exists>t. FindFd P dir proc regex type_regex s = Ok t \<and>
    os_text (ls_out t) = os_text (ls_out s) @ concat (map (row_text proc) (filter (row_passes regex type_regex) rows))"
  using fd_entries_table [OF assms(2,3)] print_rows_text [OF assms(4)] assms(1) by (simp add: FindFd_def)

theorem fd_walk_prints_filtered_table_witness:
  "\<exists>t. FindFd demo_proc ''/proc/26884/fd'' demo_bash ''bin'' ''REG'' lsof0 = Ok t \<and>
    os_text (ls_out t) = row_text demo_bash (''255u'', ''REG'', ''1179741'', ''/usr/bin'')"
  using fd_walk_prints_filtered_table [OF demo_opendir demo_table, of "''/proc/26884/fd''" lsof0 demo_bash "''bin''" "''REG''"]
    demo_row by (simp add: demo_close lsof0_def fresh_stream_def)

text \<open>
  C26. A deleted mapping is never marked: for a maps file whose lines have four fields, the inode and a path
  with any number of blanks after each field, the path without a blank and without the mark, and
  followed by \<open>(deleted)\<close> or not, and no call failing, the rows printed are those of \<open>mem_table\<close>, all with the
  descriptor column \<open>mem\<close> and the bare path, and they are the same rows that the file without its marks gives.
  (\<open>README.md\<close> asks for \<open>del\<close> and for the mark after the path.)
\<close>

theorem deleted_mapping_is_not_marked:
  assumes "p_fopen P dir = Inr (concat (map (\<lambda>e. maps_text e @ [newline]) es))" "list_all entry_ok es"
    "p_stat P dir = Inr st" "p_close P dir = None" "os_fill (ls_out s) = CHR '' ''"
  defines "rows \<equiv> mem_table (file_type (st_mode st)) es []"
  shows "\<exists>t. FindMem P dir proc regex type_regex s = Ok t \<and>
    os_text (ls_out t) = os_text (ls_out s) @ concat (map (row_text proc) (filter (row_passes regex type_regex) rows)) \<and>
    list_all (\<lambda>r. fst r = ''mem'') rows \<and>
    rows = mem_table (file_type (st_mode st)) (map (\<lambda>e. e\<lparr>me_gone := False\<rparr>) es) []"
  using FindMem_table [OF assms(1-4)] print_rows_text [OF assms(5)] mem_table_mem mem_table_gone
  by (auto simp: rows_def list_all_iff)

theorem deleted_mapping_is_not_marked_witness:
  "maps_text demo_gone = ''40-41 r-xp 0 08:02 26   /tmp/b (deleted)'' \<and>
   (\<exists>t. FindMem demo_maps ''/proc/1/maps'' demo_bash [] [] lsof0 = Ok t \<and>
     os_text (ls_out t) = row_text demo_bash (''mem'', ''REG'', ''26'', ''/tmp/b''))"
  using deleted_mapping_is_not_marked [of demo_maps "''/proc/1/maps''" "[demo_gone]" _ lsof0 demo_bash "[]" "[]", OF demo_maps_calls(1) _ demo_maps_calls(2,3)]
    demo_gone_ok demo_gone_text by (simp add: demo_gone_rows lsof0_def fresh_stream_def del: mem_table.simps) blast

section \<open>The small C library\<close>

text \<open>
  C27. \<open>longjmp\<close> goes back to where \<open>setjmp\<close> returned: run on the buffer \<open>setjmp\<close> filled, from any state that
  has kept the buffer and the stack, it returns to the caller of \<open>setjmp\<close> a second time, with the stack
  pointer and the six preserved registers of the first return and the second argument as the result.
\<close>

theorem longjmp_returns_to_setjmp:
  assumes "mask_kernel K mask_of set_mask quiet" "kern E = K" "jump_loaded E" "at_setjmp E s buf ret"
    "quiet (p_os (c_proc s))" "peek_mem (p_mem (c_proc s)) (buf + 64) = Some old"
  shows "\<exists>q. run_asm 30 E s = Inr q \<and> c_rip q = ret \<and> c_reg q RAX = 0 \<and> c_reg q RSP = c_reg s RSP + 8 \<and>
    (\<forall>r\<in>{RBX, RBP, R12, R13, R14, R15}. c_reg q r = c_reg s r) \<and>
    (\<forall>t. at_longjmp E t buf (c_reg s RSP) (p_mem (c_proc q)) \<and> quiet (p_os (c_proc t)) \<longrightarrow>
      (\<exists>u. run_asm 30 E t = Inr u \<and> c_rip u = ret \<and> c_reg u RAX = c_reg t RSI \<and> c_reg u RSP = c_reg q RSP \<and>
        (\<forall>r\<in>{RBX, RBP, R12, R13, R14, R15}. c_reg u r = c_reg q r)))"
  by (rule mask_kernel.setjmp_longjmp [OF assms]) blast

theorem longjmp_returns_to_setjmp_witness:
  "\<exists>q. run_asm 30 toy (toy_cpu 0x1000 0x5100 0) = Inr q \<and> c_rip q = 0x4242 \<and> c_reg q RBX = 3 \<and>
    (\<forall>t. at_longjmp toy t 0x5100 0x6f00 (p_mem (c_proc q)) \<longrightarrow>
      (\<exists>u. run_asm 30 toy t = Inr u \<and> c_rip u = 0x4242 \<and> c_reg u RAX = c_reg t RSI \<and> c_reg u RBX = 3))"
  using longjmp_returns_to_setjmp [OF toy.mask_kernel_axioms toy_setjmp_hyps(1) toy_loaded toy_at_setjmp TrueI toy_setjmp_hyps(2)]
  by (simp add: toy_cpu_def) metis

text \<open>
  C28. \<open>setjmp\<close> does not save the signal mask: the mask word of the buffer is still what it was before the
  call, and that stale word, whatever mask the process had, is what \<open>longjmp\<close> installs.
\<close>

theorem setjmp_saves_no_mask:
  assumes "mask_kernel K mask_of set_mask quiet" "kern E = K" "jump_loaded E" "at_setjmp E s buf ret"
    "quiet (p_os (c_proc s))" "peek_mem (p_mem (c_proc s)) (buf + 64) = Some old"
  shows "\<exists>q. run_asm 30 E s = Inr q \<and> peek_mem (p_mem (c_proc q)) (buf + 64) = Some old \<and>
    p_os (c_proc q) = p_os (c_proc s) \<and>
    (\<forall>t. at_longjmp E t buf (c_reg s RSP) (p_mem (c_proc q)) \<and> quiet (p_os (c_proc t)) \<longrightarrow>
      (\<exists>u. run_asm 30 E t = Inr u \<and> mask_of (p_os (c_proc u)) = old AND NOT unblockable))"
  by (rule mask_kernel.setjmp_longjmp [OF assms]) blast

theorem setjmp_saves_no_mask_witness:
  "\<exists>q. run_asm 30 toy (toy_cpu 0x1000 0x5100 0) = Inr q \<and> p_os (c_proc q) = 0x80 \<and>
    (\<forall>t. at_longjmp toy t 0x5100 0x6f00 (p_mem (c_proc q)) \<longrightarrow>
      (\<exists>u. run_asm 30 toy t = Inr u \<and> p_os (c_proc u) = 0))"
  using setjmp_saves_no_mask [OF toy.mask_kernel_axioms toy_setjmp_hyps(1) toy_loaded toy_at_setjmp TrueI toy_setjmp_hyps(2)]
  by (simp add: toy_cpu_def) metis

text \<open>
  C29. The assembly \<open>open\<close> keeps the contract of the C wrappers: whatever the kernel answers, it returns the
  value and leaves \<open>errno\<close> and the memory as \<open>WRAPPER_RETval(long)\<close> does, with the stack pointer and the
  preserved registers as its caller had them.
\<close>

theorem open_keeps_errno_contract:
  assumes "placed E a asm_open" "placed E b (gensys 2 ''open'')" "c_rip s = a"
    "readable (p_mem (c_proc s)) (c_reg s RSP - 8)" "readable (p_mem (c_proc s)) (c_reg s RSP - 16)"
    "sysc (kern E) 2 [c_reg s RDI, c_reg s RSI, c_reg s RDX] (in_stub s (a + 1)) = Some (ret, p)"
    "peek_mem (p_mem p) (c_reg s RSP - 16) = Some (c_reg s R10)"
    "peek_mem (p_mem p) (c_reg s RSP - 8) = Some (a + 1)" "peek_mem (p_mem p) (c_reg s RSP) = Some to"
    "readable (p_mem p) (errno_at (kern E))" "apart8 (errno_at (kern E)) (c_reg s RSP)"
  shows "\<exists>n s'. run_asm n E s = Inr s' \<and> c_rip s' = to \<and> c_reg s' RSP = c_reg s RSP + 8 \<and>
    retval (kern E) (ret, p) = Inr (c_reg s' RAX, c_proc s') \<and>
    (\<forall>r\<in>{RBX, RBP, R12, R13, R14, R15}. c_reg s' r = c_reg s r)"
  using assms by (rule open_run)

theorem open_keeps_errno_contract_witness:
  "\<exists>n s'. run_asm n toy (toy_cpu 0x1200 0x5100 0) = Inr s' \<and> c_rip s' = 0x4242 \<and> c_reg s' RAX = - 1 \<and>
    ld8 0x5000 (c_proc s') = Inr 2"
proof -
  have "\<exists>n s'. run_asm n toy (toy_cpu 0x1200 0x5100 0) = Inr s' \<and> c_rip s' = 0x4242 \<and>
      c_reg s' RSP = c_reg (toy_cpu 0x1200 0x5100 0) RSP + 8 \<and>
      retval (kern toy) (- 2, in_stub (toy_cpu 0x1200 0x5100 0) 0x1201) = Inr (c_reg s' RAX, c_proc s') \<and>
      (\<forall>r\<in>{RBX, RBP, R12, R13, R14, R15}. c_reg s' r = c_reg (toy_cpu 0x1200 0x5100 0) r)"
    by (rule open_keeps_errno_contract [OF toy_placed(3,6)])
      (simp_all add: toy_cpu_def toy_def toy_unix_def toy_sysc_def in_stub_def toy_readable readable_poke_keep
        apart8_def word_le_nat_alt)
  then obtain n s' where s': "run_asm n toy (toy_cpu 0x1200 0x5100 0) = Inr s'" "c_rip s' = 0x4242"
    "retval toy_unix (- 2, in_stub (toy_cpu 0x1200 0x5100 0) 0x1201) = Inr (c_reg s' RAX, c_proc s')"
    by (auto simp: toy_def)
  have "readable (p_mem (in_stub (toy_cpu 0x1200 0x5100 0) 0x1201)) (errno_at toy_unix)"
    by (simp add: toy_cpu_def toy_unix_def in_stub_def toy_readable readable_poke_keep)
  from retval_neg [OF this, of "- 2", where ?'b = 64] s'(3)
  have "c_reg s' RAX = - 1" "c_proc s' = (in_stub (toy_cpu 0x1200 0x5100 0) 0x1201)\<lparr>p_mem :=
      poke_mem (p_mem (in_stub (toy_cpu 0x1200 0x5100 0) 0x1201)) 0x5000 2\<rparr>"
    by (auto simp: toy_unix_def)
  then have "c_reg s' RAX = - 1 \<and> ld8 0x5000 (c_proc s') = Inr 2"
    by (simp add: ld8_def)
  with s' show ?thesis by blast
qed

text \<open>
  C30. The assembly \<open>sleep\<close> is the C function the source gives as its equivalent: for a number of seconds in
  the low half of the register and zeros in the upper half, the two return the same 32-bit value and leave
  the same memory, on success, on an interruption and on any other error.
\<close>

theorem sleep_equals_c:
  assumes "placed E a asm_sleep" "placed E b (gensys 35 ''nanosleep'')" "c_rip s = a" "c_reg s RDI = ucast secs"
    "\<And>d. d \<in> {24, 32, 40, 48} \<Longrightarrow> readable (p_mem (c_proc s)) (c_reg s RSP - d)"
    "sysc (kern E) 35 [c_reg s RSP - 32, c_reg s RSP - 16] (in_stub (sleep_call a s) (a + 6)) = Some (ret, p)"
    "peek_mem (p_mem p) (c_reg s RSP - 48) = Some (c_reg s R10)"
    "peek_mem (p_mem p) (c_reg s RSP - 40) = Some (a + 6)" "peek_mem (p_mem p) (c_reg s RSP) = Some to"
    "peek_mem (p_mem p) (c_reg s RSP - 16) = Some left"
  shows "\<exists>n s'. run_asm n E s = Inr s' \<and> c_rip s' = to \<and> c_reg s' RSP = c_reg s RSP + 8 \<and>
    sleep_c (kern E) (c_reg s RSP - 32) secs (sleep_frame a s) = Inr (ucast (c_reg s' RAX), c_proc s') \<and>
    (\<forall>r\<in>{RBX, RBP, R12, R13, R14, R15}. c_reg s' r = c_reg s r)"
  using assms by (rule sleep_run)

theorem sleep_equals_c_witness:
  "\<exists>n s'. run_asm n toy (toy_cpu 0x1300 60 0) = Inr s' \<and> c_rip s' = 0x4242 \<and>
    sleep_c toy_unix 0x6ee0 60 (sleep_frame 0x1300 (toy_cpu 0x1300 60 0)) = Inr (ucast (c_reg s' RAX), c_proc s')"
proof -
  let ?s = "toy_cpu 0x1300 60 0"
  let ?p = "in_stub (sleep_call 0x1300 ?s) 0x1306"
  have "\<exists>n s'. run_asm n toy ?s = Inr s' \<and> c_rip s' = 0x4242 \<and> c_reg s' RSP = c_reg ?s RSP + 8 \<and>
      sleep_c (kern toy) (c_reg ?s RSP - 32) 60 (sleep_frame 0x1300 ?s) = Inr (ucast (c_reg s' RAX), c_proc s') \<and>
      (\<forall>r\<in>{RBX, RBP, R12, R13, R14, R15}. c_reg s' r = c_reg ?s r)"
    by (rule sleep_equals_c [OF toy_placed(4,7), of ?s 60 "- 4" "?p\<lparr>p_mem := poke_mem (p_mem ?p) 0x6ef0 7\<rparr>" "0x4242" 7])
      (auto simp: toy_cpu_def toy_def toy_unix_def toy_sysc_def in_stub_def sleep_call_def toy_readable
        readable_poke_keep apart8_def word_le_nat_alt)
  then show ?thesis by (auto simp: toy_def toy_cpu_def)
qed

text \<open>
  C31. The signal set functions are the operations on sets of the signals 1 to 64: any sequence of them
  leaves the set that the same sequence gives abstractly, \<open>sigismember\<close> answers membership in it, and
  nothing outside the eight bytes of the set is touched.
\<close>

theorem sigsets_are_sets:
  assumes "sigset_at p a = Some S" "list_all call_ok cs" "1 \<le> k" "k \<le> 64"
  shows "\<exists>q. set_calls a cs p = Inr q \<and> sigset_at q a = Some (fold abs_call cs S) \<and>
    sigismember a (of_nat k) q = Inr (if k \<in> fold abs_call cs S then 1 else 0) \<and>
    p_os q = p_os p \<and> (\<forall>x. 8 \<le> unat (x - a) \<longrightarrow> p_mem q x = p_mem p x)"
  using set_calls_refine [OF assms(1,2)] sigismember_number [OF _ assms(3,4)] by blast

theorem sigsets_are_sets_witness:
  "\<exists>q. set_calls 0x5100 [Fill, Del 9, Empty, Add 14] \<lparr>p_mem = toy_mem, p_os = ()\<rparr> = Inr q \<and>
    sigset_at q 0x5100 = Some {14} \<and> sigismember 0x5100 14 q = Inr 1"
  using sigsets_are_sets [of "\<lparr>p_mem = toy_mem, p_os = ()\<rparr>" "0x5100" "{}" "[Fill, Del 9, Empty, Add 14]" 14]
  by (auto simp: sigset_at_def toy_zero sigs_0)

text \<open>
  C32. \<open>perror\<close> writes the message of the error number and a newline to descriptor 2, after the prefix and
  a colon when it has one, and leaves \<open>errno\<close> 0. A number outside the table is \<open>Unknown\<close> without a prefix
  and a read past the table with one: the writes of the prefix have set \<open>errno\<close> to 0 by the time it is
  compared with the bounds.
\<close>

theorem perror_prints_message:
  assumes "console_kernel K takes out_of put_out" "takes (p_os p) 2" "lits_at K (p_mem p) perror_lits"
    "peek_mem (p_mem p) (errno_at K) = Some e" "c_str_at (p_mem p) pfx s" "pfx \<noteq> 0"
  shows "perror K 0 p = Inr \<lparr>p_mem = poke_mem (p_mem p) (errno_at K) 0,
      p_os = put_out 2 [byte_of_char newline] (put_out 2 (map byte_of_char (message e)) (p_os p))\<rparr> \<and>
    perror K pfx p = (if 0 \<le> sint e \<and> sint e \<le> 34 then
      Inr \<lparr>p_mem = poke_mem (p_mem p) (errno_at K) 0,
        p_os = put_out 2 [byte_of_char newline] (put_out 2 (map byte_of_char (message e))
          (put_out 2 (map byte_of_char '': '') (put_out 2 (map byte_of_char s) (p_os p))))\<rparr>
      else Inl Ub)"
  using console_kernel.perror_plain [OF assms(1-4)] console_kernel.perror_with_prefix [OF assms(1-4,6,5)] by blast

theorem perror_prints_message_witness:
  "\<exists>q. perror perror_unix (lit perror_unix ''open'') perror_proc = Inr q \<and>
    uw_out (p_os q) 2 = map byte_of_char (''open: No such file or directory'' @ [newline])"
proof -
  have "message 2 = ''No such file or directory''" by (simp add: message_def errmsg_def)
  moreover have "lit perror_unix ''open'' \<noteq> 0" by (simp add: perror_unix_def unix_machine_def text_lit_def)
  ultimately show ?thesis
    using perror_prints_message [OF perror_laws TrueI perror_ready(1) perror_errno perror_ready(2)]
    by (simp add: perror_proc_def test_proc_def)
qed

section \<open>Programs on the small library\<close>

text \<open>
  C33. \<open>alarm2\<close>: with the alarm blocked and no other signal that ends the sleep, the program sleeps its five
  seconds through, finds the alarm of the third second pending, and writes the message that says so, with
  the terminator, to descriptor 1 and nothing else.
\<close>

theorem alarm2_reports_pending:
  assumes "signal_kernel K takes out_of put_out sg same_out returns" "prog_ok K takes fr p"
    "\<And>t k. (t, k) \<in> set (sg_sent (sg (p_os p))) \<Longrightarrow> t \<le> sg_clock (sg (p_os p)) + 5000 \<Longrightarrow>
      \<not> reaches k ((sg (p_os p))\<lparr>sg_blocked := insert 14 (sg_blocked (sg (p_os p)))\<rparr>)"
  shows "\<exists>q. alarm2_main K fr p = Inr (0, q) \<and> sg_clock (sg (p_os q)) = sg_clock (sg (p_os p)) + 5000 \<and>
    out_of (p_os q) = (out_of (p_os p))(1 := out_of (p_os p) 1 @ alarm_text True)"
  using assms(2-) by (rule signal_kernel.alarm2_prints [OF assms(1)])

theorem alarm2_reports_pending_witness:
  "\<exists>q. alarm2_main test_unix 0x6000 (test_proc []) = Inr (0, q) \<and>
    uw_out (p_os q) 1 = map byte_of_char (''sigalrm is pending.'' @ [newline]) @ [0]"
  using alarm2_reports_pending [OF test_laws test_prog_ok [of "[]"]]
  by (fastforce simp: test_proc_def alarm_text_def)

text \<open>
  C34. \<open>alarm3\<close>: the next signal sent to the process is a \<open>SIGINT\<close>, whose handler ends the pause. The program
  reports the alarm as pending when that comes a second or later, although \<open>SIGALRM\<close> is ignored (it is
  blocked too, and stays pending), and as not pending when it comes before.
\<close>

theorem alarm3_reports_by_arrival:
  assumes "signal_kernel K takes out_of put_out sg same_out returns" "prog_ok K takes fr p"
    "sg_sent (sg (p_os p)) = (t, 2) # later" "2 \<notin> sg_blocked (sg (p_os p))"
    "returns handler" "handler \<noteq> SIG_DFL" "handler \<noteq> SIG_IGN"
  shows "\<exists>q. alarm3_main K handler fr p = Inr (0, q) \<and>
    out_of (p_os q) = (out_of (p_os p))(1 := out_of (p_os p) 1 @ alarm_text (sg_clock (sg (p_os p)) + 1000 \<le> t))"
  using assms(2-) by (rule signal_kernel.alarm3_prints [OF assms(1)])

theorem alarm3_reports_by_arrival_witness:
  "(\<exists>q. alarm3_main test_unix 0x401136 0x6000 (test_proc [(3000, 2)]) = Inr (0, q) \<and> uw_out (p_os q) 1 = alarm_text True) \<and>
   (\<exists>q. alarm3_main test_unix 0x401136 0x6000 (test_proc [(200, 2)]) = Inr (0, q) \<and> uw_out (p_os q) 1 = alarm_text False)"
proof -
  have run: "\<exists>q. alarm3_main test_unix 0x401136 0x6000 (test_proc [(t, 2)]) = Inr (0, q) \<and>
      uw_out (p_os q) 1 = alarm_text (1000 \<le> t)" for t
    using alarm3_reports_by_arrival [OF test_laws test_prog_ok [of "[(t, 2)]"], of t "[]" "0x401136"]
    by (fastforce simp: test_proc_def SIG_DFL_def SIG_IGN_def)
  show ?thesis using run [of 3000] run [of 200] by simp
qed

text \<open>
  C35. \<open>jmp1\<close>, its calls of \<open>setjmp\<close> and \<open>longjmp\<close> running the routines as listed: the ten functions run once
  each, in the order of the table, every one called from \<open>main\<close> behind the return of \<open>setjmp\<close> that the jump of
  the one before made, although each leaves other values in the registers it has to preserve. The program
  returns 0 with the stack pointer and the preserved registers as \<open>main\<close> had them, has written the ten texts
  to descriptor 1 and no memory but \<open>i\<close>, \<open>errno\<close>, the buffer and seven words of stack, and leaves as signal
  mask what the mask word of the buffer held. (The words are mapped and apart, the null page is not mapped.)
\<close>

theorem jmp1_prints_in_order:
  assumes "jump_kernel K takes out_of put_out mask_of set_mask quiet" "kern E = K" "jmp1_ok E C takes jb old s"
    "quiet (p_os (c_proc s))"
  shows "\<exists>q. jmp1_main E C jb s = Some (Inr q) \<and> c_reg q RAX = 0 \<and>
    (\<forall>r\<in>{RBX, RBP, R12, R13, R14, R15, RSP}. c_reg q r = c_reg s r) \<and>
    same_off (jmp1_words K jb (var_i C s) (c_reg s RSP)) (p_mem (c_proc s)) (p_mem (c_proc q)) \<and>
    mask_of (p_os (c_proc q)) = old AND NOT unblockable \<and>
    out_of (p_os (c_proc q)) =
      (out_of (p_os (c_proc s)))(1 := out_of (p_os (c_proc s)) 1 @ concat (map (map byte_of_char \<circ> fst) jump_funs))"
  using jump_kernel.jmp1_prints [OF assms, unfolded jump_kernel.done_with_def [OF assms(1)]]
  by (simp only: var_i_def drop_0)

theorem jmp1_prints_in_order_witness:
  "\<exists>q. jmp1_main jump_toy jump_prog 0x5100 jump_cpu = Some (Inr q) \<and> c_reg q RAX = 0 \<and> c_reg q R12 = 4 \<and>
    uw_out (p_os (c_proc q)) 1 = concat (map (map byte_of_char \<circ> fst) jump_funs)"
  using jmp1_prints_in_order [OF jump_laws jump_kern jump_ready]
  by (fastforce simp: jump_cpu_def jump_proc_def test_proc_def)

section \<open>The trap patcher\<close>

text \<open>
  C36. From a start with nothing written, the \<open>k\<close>th trap of a run writes the \<open>k\<close>th byte of the file over the trap
  byte, and nothing else, and moves the program counter back to it before the resume; a trap after the
  last byte is overwritten with eight bytes of ones, both digits being \<open>EOF\<close>.
\<close>

theorem traps_write_bytes_in_order:
  assumes "ptrace_kernel K view" "(patch_step K child)\<^sup>*\<^sup>* s0 s" "t_count s0 = 0"
    "t_file s0 = Some (concat (map hex_pair bs))" "k_waitpid K (t_w s) child = Some (Inr (st, w0))" "WIFSTOPPED st"
    "view w0 child = Some t" "rip (regs t) = a + 1" "holds_word (mem t) a v" "byte_of v 0 = 0xcc"
  shows "(t_count s < length bs \<longrightarrow>
      (\<exists>w. view w child = Some (t\<lparr>mem := (mem t)(a \<mapsto> bs ! t_count s), regs := (regs t)\<lparr>rip := a\<rparr>\<rparr>) \<and>
        patch_step K child s (s\<lparr>t_count := Suc (t_count s), t_file := Some (concat (map hex_pair (drop (Suc (t_count s)) bs))),
          t_w := (case k_cont K w child of Inl e \<Rightarrow> w | Inr w' \<Rightarrow> w')\<rparr>))) \<and>
    (length bs \<le> t_count s \<longrightarrow>
      (\<exists>w. view w child = Some (t\<lparr>mem := poke_mem (mem t) a (- 1), regs := (regs t)\<lparr>rip := a\<rparr>\<rparr>) \<and>
        patch_step K child s (s\<lparr>t_count := Suc (t_count s), t_w := (case k_cont K w child of Inl e \<Rightarrow> w | Inr w' \<Rightarrow> w')\<rparr>)))"
  using ptrace_kernel.trap_in_order [OF assms] ptrace_kernel.trap_after_last [OF assms] by blast

theorem traps_write_bytes_in_order_witness:
  "\<exists>w. m_procs w 7 = Some (demo_hit\<lparr>mem := (mem demo_hit)(0x400010 \<mapsto> 0x55), regs := (regs demo_hit)\<lparr>rip := 0x400010\<rparr>\<rparr>) \<and>
    patch_step demo_kernel 7 \<lparr>t_w = demo_stopped, t_count = 0, t_file = Some ''5548'', t_err = []\<rparr>
      \<lparr>t_w = (case k_cont demo_kernel w 7 of Inl e \<Rightarrow> w | Inr w' \<Rightarrow> w'), t_count = 1, t_file = Some ''48'', t_err = []\<rparr>"
proof -
  let ?s = "\<lparr>t_w = demo_stopped, t_count = 0, t_file = Some ''5548'', t_err = []\<rparr>"
  have k: "ptrace_kernel demo_kernel m_procs" using demo_laws by (simp add: debug_kernel_def)
  have h: "holds_word (mem demo_hit) 0x400010 (set_low_byte demo_word 0xcc)"
    using holds_word_poke [of demo_mem "0x400010" "set_low_byte demo_word 0xcc"] poke_int3 [OF demo_holds]
    by (simp add: demo_hit_def demo_armed_def)
  have p: "hex_pair 0x55 = ''55''" "hex_pair 0x48 = ''48''" "WIFSTOPPED (stop_status 5)" by code_simp+
  show ?thesis
    using traps_write_bytes_in_order [OF k rtranclp.rtrancl_refl, of ?s "[0x55, 0x48]" 7 "stop_status 5" demo_stopped demo_hit "0x400010"]
      h p demo_wait
    by (simp add: demo_stopped_def demo_at_def demo_hit_def byte_of_set_low_byte)
qed

section \<open>The assembly exercises\<close>

text \<open>
  C37. \<open>bubble\<close>: the exercise ends, and leaves the ten integers at \<open>0x600000\<close> in ascending signed order, the
  same integers as often as before.
\<close>

theorem bubble_sorts:
  assumes "x_pc s = 0" "dwords_at (x_mem s) 0x600000 xs" "length xs = 10"
  shows "\<exists>s' ys. finishes org bubble_asm s s' \<and> dwords_at (x_mem s') 0x600000 ys \<and> mset ys = mset xs \<and> sorted (map sint ys)"
  using bubble_finishes [OF assms] bubble_sort_sorts by blast

theorem bubble_sorts_witness:
  "\<exists>s' ys. finishes 0x400000 bubble_asm (cpu_on (page (dword_bytes [5, 3, - 1, 8, 0, 2, - 7, 9, 3, 1])) 0 0) s' \<and>
    dwords_at (x_mem s') 0x600000 ys \<and> mset ys = mset [5, 3, - 1, 8, 0, 2, - 7, 9, 3, 1] \<and> sorted (map sint ys)"
  by (rule bubble_sorts) (simp_all add: page_dwords)

text \<open>
  C38. \<open>recur\<close>: with 624 bytes of stack in the low 4 GB, the recursion ends with \<open>r(25)\<close> in \<open>rax\<close>, the stack and
  base registers as they were and everything above the stack pointer untouched; the value is the closed
  form of the recurrence, \<open>(3 ^ 25 + 1) / 4\<close>.
\<close>

theorem recur_returns:
  assumes "x_pc s = 0" "unat (x_reg s RSP) < 2 ^ 32" "624 \<le> unat (x_reg s RSP)" "stack_below (x_mem s) (x_reg s RSP) 624"
  shows "\<exists>s'. finishes org recur_asm s s' \<and> x_reg s' RAX = 211822152361 \<and> x_reg s' RSP = x_reg s RSP \<and>
    x_reg s' RBP = x_reg s RBP \<and> (\<forall>x. x_reg s RSP \<le> x \<longrightarrow> x_mem s' x = x_mem s x)"
  using recur_finishes [OF assms, of org] r_fun_25 by (auto simp: keeps_above_def)

theorem recur_returns_witness:
  "\<exists>s'. finishes 0x400000 recur_asm (cpu_on stack_page 0 0x1000) s' \<and> x_reg s' RAX = 211822152361 \<and> x_reg s' RSP = 0x1000"
  using recur_returns [of "cpu_on stack_page 0 0x1000" "0x400000"] stack_page_below by auto

text \<open>
  C39. \<open>dispbin\<close>: for an odd number the exercise ends with its sixteen binary digits in the string, and nothing
  else changed; for an even one it never does: the branch of the last digit, a 0, runs on into the branch of
  a 1 with the counter at 0, and the run writes past the string until it faults at the end of the mapped bytes.
\<close>

theorem dispbin_ends_on_odd:
  assumes "x_pc s = 0" "bytes_at (x_mem s) 0x600000 bs" "16 \<le> length bs" "length bs < 2 ^ 31"
    "x_mem s (0x600000 + of_nat (length bs)) = None"
  shows "if bit (x_reg s RAX) 0
    then \<exists>s'. finishes org dispbin_asm s s' \<and> bytes_at (x_mem s') 0x600000 (bin_digits (ucast (x_reg s RAX)) @ drop 16 bs)
    else \<exists>n. x86_run org dispbin_asm n s = Inl Fault"
  using dispbin_finishes [OF assms(1-4)] dispbin_runs_off [OF assms(1-4) _ assms(5)] by simp

theorem dispbin_ends_on_odd_witness:
  "(\<exists>s'. finishes 0x400000 dispbin_asm (cpu_on (page (replicate 20 0)) 0x1235 0) s' \<and>
      bytes_at (x_mem s') 0x600000 (map byte_of_char ''0001001000110101'' @ [0, 0, 0, 0])) \<and>
   (\<exists>n. x86_run 0x400000 dispbin_asm n (cpu_on (page (replicate 20 0)) 0x1234 0) = Inl Fault)"
proof -
  have b: "bytes_at (page (replicate 20 0)) 0x600000 (replicate 20 0)" "page (replicate 20 0) (0x600000 + of_nat 20) = None"
    using page_bytes [of "replicate 20 0"] page_end [of "replicate 20 0"] by simp_all
  have d: "bin_digits 0x1235 @ drop 16 (replicate 20 0) = map byte_of_char ''0001001000110101'' @ [0, 0, 0, 0]" by code_simp
  have o: "bit (0x1235 :: u64) 0" "\<not> bit (0x1234 :: u64) 0" by simp_all
  show ?thesis
    using dispbin_ends_on_odd [of "cpu_on (page (replicate 20 0)) 0x1235 0" "replicate 20 0" "0x400000"]
      dispbin_ends_on_odd [of "cpu_on (page (replicate 20 0)) 0x1234 0" "replicate 20 0" "0x400000"] b d o by simp
qed

text \<open>
  C40. \<open>math4\<close>: \<open>(var1 * -5) / (-var2 % var3)\<close> as C computes it on 32-bit integers, quotient and remainder towards
  zero and products truncated; the run faults exactly when one of the two divisors is zero or a
  quotient does not fit.
\<close>

theorem math4_divides_like_c:
  assumes "x_pc s = 0" "dwords_at (x_mem s) 0x600000 [x, y, z, r]"
  shows "if div_fails (- y) z \<or> div_fails (- (x * 5)) (crem (- y) z) then \<exists>n. x86_run org math4_asm n s = Inl Divide
    else \<exists>s'. finishes org math4_asm s s' \<and> dwords_at (x_mem s') 0x600000 [x, y, z, cdiv (- (x * 5)) (crem (- y) z)]"
  using math4_faults [OF assms] math4_computes [OF assms] by auto

theorem math4_divides_like_c_witness:
  "(\<exists>s'. finishes 0x400000 math4_asm (cpu_on (page (dword_bytes [7, 8, 3, 0])) 0 0) s' \<and> dwords_at (x_mem s') 0x600000 [7, 8, 3, 17]) \<and>
   (\<exists>n. x86_run 0x400000 math4_asm n (cpu_on (page (dword_bytes [7, 9, 3, 0])) 0 0) = Inl Divide)"
proof -
  have c: "\<not> (div_fails (- 8) 3 \<or> div_fails (- (7 * 5)) (crem (- 8) 3))" "cdiv (- (7 * 5)) (crem (- 8) 3) = 17"
    "div_fails (- (7 * 5)) (crem (- 9) 3)" by code_simp+
  show ?thesis
    using math4_divides_like_c [of "cpu_on (page (dword_bytes [7, 8, 3, 0])) 0 0" 7 8 3 0 "0x400000"]
      math4_divides_like_c [of "cpu_on (page (dword_bytes [7, 9, 3, 0])) 0 0" 7 9 3 0 "0x400000"] c
      page_dwords [of "[7, 8, 3, 0]"] page_dwords [of "[7, 9, 3, 0]"] by simp
qed

end
